theory Spec2Isabelle
  imports Complex_Main "HOL-Library.Sublist"
begin

section \<open>Data model of the canvas hook\<close>

text \<open>
  The model follows the hook \<open>useCanvas\<close> of the dark "slate" theme; the hook of the
  light "wood frame" theme is embedded after it.  What the model leaves as it is in the
  source, and what it idealises:
  \<^item> the React state (\<open>isDrawing\<close>, \<open>rakePaths\<close>, \<open>placedObjects\<close>, \<open>undoStack\<close>) and the two
    references (\<open>currentPathRef\<close>, \<open>lastPointRef\<close>) are the fields of one record, and an
    event handler is a function from state to state: it runs to completion on the state
    of the latest render, and its state updates are applied before the next event;
  \<^item> the points arrays, which the source extends in place and shares between path
    objects, live in an explicit store, so that sharing is visible;
  \<^item> a JavaScript number is a real number, and the arithmetic whose result the code
    tests or counts with (the distance of a move from the last recorded point, the
    numbers of points of the spiral, the wave and the ellipse) is rounded to binary64
    as the code rounds it; the coordinates of generated points, widths, rotations and
    scales, which the code never tests, and the arguments the layouts compute for the
    curves are left unrounded;
  \<^item> an event carries the point that \<open>getCanvasCoordinates\<close> computes from it, in canvas
    coordinates; a touch event carries the points of its touches, first touch first;
  \<^item> \<open>Date.now()\<close> and \<open>Math.random()\<close> are read from an environment given with the
    event;
  \<^item> \<open>generatePattern\<close> is asynchronous: its call runs up to the first pause, and every
    later stretch between two pauses is a step of its own, so that other events can come
    in between;
  \<^item> the injected \<open>playSound\<close> callback and the painting of the canvas write no state
    of the hook and are left out.
\<close>

record Point =
  px :: real
  py :: real

datatype Tool = Rake | Place

datatype GardenObject = Stone | Bonsai | Lantern

text \<open>
  Identifiers are template strings in the source; the model keeps the template and its
  arguments: \<open>Date.now().toString()\<close>, \<open>circle-${radius}\<close>, \<open>spiral-main\<close>, \<open>wave-${i}\<close>,
  \<open>petal-${i}\<close>, \<open>center-circle\<close>, \<open>zen-line-${i}\<close>, \<open>ellipse-${r.toFixed(0)}\<close>,
  \<open>double-spiral-a\<close>, \<open>double-spiral-b\<close>, \<open>bamboo-${i}\<close>, \<open>ripple-${c}-${r.toFixed(0)}\<close>,
  \<open>serpentine\<close>.
\<close>

datatype path_id =
    StampId nat
  | CircleId real
  | SpiralMainId
  | WaveId nat
  | PetalId nat
  | CenterCircleId
  | ZenLineId nat
  | EllipseId int
  | DoubleSpiralAId
  | DoubleSpiralBId
  | BambooId nat
  | RippleId nat int
  | SerpentineId

datatype object_id = ObjStampId nat | AutoId nat nat

text \<open>
  A \<open>RakePath\<close> object is never assigned to after its creation, but its \<open>points\<close> array
  is extended in place by \<open>push\<close>.  The record is therefore polymorphic in the \<open>points\<close>
  field: an address of a points array in the store for the paths held by the hook, the
  list of points itself for the paths a pattern generator returns (those arrays are only
  read) and for the contents of a path as an observer sees them.
\<close>

record 'p RakePath =
  rid :: path_id
  points :: 'p
  width :: real

record PlacedObject =
  oid :: object_id
  otype :: GardenObject
  ox :: real
  oy :: real
  rotation :: real
  oscale :: real

type_synonym addr = nat

record CanvasState =
  rakePaths :: "addr RakePath list"
  placedObjects :: "PlacedObject list"

text \<open>The result of \<open>Math.random()\<close>: a number in the half-open unit interval.\<close>

typedef rand = "{r::real. 0 \<le> r \<and> r < 1}"
  by (rule exI[of _ 0]) simp

text \<open>
  What a handler reads from outside while it runs: the k-th reading of \<open>Date.now()\<close> and
  the k-th result of \<open>Math.random()\<close> during this run.  For \<open>generatePattern\<close> the run is
  the whole asynchronous call, pauses included.
\<close>

record env =
  clock :: "nat \<Rightarrow> nat"
  rnd :: "nat \<Rightarrow> rand"

record canvas =
  cwidth :: real
  cheight :: real

text \<open>
  A call of \<open>generatePattern\<close> that is paused: what it still has to do when its timer
  fires.  While it animates, it holds the canvas, its environment, the number of random
  draws it has made, the path it is drawing, the address of the points array of
  \<open>animatedPath\<close>, the points of the path still to be pushed and the paths still to be
  drawn.  While it places objects, it holds the canvas, its environment, the number of
  draws made before the first object, the index of the next object and \<open>objectCount\<close>.
\<close>

datatype task =
    Animating canvas env nat "Point list RakePath" addr "Point list" "Point list RakePath list"
  | Placing canvas env nat nat nat

record hook = CanvasState +
  isDrawing :: bool
  undoStack :: "CanvasState list"
  currentPathRef :: "addr RakePath option"
  lastPointRef :: "Point option"
  heap :: "addr \<Rightarrow> Point list"
  nxt :: addr
  tasks :: "task list"

text \<open>The arguments of the hook at the time of an event.\<close>

record props =
  canvasRef :: "canvas option"
  tool :: Tool
  selectedObject :: GardenObject

definition init :: hook where
  "init = \<lparr>rakePaths = [], placedObjects = [], isDrawing = False, undoStack = [],
           currentPathRef = None, lastPointRef = None, heap = (\<lambda>a. []), nxt = 0,
           tasks = []\<rparr>"

text \<open>JavaScript's \<open>xs.slice(-n)\<close> and \<open>xs.findIndex(P)\<close>.\<close>

definition slice_last :: "nat \<Rightarrow> 'a list \<Rightarrow> 'a list" where
  "slice_last n xs = drop (length xs - n) xs"

fun findIndex :: "('a \<Rightarrow> bool) \<Rightarrow> 'a list \<Rightarrow> int" where
  "findIndex P [] = - 1"
| "findIndex P (x # xs) =
     (if P x then 0 else (let i = findIndex P xs in if i < 0 then - 1 else i + 1))"

section \<open>Binary64 arithmetic\<close>

text \<open>
  The result of an arithmetic operation of the source is the exact result rounded to the
  nearest binary64 number, ties to even: \<open>fl\<close>.  A binary64 number is m * 2^k with
  fewer than 2^53 in m and k at least -1074; the numbers below 2^-1022 share the
  spacing 2^-1074.  There is no overflow in the model: a result beyond the largest
  binary64 number, an infinity and a NaN are not numbers of the model, except where a NaN
  is written out below.  \<open>Math.pow(d, 2)\<close> and \<open>Math.sqrt\<close> are taken as the correctly
  rounded square and square root.
\<close>

definition nearest_even :: "real \<Rightarrow> int" where
  "nearest_even y =
     (let f = \<lfloor>y\<rfloor>
      in if y - of_int f < 1 / 2 then f
         else if 1 / 2 < y - of_int f then f + 1
         else if even f then f else f + 1)"

definition expo :: "real \<Rightarrow> int" where
  "expo x = max (- 1022) \<lfloor>log 2 \<bar>x\<bar>\<rfloor>"

definition ulp :: "real \<Rightarrow> real" where
  "ulp x = 2 powi (expo x - 52)"

definition fl :: "real \<Rightarrow> real" where
  "fl x = of_int (nearest_even (x / ulp x)) * ulp x"

section \<open>Parametric curves\<close>

text \<open>
  A loop \<open>for (let i = 0; i <= n; i++)\<close> that pushes one point per round is the map over
  the integers from 0 to n; it pushes nothing when n is negative.  Where n is 0 the
  source divides 0 by 0 for the single point it pushes; no statement below depends on the
  coordinates of that point.
\<close>

definition generateSpiralPattern :: "real \<Rightarrow> real \<Rightarrow> real \<Rightarrow> real \<Rightarrow> Point list" where
  "generateSpiralPattern centerX centerY radius turns =
     (let totalPoints = fl (turns * 50) in
      map (\<lambda>i. let angle = (real_of_int i / totalPoints) * turns * 2 * pi;
                    currentRadius = (real_of_int i / totalPoints) * radius
                in \<lparr>px = centerX + cos angle * currentRadius,
                    py = centerY + sin angle * currentRadius\<rparr>)
          [0..\<lfloor>totalPoints\<rfloor>])"

definition generateWavePattern :: "real \<Rightarrow> real \<Rightarrow> real \<Rightarrow> real \<Rightarrow> real \<Rightarrow> Point list" where
  "generateWavePattern startX startY endX amplitude frequency =
     (let distance = fl (endX - startX);
          steps = \<lfloor>fl (distance / 3)\<rfloor>
      in map (\<lambda>i. let progress = real_of_int i / real_of_int steps
                   in \<lparr>px = startX + progress * distance,
                       py = startY + sin (progress * frequency * pi * 2) * amplitude\<rparr>)
             [0..steps])"

text \<open>
  The number of points of a circle is counted from half its radius; the product of a
  binary64 number and 0.5 is exact short of underflow, so nothing is rounded there.
\<close>

definition generateCirclePattern :: "real \<Rightarrow> real \<Rightarrow> real \<Rightarrow> Point list" where
  "generateCirclePattern centerX centerY radius =
     (let totalPoints = \<lfloor>radius * 0.5\<rfloor> in
      map (\<lambda>i. let angle = (real_of_int i / real_of_int totalPoints) * 2 * pi
                in \<lparr>px = centerX + cos angle * radius,
                    py = centerY + sin angle * radius\<rparr>)
          [0..totalPoints])"

text \<open>
  In \<open>generateEllipsePattern\<close> the argument of \<open>Math.sqrt\<close> can be negative.  Its square
  root is then NaN, and so are \<open>approxPerimeter\<close> and \<open>totalPoints\<close>
  (\<open>Math.max(24, NaN)\<close> is NaN); the test \<open>0 <= NaN\<close> fails and the loop pushes nothing.
\<close>

definition generateEllipsePattern :: "real \<Rightarrow> real \<Rightarrow> real \<Rightarrow> real \<Rightarrow> Point list" where
  "generateEllipsePattern centerX centerY radiusX radiusY =
     (let radicand = fl (fl (fl (3 * radiusX) + radiusY) * fl (radiusX + fl (3 * radiusY)))
      in if radicand < 0 then []
         else
           (let approxPerimeter =
                  fl (fl pi * fl (fl (3 * fl (radiusX + radiusY)) - fl (sqrt radicand)));
                totalPoints = max 24 \<lfloor>fl (approxPerimeter * fl 0.3)\<rfloor>
            in map (\<lambda>i. let angle = (real_of_int i / real_of_int totalPoints) * 2 * pi
                         in \<lparr>px = centerX + cos angle * radiusX,
                             py = centerY + sin angle * radiusY\<rparr>)
                   [0..totalPoints]))"

section \<open>Layout algorithms\<close>

text \<open>
  A loop that appends one element per iteration and may call \<open>Math.random()\<close> in its
  body: the body receives the loop index and the number of draws made so far, and
  returns the element together with the new number of draws.
\<close>

fun for_each :: "'i list \<Rightarrow> ('i \<Rightarrow> nat \<Rightarrow> 'a \<times> nat) \<Rightarrow> nat \<Rightarrow> 'a list \<times> nat" where
  "for_each [] body k = ([], k)"
| "for_each (i # is) body k =
     (case body i k of (a, k1) \<Rightarrow>
        (case for_each is body k1 of (as, k2) \<Rightarrow> (a # as, k2)))"

abbreviation val :: "rand \<Rightarrow> real" where
  "val \<equiv> Rep_rand"

text \<open>\<open>Math.atan2\<close> on real arguments, and \<open>r.toFixed(0)\<close> read back as an integer.\<close>

definition atan2 :: "real \<Rightarrow> real \<Rightarrow> real" where
  "atan2 y x =
     (if 0 < x then arctan (y / x)
      else if x < 0 then (if 0 \<le> y then arctan (y / x) + pi else arctan (y / x) - pi)
      else if 0 < y then pi / 2
      else if y < 0 then - (pi / 2)
      else 0)"

definition toFixed0 :: "real \<Rightarrow> int" where
  "toFixed0 r = \<lfloor>r + 1 / 2\<rfloor>"

type_synonym pattern = "canvas \<Rightarrow> (nat \<Rightarrow> rand) \<Rightarrow> nat \<Rightarrow> Point list RakePath list \<times> nat"

function circlesLoop ::
  "real \<Rightarrow> real \<Rightarrow> real \<Rightarrow> real \<Rightarrow> (nat \<Rightarrow> rand) \<Rightarrow> nat \<Rightarrow> Point list RakePath list \<times> nat" where
  "circlesLoop centerX centerY bound radius r k =
     (if radius < bound then
        (let pts = generateCirclePattern centerX centerY radius;
             p = \<lparr>rid = CircleId radius, points = pts, width = 6 + val (r k) * 4\<rparr>
         in case circlesLoop centerX centerY bound (radius + 40) r (k + 1) of
              (ps, k') \<Rightarrow> (p # ps, k'))
      else ([], k))"
  by pat_completeness auto
termination
  by (relation "measure (\<lambda>(centerX, centerY, bound, radius, r, k). nat \<lceil>bound - radius\<rceil>)")
     (auto, linarith)

definition concentricCircles :: pattern where
  "concentricCircles cv r k =
     (let centerX = cwidth cv / 2;
          centerY = cheight cv / 2
      in circlesLoop centerX centerY (min (cwidth cv) (cheight cv) / 2 - 50) 50 r k)"

definition spiralGarden :: pattern where
  "spiralGarden cv r k =
     (let centerX = cwidth cv / 2;
          centerY = cheight cv / 2;
          maxRadius = min (cwidth cv) (cheight cv) / 2 - 50
      in ([\<lparr>rid = SpiralMainId,
             points = generateSpiralPattern centerX centerY maxRadius 4,
             width = 8 + val (r k) * 4\<rparr>], k + 1))"

definition wavePatterns :: pattern where
  "wavePatterns cv r k =
     (let waveCount = 5;
          spacing = cheight cv / (real waveCount + 1)
      in for_each [1..<Suc waveCount]
           (\<lambda>i k. let y = spacing * real i;
                       amplitude = 30 + val (r k) * 20;
                       frequency = 2 + val (r (k + 1)) * 2;
                       pts = generateWavePattern 50 y (cwidth cv - 50) amplitude frequency
                   in (\<lparr>rid = WaveId i, points = pts, width = 6 + val (r (k + 2)) * 4\<rparr>, k + 3))
           k)"

definition petalPoints :: "real \<Rightarrow> real \<Rightarrow> real \<Rightarrow> Point list" where
  "petalPoints centerX centerY angle =
     (let startX = centerX + cos angle * 50;
          startY = centerY + sin angle * 50;
          endX = centerX + cos angle * 200;
          endY = centerY + sin angle * 200;
          steps = 30
      in map (\<lambda>j. let t = real j / real steps;
                       curveOffset = sin (t * pi) * 30;
                       perpAngle = angle + pi / 2
                   in \<lparr>px = startX + (endX - startX) * t + cos perpAngle * curveOffset,
                       py = startY + (endY - startY) * t + sin perpAngle * curveOffset\<rparr>)
             [0..<Suc steps])"

definition mandala :: pattern where
  "mandala cv r k =
     (let centerX = cwidth cv / 2;
          centerY = cheight cv / 2;
          petals = 8
      in case for_each [0..<petals]
                (\<lambda>i k. let angle = (real i / real petals) * 2 * pi
                        in (\<lparr>rid = PetalId i, points = petalPoints centerX centerY angle,
                             width = 5 + val (r k) * 3\<rparr>, k + 1))
                k of
           (paths, k') \<Rightarrow>
             (paths @ [\<lparr>rid = CenterCircleId,
                        points = generateCirclePattern centerX centerY 30,
                        width = 8\<rparr>], k'))"

definition zenLines :: pattern where
  "zenLines cv r k =
     (let lineCount = 12;
          spacing = cwidth cv / (real lineCount + 1)
      in for_each [1..<Suc lineCount]
           (\<lambda>i k. let x = spacing * real i;
                       steps = 40
                   in case for_each [0..<Suc steps]
                             (\<lambda>j k. let t = real j / real steps;
                                         y = 50 + t * (cheight cv - 100);
                                         waveOffset = sin (t * pi * 3) * (15 + val (r k) * 10)
                                     in (\<lparr>px = x + waveOffset, py = y\<rparr>, k + 1))
                             k of
                        (pts, k') \<Rightarrow>
                          (\<lparr>rid = ZenLineId i, points = pts, width = 6 + val (r k') * 4\<rparr>, k' + 1))
           k)"

function ellipsesLoop ::
  "real \<Rightarrow> real \<Rightarrow> real \<Rightarrow> real \<Rightarrow> real \<Rightarrow> (nat \<Rightarrow> rand) \<Rightarrow> nat \<Rightarrow> Point list RakePath list \<times> nat" where
  "ellipsesLoop centerX centerY maxRadiusX maxRadiusY rr r k =
     (if rr < maxRadiusX then
        (let rx = rr;
             ry = max 24 ((rr / maxRadiusX) * maxRadiusY);
             pts = generateEllipsePattern centerX centerY rx ry;
             p = \<lparr>rid = EllipseId (toFixed0 rr), points = pts, width = 6 + val (r k) * 3\<rparr>
         in case ellipsesLoop centerX centerY maxRadiusX maxRadiusY (rr + 36) r (k + 1) of
              (ps, k') \<Rightarrow> (p # ps, k'))
      else ([], k))"
  by pat_completeness auto
termination
  by (relation "measure (\<lambda>(centerX, centerY, maxRadiusX, maxRadiusY, rr, r, k). nat \<lceil>maxRadiusX - rr\<rceil>)")
     (auto, linarith)

definition ellipticalRings :: pattern where
  "ellipticalRings cv r k =
     (let centerX = cwidth cv / 2;
          centerY = cheight cv / 2;
          maxRadiusX = min (cwidth cv) (cheight cv) / 2 - 60;
          maxRadiusY = maxRadiusX * (0.6 + val (r k) * 0.3)
      in ellipsesLoop centerX centerY maxRadiusX maxRadiusY 40 r (k + 1))"

definition doubleSpiral :: pattern where
  "doubleSpiral cv r k =
     (let centerX = cwidth cv / 2;
          centerY = cheight cv / 2;
          maxRadius = min (cwidth cv) (cheight cv) / 2 - 50;
          main = \<lparr>rid = DoubleSpiralAId,
                  points = generateSpiralPattern centerX centerY maxRadius 3.5,
                  width = 7 + val (r k) * 3\<rparr>;
          offsetAngle = pi;
          pointsB = map (\<lambda>p. let dx = px p - centerX;
                                  dy = py p - centerY;
                                  angle = atan2 dy dx + offsetAngle;
                                  radius = sqrt (dx\<^sup>2 + dy\<^sup>2)
                              in \<lparr>px = centerX + cos angle * radius,
                                  py = centerY + sin angle * radius\<rparr>)
                        (points main);
          other = \<lparr>rid = DoubleSpiralBId, points = pointsB, width = 7 + val (r (k + 1)) * 3\<rparr>
      in ([main, other], k + 2))"

definition bambooGrove :: pattern where
  "bambooGrove cv r k =
     (let stalks = 10 + \<lfloor>val (r k) * 6\<rfloor>;
          margin = 60
      in for_each [0..<nat stalks]
           (\<lambda>i k. let x = margin + (real i + 0.5) * ((cwidth cv - margin * 2) / real_of_int stalks);
                       sway = 18 + val (r k) * 14;
                       freq = 2 + val (r (k + 1)) * 2.5;
                       steps = 48;
                       pts = map (\<lambda>j. let t = real j / real steps;
                                          y = 50 + t * (cheight cv - 100);
                                          offset = sin (t * pi * freq) * sway
                                      in \<lparr>px = x + offset, py = y\<rparr>)
                                 [0..<Suc steps]
                   in (\<lparr>rid = BambooId i, points = pts, width = 5 + val (r (k + 2)) * 3\<rparr>, k + 3))
           (k + 1))"

function ripplesLoop ::
  "nat \<Rightarrow> real \<Rightarrow> real \<Rightarrow> real \<Rightarrow> real \<Rightarrow> (nat \<Rightarrow> rand) \<Rightarrow> nat \<Rightarrow> Point list RakePath list \<times> nat" where
  "ripplesLoop c cx cy maxR rr r k =
     (if rr < maxR then
        (let pts = generateCirclePattern cx cy rr;
             p = \<lparr>rid = RippleId c (toFixed0 rr), points = pts, width = 5 + val (r k) * 3\<rparr>
         in case ripplesLoop c cx cy maxR (rr + (32 + val (r (k + 1)) * 12)) r (k + 2) of
              (ps, k') \<Rightarrow> (p # ps, k'))
      else ([], k))"
  by pat_completeness auto
termination
proof (relation "measure (\<lambda>(c, cx, cy, maxR, rr, r, k). nat \<lceil>maxR - rr\<rceil>)", goal_cases)
  case 1
  show ?case by simp
next
  case (2 c cx cy maxR rr r k)
  have "0 \<le> val (r (k + 1))"
    using Rep_rand [of "r (k + 1)"] by simp
  then have "\<lceil>maxR - (rr + (32 + val (r (k + 1)) * 12))\<rceil> \<le> \<lceil>maxR - rr - 32\<rceil>"
    by (intro ceiling_mono) simp
  moreover have "\<lceil>maxR - rr - 32\<rceil> = \<lceil>maxR - rr\<rceil> - 32"
    using ceiling_diff_of_int [of "maxR - rr" 32] by simp
  moreover have "0 < \<lceil>maxR - rr\<rceil>"
    using 2 by simp
  ultimately show ?case by simp
qed

definition multiCenterRipples :: pattern where
  "multiCenterRipples cv r k =
     (let centers = 2 + \<lfloor>val (r k) * 2\<rfloor>
      in case for_each [0..<nat centers]
                (\<lambda>c k. let cx = 120 + val (r k) * (cwidth cv - 240);
                            cy = 120 + val (r (k + 1)) * (cheight cv - 240);
                            maxR = min (cwidth cv) (cheight cv) / 3
                        in ripplesLoop c cx cy maxR 40 r (k + 2))
                (k + 1) of
           (pathss, k') \<Rightarrow> (concat pathss, k'))"

definition serpentineFill :: pattern where
  "serpentineFill cv r k =
     (let rows = 10;
          margin = 50;
          heightAvail = cheight cv - margin * 2
      in case for_each [0..<rows]
                (\<lambda>row k. let y = margin + (real row / (real rows - 1)) * heightAvail;
                              leftToRight = (row mod 2 = 0);
                              startX = margin;
                              endX = cwidth cv - margin;
                              steps = 80
                          in for_each [0..<Suc steps]
                               (\<lambda>i k. let t = real i / real steps;
                                           x = (if leftToRight then startX + t * (endX - startX)
                                                else endX - t * (endX - startX));
                                           amp = 10 + val (r k) * 8;
                                           offset = sin ((t + real row * 0.15) * pi * 2) * amp
                                       in (\<lparr>px = x, py = y + offset\<rparr>, k + 1))
                               k)
                k of
           (rowss, k') \<Rightarrow>
             ([\<lparr>rid = SerpentineId, points = concat rowss, width = 6 + val (r k') * 3\<rparr>], k' + 1))"

definition patterns :: "pattern list" where
  "patterns = [concentricCircles, spiralGarden, wavePatterns, mandala, zenLines,
               ellipticalRings, doubleSpiral, bambooGrove, multiCenterRipples, serpentineFill]"

definition generateZenPattern :: pattern where
  "generateZenPattern cv r k =
     (let selectedPattern = patterns ! nat \<lfloor>val (r k) * real (length patterns)\<rfloor>
      in selectedPattern cv r (k + 1))"

section \<open>The hook: undo stack and event handlers\<close>

definition saveState :: "hook \<Rightarrow> hook" where
  "saveState s =
     s\<lparr>undoStack :=
         slice_last 20
           (undoStack s @ [\<lparr>rakePaths = rakePaths s, placedObjects = placedObjects s\<rparr>])\<rparr>"

text \<open>
  \<open>Math.sqrt(Math.pow(point.x - lastPoint.x, 2) + Math.pow(point.y - lastPoint.y, 2))\<close>,
  every operation rounded.
\<close>

definition distance :: "Point \<Rightarrow> Point \<Rightarrow> real" where
  "distance point lastPoint =
     fl (sqrt (fl (fl ((fl (px point - px lastPoint))\<^sup>2) + fl ((fl (py point - py lastPoint))\<^sup>2))))"

text \<open>
  The body shared by \<open>handleMouseDown\<close> and \<open>handleTouchStart\<close> once the point is known.
  The new path object lives in \<open>currentPathRef\<close> only; its points array is a fresh array
  of the store.
\<close>

definition pointerDown :: "props \<Rightarrow> env \<Rightarrow> Point \<Rightarrow> hook \<Rightarrow> hook" where
  "pointerDown p e point s =
     (case tool p of
        Rake \<Rightarrow>
          (let s1 = saveState s;
               a = nxt s1;
               newPath = \<lparr>rid = StampId (clock e 0), points = a, width = 8 + val (rnd e 0) * 4\<rparr>
           in s1\<lparr>isDrawing := True,
                 heap := (heap s1)(a := [point]),
                 nxt := a + 1,
                 currentPathRef := Some newPath,
                 lastPointRef := Some point\<rparr>)
      | Place \<Rightarrow>
          (let s1 = saveState s;
               newObject = \<lparr>oid = ObjStampId (clock e 0),
                            otype = selectedObject p,
                            ox = px point,
                            oy = py point,
                            rotation = (val (rnd e 0) - 0.5) * 0.4,
                            oscale = 0.8 + val (rnd e 1) * 0.4\<rparr>
           in s1\<lparr>placedObjects := placedObjects s1 @ [newObject]\<rparr>))"

definition handleMouseDown :: "props \<Rightarrow> env \<Rightarrow> Point \<Rightarrow> hook \<Rightarrow> hook" where
  "handleMouseDown p e point s =
     (case canvasRef p of
        None \<Rightarrow> s
      | Some cv \<Rightarrow> pointerDown p e point s)"

definition handleTouchStart :: "props \<Rightarrow> env \<Rightarrow> Point list \<Rightarrow> hook \<Rightarrow> hook" where
  "handleTouchStart p e touches s =
     (case canvasRef p of
        None \<Rightarrow> s
      | Some cv \<Rightarrow>
          (case touches of
             [] \<Rightarrow> s
           | touch # rest \<Rightarrow> pointerDown p e touch s))"

text \<open>
  The body shared by \<open>handleMouseMove\<close> and \<open>handleTouchMove\<close> after their guards: the
  point is pushed onto the points array of the current path, and the updater given to
  \<open>setRakePaths\<close> (here \<open>updateCurrentPath\<close>) puts a shallow copy of the current path
  object (same points array) in the place of the first entry of the same id in
  \<open>rakePaths\<close>, or appends it when there is none.
\<close>

definition updateCurrentPath :: "addr RakePath \<Rightarrow> addr RakePath list \<Rightarrow> addr RakePath list" where
  "updateCurrentPath current prev =
     (let index = findIndex (\<lambda>q. rid q = rid current) prev
      in if index \<ge> 0 then prev[nat index := current] else prev @ [current])"

definition pointerMove :: "Point \<Rightarrow> hook \<Rightarrow> hook" where
  "pointerMove point s =
     (case lastPointRef s of
        None \<Rightarrow> s
      | Some lastPoint \<Rightarrow>
          (if distance point lastPoint > 3 then
             (case currentPathRef s of
                None \<Rightarrow> s
              | Some current \<Rightarrow>
                  s\<lparr>heap := (heap s)(points current := heap s (points current) @ [point]),
                    lastPointRef := Some point,
                    rakePaths := updateCurrentPath current (rakePaths s)\<rparr>)
           else s))"

definition handleMouseMove :: "props \<Rightarrow> Point \<Rightarrow> hook \<Rightarrow> hook" where
  "handleMouseMove p point s =
     (if \<not> isDrawing s \<or> tool p \<noteq> Rake \<or> currentPathRef s = None then s
      else (case canvasRef p of
              None \<Rightarrow> s
            | Some cv \<Rightarrow> pointerMove point s))"

definition handleTouchMove :: "props \<Rightarrow> Point list \<Rightarrow> hook \<Rightarrow> hook" where
  "handleTouchMove p touches s =
     (if \<not> isDrawing s \<or> tool p \<noteq> Rake \<or> currentPathRef s = None \<or> touches = [] then s
      else (case canvasRef p of
              None \<Rightarrow> s
            | Some cv \<Rightarrow> pointerMove (hd touches) s))"

definition handleMouseUp :: "hook \<Rightarrow> hook" where
  "handleMouseUp s =
     (if isDrawing s then s\<lparr>isDrawing := False, currentPathRef := None, lastPointRef := None\<rparr>
      else s)"

definition handleTouchEnd :: "hook \<Rightarrow> hook" where
  "handleTouchEnd s =
     (if isDrawing s then s\<lparr>isDrawing := False, currentPathRef := None, lastPointRef := None\<rparr>
      else s)"

definition clearGarden :: "hook \<Rightarrow> hook" where
  "clearGarden s = (saveState s)\<lparr>rakePaths := [], placedObjects := []\<rparr>"

definition undo :: "hook \<Rightarrow> hook" where
  "undo s =
     (if length (undoStack s) > 0 then
        (let lastState = undoStack s ! (length (undoStack s) - 1)
         in s\<lparr>rakePaths := rakePaths lastState,
              placedObjects := placedObjects lastState,
              undoStack := take (length (undoStack s) - 1) (undoStack s)\<rparr>)
      else s)"

section \<open>Animated pattern generation\<close>

text \<open>
  One round of the inner loop of \<open>generatePattern\<close> pushes the next point onto the points
  array of \<open>animatedPath\<close> and replaces the entry of the same id in \<open>rakePaths\<close> by a
  shallow copy; then the call pauses for 20 ms.
\<close>

definition animateStep :: "Point list RakePath \<Rightarrow> addr \<Rightarrow> hook \<Rightarrow> Point \<Rightarrow> hook" where
  "animateStep path a s point =
     s\<lparr>heap := (heap s)(a := heap s a @ [point]),
       rakePaths := filter (\<lambda>q. rid q \<noteq> rid path) (rakePaths s)
                    @ [\<lparr>rid = rid path, points = a, width = width path\<rparr>]\<rparr>"

definition objectTypes :: "GardenObject list" where
  "objectTypes = [Stone, Bonsai, Lantern]"

definition autoObject :: "canvas \<Rightarrow> env \<Rightarrow> nat \<Rightarrow> nat \<Rightarrow> PlacedObject" where
  "autoObject cv e k i =
     \<lparr>oid = AutoId (clock e i) i,
      otype = objectTypes ! nat \<lfloor>val (rnd e k) * real (length objectTypes)\<rfloor>,
      ox = 100 + val (rnd e (k + 1)) * (cwidth cv - 200),
      oy = 100 + val (rnd e (k + 2)) * (cheight cv - 200),
      rotation = (val (rnd e (k + 3)) - 0.5) * 0.4,
      oscale = 0.8 + val (rnd e (k + 4)) * 0.4\<rparr>"

text \<open>
  After the loop over the paths: with \<open>Math.random() > 0.3\<close> the call draws
  \<open>objectCount\<close> and pauses for 500 ms before its first object; otherwise it is over.
\<close>

definition startObjects :: "canvas \<Rightarrow> env \<Rightarrow> nat \<Rightarrow> task option" where
  "startObjects cv e k =
     (if val (rnd e k) > 0.3 then
        (let objectCount = 1 + \<lfloor>val (rnd e (k + 1)) * 3\<rfloor>
         in if 0 < objectCount then Some (Placing cv e (k + 2) 0 (nat objectCount)) else None)
      else None)"

text \<open>
  The loop over the paths, entered with the paths still to be drawn, up to the next
  pause: a fresh empty points array for \<open>animatedPath\<close>, then the first point of the path
  and a pause; a path without points is passed over; when no path is left the objects
  follow.
\<close>

fun nextPath ::
  "canvas \<Rightarrow> env \<Rightarrow> nat \<Rightarrow> Point list RakePath list \<Rightarrow> hook \<Rightarrow> hook \<times> task option" where
  "nextPath cv e k [] s = (s, startObjects cv e k)"
| "nextPath cv e k (path # paths) s =
     (let a = nxt s;
          s1 = s\<lparr>heap := (heap s)(a := []), nxt := a + 1\<rparr>
      in case points path of
           [] \<Rightarrow> nextPath cv e k paths s1
         | point # rest \<Rightarrow>
             (animateStep path a s1 point, Some (Animating cv e k path a rest paths)))"

text \<open>
  What a paused call does when its timer fires, up to its next pause: the next point of
  the path it is drawing, or the next path, or the next object.  The result is the new
  state and what is left of the call, if anything.
\<close>

fun resume :: "task \<Rightarrow> hook \<Rightarrow> hook \<times> task option" where
  "resume (Animating cv e k path a (point # rest) paths) s =
     (animateStep path a s point, Some (Animating cv e k path a rest paths))"
| "resume (Animating cv e k path a [] paths) s = nextPath cv e k paths s"
| "resume (Placing cv e k i objectCount) s =
     (s\<lparr>placedObjects := placedObjects s @ [autoObject cv e (k + 5 * i) i]\<rparr>,
      if i + 1 < objectCount then Some (Placing cv e k (i + 1) objectCount) else None)"

text \<open>
  The call of \<open>generatePattern\<close>, up to its first pause.  The paused call joins the calls
  in flight; the hook itself does nothing to keep a second call from starting.
\<close>

definition generatePattern :: "props \<Rightarrow> env \<Rightarrow> hook \<Rightarrow> hook" where
  "generatePattern p e s =
     (case canvasRef p of
        None \<Rightarrow> s
      | Some cv \<Rightarrow>
          (let s1 = saveState s;
               s2 = s1\<lparr>rakePaths := [], placedObjects := []\<rparr>
           in case generateZenPattern cv (rnd e) 0 of
                (newPaths, k) \<Rightarrow>
                  (case nextPath cv e k newPaths s2 of
                     (s3, None) \<Rightarrow> s3
                   | (s3, Some t) \<Rightarrow> s3\<lparr>tasks := tasks s3 @ [t]\<rparr>)))"

text \<open>The timer of the n-th call in flight fires.\<close>

definition tick :: "nat \<Rightarrow> hook \<Rightarrow> hook" where
  "tick n s =
     (if n < length (tasks s) then
        (case resume (tasks s ! n) s of
           (s1, None) \<Rightarrow> s1\<lparr>tasks := take n (tasks s1) @ drop (Suc n) (tasks s1)\<rparr>
         | (s1, Some t) \<Rightarrow> s1\<lparr>tasks := (tasks s1)[n := t]\<rparr>)
      else s)"

section \<open>Events and runs\<close>

datatype event =
    MouseDown props env Point
  | MouseMove props Point
  | MouseUp
  | TouchStart props env "Point list"
  | TouchMove props "Point list"
  | TouchEnd
  | ClearGarden
  | Undo
  | GeneratePattern props env
  | Tick nat

fun step :: "hook \<Rightarrow> event \<Rightarrow> hook" where
  "step s (MouseDown p e point) = handleMouseDown p e point s"
| "step s (MouseMove p point) = handleMouseMove p point s"
| "step s MouseUp = handleMouseUp s"
| "step s (TouchStart p e touches) = handleTouchStart p e touches s"
| "step s (TouchMove p touches) = handleTouchMove p touches s"
| "step s TouchEnd = handleTouchEnd s"
| "step s ClearGarden = clearGarden s"
| "step s Undo = undo s"
| "step s (GeneratePattern p e) = generatePattern p e s"
| "step s (Tick n) = tick n s"

definition run :: "hook \<Rightarrow> event list \<Rightarrow> hook" where
  "run s evs = foldl step s evs"

text \<open>
  What an observer sees: every path with the contents of its points array, for the scene
  and for every snapshot on the undo stack.
\<close>

definition deref :: "(addr \<Rightarrow> Point list) \<Rightarrow> addr RakePath \<Rightarrow> Point list RakePath" where
  "deref h q = \<lparr>rid = rid q, points = h (points q), width = width q\<rparr>"

definition view :: "(addr \<Rightarrow> Point list) \<Rightarrow> CanvasState \<Rightarrow> Point list RakePath list \<times> PlacedObject list" where
  "view h c = (map (deref h) (rakePaths c), placedObjects c)"

definition scene :: "hook \<Rightarrow> Point list RakePath list \<times> PlacedObject list" where
  "scene s = (map (deref (heap s)) (rakePaths s), placedObjects s)"

definition history :: "hook \<Rightarrow> (Point list RakePath list \<times> PlacedObject list) list" where
  "history s = map (view (heap s)) (undoStack s)"

text \<open>
  \<open>drawRakeGrooves\<close> strokes a path only when it has at least two points; the function
  returns the paths that are stroked, in drawing order.
\<close>

definition drawRakeGrooves :: "hook \<Rightarrow> Point list RakePath list" where
  "drawRakeGrooves s = filter (\<lambda>path. \<not> length (points path) < 2) (fst (scene s))"

section \<open>Logical actions\<close>

text \<open>
  The number of pauses a paused call still has before it ends, the one it is in included,
  when nothing disturbs it: one after every point still to be drawn, and one before every
  object still to be placed.
\<close>

fun remaining :: "task \<Rightarrow> nat" where
  "remaining (Animating cv e k path a pts paths) =
     Suc (length pts) + length (concat (map points paths))
     + (if val (rnd e k) > 0.3 then nat (1 + \<lfloor>val (rnd e (k + 1)) * 3\<rfloor>) else 0)"
| "remaining (Placing cv e k i objectCount) = Suc (objectCount - Suc i)"

text \<open>
  The hook with one call of \<open>generatePattern\<close> and no other: the state that call has
  reached, and what is left of it as the only paused call.
\<close>

definition in_flight :: "hook \<times> task option \<Rightarrow> hook" where
  "in_flight r = (fst r)\<lparr>tasks := (case snd r of None \<Rightarrow> [] | Some t \<Rightarrow> [t])\<rparr>"

text \<open>
  The number of pauses of a call of \<open>generatePattern\<close> that nothing disturbs: one after
  every point of every path, and one before every object.
\<close>

definition awaits :: "canvas \<Rightarrow> env \<Rightarrow> nat" where
  "awaits cv e =
     (case generateZenPattern cv (rnd e) 0 of
        (newPaths, k) \<Rightarrow>
          length (concat (map points newPaths))
          + (if val (rnd e k) > 0.3 then nat (1 + \<lfloor>val (rnd e (k + 1)) * 3\<rfloor>) else 0))"

text \<open>
  A logical action of the user, as a sequence of events with nothing else in between: a
  rake gesture (down, moves, up) by mouse or by touch, a placement, a reset, a pattern
  generation from its call to its end (the call, then its timer at every pause; it is
  call 0 when no other call is in flight).  The canvas is mounted in all of them, and a
  touch event carries at least one touch.
\<close>

datatype mutation =
    RakeMouse canvas GardenObject env Point "Point list"
  | RakeTouch canvas GardenObject env Point "Point list" "(Point \<times> Point list) list"
  | PlaceMouse canvas GardenObject env Point
  | PlaceTouch canvas GardenObject env Point "Point list"
  | Reset
  | Generate canvas Tool GardenObject env

fun events_of :: "mutation \<Rightarrow> event list" where
  "events_of (RakeMouse cv sel e p0 pts) =
     (let p = \<lparr>canvasRef = Some cv, tool = Rake, selectedObject = sel\<rparr>
      in MouseDown p e p0 # map (MouseMove p) pts @ [MouseUp])"
| "events_of (RakeTouch cv sel e t0 rest moves) =
     (let p = \<lparr>canvasRef = Some cv, tool = Rake, selectedObject = sel\<rparr>
      in TouchStart p e (t0 # rest) # map (\<lambda>(t, ts). TouchMove p (t # ts)) moves @ [TouchEnd])"
| "events_of (PlaceMouse cv sel e point) =
     [MouseDown \<lparr>canvasRef = Some cv, tool = Place, selectedObject = sel\<rparr> e point, MouseUp]"
| "events_of (PlaceTouch cv sel e t0 rest) =
     [TouchStart \<lparr>canvasRef = Some cv, tool = Place, selectedObject = sel\<rparr> e (t0 # rest), TouchEnd]"
| "events_of Reset = [ClearGarden]"
| "events_of (Generate cv tl0 sel e) =
     GeneratePattern \<lparr>canvasRef = Some cv, tool = tl0, selectedObject = sel\<rparr> e
     # replicate (awaits cv e) (Tick 0)"

definition mutate :: "hook \<Rightarrow> mutation \<Rightarrow> hook" where
  "mutate s m = run s (events_of m)"

definition mutations :: "hook \<Rightarrow> mutation list \<Rightarrow> hook" where
  "mutations s ms = foldl mutate s ms"

text \<open>
  The body of \<open>generatePattern\<close> read as one piece, the way it runs when nothing comes in
  between its pauses: the loop over the paths with the inner loop over the points of each
  path, then the loop over the objects.
\<close>

definition animatePath :: "hook \<Rightarrow> Point list RakePath \<Rightarrow> hook" where
  "animatePath s path =
     (let a = nxt s;
          s1 = s\<lparr>heap := (heap s)(a := []), nxt := a + 1\<rparr>
      in foldl (animateStep path a) s1 (points path))"

definition addObjects :: "canvas \<Rightarrow> env \<Rightarrow> nat \<Rightarrow> hook \<Rightarrow> hook" where
  "addObjects cv e k s =
     (if val (rnd e k) > 0.3 then
        (let objectCount = 1 + \<lfloor>val (rnd e (k + 1)) * 3\<rfloor>
         in foldl (\<lambda>s i. s\<lparr>placedObjects := placedObjects s @ [autoObject cv e (k + 2 + 5 * i) i]\<rparr>)
                  s [0..<nat objectCount])
      else s)"

definition generatePatternWhole :: "props \<Rightarrow> env \<Rightarrow> hook \<Rightarrow> hook" where
  "generatePatternWhole p e s =
     (case canvasRef p of
        None \<Rightarrow> s
      | Some cv \<Rightarrow>
          (let s1 = saveState s;
               s2 = s1\<lparr>rakePaths := [], placedObjects := []\<rparr>
           in case generateZenPattern cv (rnd e) 0 of
                (newPaths, k) \<Rightarrow> addObjects cv e k (foldl animatePath s2 newPaths)))"

text \<open>
  The debounce rule in the words of the specification, with the distance as the code
  computes it: walking through the moved-to points in call order, a point is recorded if
  and only if its computed distance from the last recorded point is more than 3.
\<close>

fun debounce :: "Point \<Rightarrow> Point list \<Rightarrow> Point list" where
  "debounce lastPoint [] = []"
| "debounce lastPoint (point # rest) =
     (if distance point lastPoint > 3 then point # debounce point rest
      else debounce lastPoint rest)"

text \<open>Every address held by the hook, a paused call included, has been allocated.\<close>

fun task_allocated :: "addr \<Rightarrow> task \<Rightarrow> bool" where
  "task_allocated n (Animating cv e k path a pts paths) = (a < n)"
| "task_allocated n (Placing cv e k i objectCount) = True"

definition allocated :: "hook \<Rightarrow> bool" where
  "allocated s \<longleftrightarrow>
     (\<forall>q \<in> set (rakePaths s). points q < nxt s) \<and>
     (\<forall>c \<in> set (undoStack s). \<forall>q \<in> set (rakePaths c). points q < nxt s) \<and>
     (\<forall>q. currentPathRef s = Some q \<longrightarrow> points q < nxt s) \<and>
     (\<forall>t \<in> set (tasks s). task_allocated (nxt s) t)"

text \<open>Fixed inputs for concrete runs: the 800 by 600 canvas of the component, a clock
  that stands still, a random source that always returns 0.\<close>

definition canvas800 :: canvas where
  "canvas800 = \<lparr>cwidth = 800, cheight = 600\<rparr>"

definition env0 :: env where
  "env0 = \<lparr>clock = (\<lambda>k. 0), rnd = (\<lambda>k. Abs_rand 0)\<rparr>"

definition rakeProps :: props where
  "rakeProps = \<lparr>canvasRef = Some canvas800, tool = Rake, selectedObject = Stone\<rparr>"

definition point_at :: "real \<Rightarrow> real \<Rightarrow> Point" where
  "point_at a b = \<lparr>px = a, py = b\<rparr>"

text \<open>The events that change the scene: a pointer or touch going down on the mounted
  canvas, a reset, a pattern generation on the mounted canvas.\<close>

fun mutating :: "event \<Rightarrow> bool" where
  "mutating (MouseDown p e point) = (canvasRef p \<noteq> None)"
| "mutating (TouchStart p e touches) = (canvasRef p \<noteq> None \<and> touches \<noteq> [])"
| "mutating ClearGarden = True"
| "mutating (GeneratePattern p e) = (canvasRef p \<noteq> None)"
| "mutating ev = False"

text \<open>A layout is drawable when it has at least one path and each of its paths has at
  least two points.\<close>

definition drawable :: "Point list RakePath list \<Rightarrow> bool" where
  "drawable ps \<longleftrightarrow> ps \<noteq> [] \<and> (\<forall>p \<in> set ps. 2 \<le> length (points p))"

section \<open>The light theme\<close>

text \<open>
  The hook of the light "wood frame" theme, embedded from its own source.  It has two
  more references than the hook of the dark theme, the cached background canvas and the
  size it was painted for, which only its \<open>render\<close> writes.  The names of the dark theme
  are kept, with the suffix \<open>_wood\<close>.
\<close>

record hook_wood = hook +
  backgroundCacheRef :: "canvas option"
  backgroundSizeRef :: "(real \<times> real) option"

definition init_wood :: hook_wood where
  "init_wood = \<lparr>rakePaths = [], placedObjects = [], isDrawing = False, undoStack = [],
                currentPathRef = None, lastPointRef = None, heap = (\<lambda>a. []), nxt = 0,
                tasks = [], backgroundCacheRef = None, backgroundSizeRef = None\<rparr>"

definition generateSpiralPattern_wood :: "real \<Rightarrow> real \<Rightarrow> real \<Rightarrow> real \<Rightarrow> Point list" where
  "generateSpiralPattern_wood centerX centerY radius turns =
     (let totalPoints = fl (turns * 50) in
      map (\<lambda>i. let angle = (real_of_int i / totalPoints) * turns * 2 * pi;
                    currentRadius = (real_of_int i / totalPoints) * radius
                in \<lparr>px = centerX + cos angle * currentRadius,
                    py = centerY + sin angle * currentRadius\<rparr>)
          [0..\<lfloor>totalPoints\<rfloor>])"

definition generateWavePattern_wood :: "real \<Rightarrow> real \<Rightarrow> real \<Rightarrow> real \<Rightarrow> real \<Rightarrow> Point list" where
  "generateWavePattern_wood startX startY endX amplitude frequency =
     (let distance = fl (endX - startX);
          steps = \<lfloor>fl (distance / 3)\<rfloor>
      in map (\<lambda>i. let progress = real_of_int i / real_of_int steps
                   in \<lparr>px = startX + progress * distance,
                       py = startY + sin (progress * frequency * pi * 2) * amplitude\<rparr>)
             [0..steps])"

definition generateCirclePattern_wood :: "real \<Rightarrow> real \<Rightarrow> real \<Rightarrow> Point list" where
  "generateCirclePattern_wood centerX centerY radius =
     (let totalPoints = \<lfloor>radius * 0.5\<rfloor> in
      map (\<lambda>i. let angle = (real_of_int i / real_of_int totalPoints) * 2 * pi
                in \<lparr>px = centerX + cos angle * radius,
                    py = centerY + sin angle * radius\<rparr>)
          [0..totalPoints])"

definition generateEllipsePattern_wood :: "real \<Rightarrow> real \<Rightarrow> real \<Rightarrow> real \<Rightarrow> Point list" where
  "generateEllipsePattern_wood centerX centerY radiusX radiusY =
     (let radicand = fl (fl (fl (3 * radiusX) + radiusY) * fl (radiusX + fl (3 * radiusY)))
      in if radicand < 0 then []
         else
           (let approxPerimeter =
                  fl (fl pi * fl (fl (3 * fl (radiusX + radiusY)) - fl (sqrt radicand)));
                totalPoints = max 24 \<lfloor>fl (approxPerimeter * fl 0.3)\<rfloor>
            in map (\<lambda>i. let angle = (real_of_int i / real_of_int totalPoints) * 2 * pi
                         in \<lparr>px = centerX + cos angle * radiusX,
                             py = centerY + sin angle * radiusY\<rparr>)
                   [0..totalPoints]))"

function circlesLoop_wood ::
  "real \<Rightarrow> real \<Rightarrow> real \<Rightarrow> real \<Rightarrow> (nat \<Rightarrow> rand) \<Rightarrow> nat \<Rightarrow> Point list RakePath list \<times> nat" where
  "circlesLoop_wood centerX centerY bound radius r k =
     (if radius < bound then
        (let pts = generateCirclePattern_wood centerX centerY radius;
             p = \<lparr>rid = CircleId radius, points = pts, width = 6 + val (r k) * 4\<rparr>
         in case circlesLoop_wood centerX centerY bound (radius + 40) r (k + 1) of
              (ps, k') \<Rightarrow> (p # ps, k'))
      else ([], k))"
  by pat_completeness auto
termination
  by (relation "measure (\<lambda>(centerX, centerY, bound, radius, r, k). nat \<lceil>bound - radius\<rceil>)")
     (auto, linarith)

definition concentricCircles_wood :: pattern where
  "concentricCircles_wood cv r k =
     (let centerX = cwidth cv / 2;
          centerY = cheight cv / 2
      in circlesLoop_wood centerX centerY (min (cwidth cv) (cheight cv) / 2 - 50) 50 r k)"

definition spiralGarden_wood :: pattern where
  "spiralGarden_wood cv r k =
     (let centerX = cwidth cv / 2;
          centerY = cheight cv / 2;
          maxRadius = min (cwidth cv) (cheight cv) / 2 - 50
      in ([\<lparr>rid = SpiralMainId,
             points = generateSpiralPattern_wood centerX centerY maxRadius 4,
             width = 8 + val (r k) * 4\<rparr>], k + 1))"

definition wavePatterns_wood :: pattern where
  "wavePatterns_wood cv r k =
     (let waveCount = 5;
          spacing = cheight cv / (real waveCount + 1)
      in for_each [1..<Suc waveCount]
           (\<lambda>i k. let y = spacing * real i;
                       amplitude = 30 + val (r k) * 20;
                       frequency = 2 + val (r (k + 1)) * 2;
                       pts = generateWavePattern_wood 50 y (cwidth cv - 50) amplitude frequency
                   in (\<lparr>rid = WaveId i, points = pts, width = 6 + val (r (k + 2)) * 4\<rparr>, k + 3))
           k)"

definition petalPoints_wood :: "real \<Rightarrow> real \<Rightarrow> real \<Rightarrow> Point list" where
  "petalPoints_wood centerX centerY angle =
     (let startX = centerX + cos angle * 50;
          startY = centerY + sin angle * 50;
          endX = centerX + cos angle * 200;
          endY = centerY + sin angle * 200;
          steps = 30
      in map (\<lambda>j. let t = real j / real steps;
                       curveOffset = sin (t * pi) * 30;
                       perpAngle = angle + pi / 2
                   in \<lparr>px = startX + (endX - startX) * t + cos perpAngle * curveOffset,
                       py = startY + (endY - startY) * t + sin perpAngle * curveOffset\<rparr>)
             [0..<Suc steps])"

definition mandala_wood :: pattern where
  "mandala_wood cv r k =
     (let centerX = cwidth cv / 2;
          centerY = cheight cv / 2;
          petals = 8
      in case for_each [0..<petals]
                (\<lambda>i k. let angle = (real i / real petals) * 2 * pi
                        in (\<lparr>rid = PetalId i, points = petalPoints_wood centerX centerY angle,
                             width = 5 + val (r k) * 3\<rparr>, k + 1))
                k of
           (paths, k') \<Rightarrow>
             (paths @ [\<lparr>rid = CenterCircleId,
                        points = generateCirclePattern_wood centerX centerY 30,
                        width = 8\<rparr>], k'))"

definition zenLines_wood :: pattern where
  "zenLines_wood cv r k =
     (let lineCount = 12;
          spacing = cwidth cv / (real lineCount + 1)
      in for_each [1..<Suc lineCount]
           (\<lambda>i k. let x = spacing * real i;
                       steps = 40
                   in case for_each [0..<Suc steps]
                             (\<lambda>j k. let t = real j / real steps;
                                         y = 50 + t * (cheight cv - 100);
                                         waveOffset = sin (t * pi * 3) * (15 + val (r k) * 10)
                                     in (\<lparr>px = x + waveOffset, py = y\<rparr>, k + 1))
                             k of
                        (pts, k') \<Rightarrow>
                          (\<lparr>rid = ZenLineId i, points = pts, width = 6 + val (r k') * 4\<rparr>, k' + 1))
           k)"

function ellipsesLoop_wood ::
  "real \<Rightarrow> real \<Rightarrow> real \<Rightarrow> real \<Rightarrow> real \<Rightarrow> (nat \<Rightarrow> rand) \<Rightarrow> nat \<Rightarrow> Point list RakePath list \<times> nat" where
  "ellipsesLoop_wood centerX centerY maxRadiusX maxRadiusY rr r k =
     (if rr < maxRadiusX then
        (let rx = rr;
             ry = max 24 ((rr / maxRadiusX) * maxRadiusY);
             pts = generateEllipsePattern_wood centerX centerY rx ry;
             p = \<lparr>rid = EllipseId (toFixed0 rr), points = pts, width = 6 + val (r k) * 3\<rparr>
         in case ellipsesLoop_wood centerX centerY maxRadiusX maxRadiusY (rr + 36) r (k + 1) of
              (ps, k') \<Rightarrow> (p # ps, k'))
      else ([], k))"
  by pat_completeness auto
termination
  by (relation "measure (\<lambda>(centerX, centerY, maxRadiusX, maxRadiusY, rr, r, k). nat \<lceil>maxRadiusX - rr\<rceil>)")
     (auto, linarith)

definition ellipticalRings_wood :: pattern where
  "ellipticalRings_wood cv r k =
     (let centerX = cwidth cv / 2;
          centerY = cheight cv / 2;
          maxRadiusX = min (cwidth cv) (cheight cv) / 2 - 60;
          maxRadiusY = maxRadiusX * (0.6 + val (r k) * 0.3)
      in ellipsesLoop_wood centerX centerY maxRadiusX maxRadiusY 40 r (k + 1))"

definition doubleSpiral_wood :: pattern where
  "doubleSpiral_wood cv r k =
     (let centerX = cwidth cv / 2;
          centerY = cheight cv / 2;
          maxRadius = min (cwidth cv) (cheight cv) / 2 - 50;
          main = \<lparr>rid = DoubleSpiralAId,
                  points = generateSpiralPattern_wood centerX centerY maxRadius 3.5,
                  width = 7 + val (r k) * 3\<rparr>;
          offsetAngle = pi;
          pointsB = map (\<lambda>p. let dx = px p - centerX;
                                  dy = py p - centerY;
                                  angle = atan2 dy dx + offsetAngle;
                                  radius = sqrt (dx\<^sup>2 + dy\<^sup>2)
                              in \<lparr>px = centerX + cos angle * radius,
                                  py = centerY + sin angle * radius\<rparr>)
                        (points main);
          other = \<lparr>rid = DoubleSpiralBId, points = pointsB, width = 7 + val (r (k + 1)) * 3\<rparr>
      in ([main, other], k + 2))"

definition bambooGrove_wood :: pattern where
  "bambooGrove_wood cv r k =
     (let stalks = 10 + \<lfloor>val (r k) * 6\<rfloor>;
          margin = 60
      in for_each [0..<nat stalks]
           (\<lambda>i k. let x = margin + (real i + 0.5) * ((cwidth cv - margin * 2) / real_of_int stalks);
                       sway = 18 + val (r k) * 14;
                       freq = 2 + val (r (k + 1)) * 2.5;
                       steps = 48;
                       pts = map (\<lambda>j. let t = real j / real steps;
                                          y = 50 + t * (cheight cv - 100);
                                          offset = sin (t * pi * freq) * sway
                                      in \<lparr>px = x + offset, py = y\<rparr>)
                                 [0..<Suc steps]
                   in (\<lparr>rid = BambooId i, points = pts, width = 5 + val (r (k + 2)) * 3\<rparr>, k + 3))
           (k + 1))"

function ripplesLoop_wood ::
  "nat \<Rightarrow> real \<Rightarrow> real \<Rightarrow> real \<Rightarrow> real \<Rightarrow> (nat \<Rightarrow> rand) \<Rightarrow> nat \<Rightarrow> Point list RakePath list \<times> nat" where
  "ripplesLoop_wood c cx cy maxR rr r k =
     (if rr < maxR then
        (let pts = generateCirclePattern_wood cx cy rr;
             p = \<lparr>rid = RippleId c (toFixed0 rr), points = pts, width = 5 + val (r k) * 3\<rparr>
         in case ripplesLoop_wood c cx cy maxR (rr + (32 + val (r (k + 1)) * 12)) r (k + 2) of
              (ps, k') \<Rightarrow> (p # ps, k'))
      else ([], k))"
  by pat_completeness auto
termination
proof (relation "measure (\<lambda>(c, cx, cy, maxR, rr, r, k). nat \<lceil>maxR - rr\<rceil>)", goal_cases)
  case 1
  show ?case by simp
next
  case (2 c cx cy maxR rr r k)
  have "0 \<le> val (r (k + 1))"
    using Rep_rand [of "r (k + 1)"] by simp
  then have "\<lceil>maxR - (rr + (32 + val (r (k + 1)) * 12))\<rceil> \<le> \<lceil>maxR - rr - 32\<rceil>"
    by (intro ceiling_mono) simp
  moreover have "\<lceil>maxR - rr - 32\<rceil> = \<lceil>maxR - rr\<rceil> - 32"
    using ceiling_diff_of_int [of "maxR - rr" 32] by simp
  moreover have "0 < \<lceil>maxR - rr\<rceil>"
    using 2 by simp
  ultimately show ?case by simp
qed

definition multiCenterRipples_wood :: pattern where
  "multiCenterRipples_wood cv r k =
     (let centers = 2 + \<lfloor>val (r k) * 2\<rfloor>
      in case for_each [0..<nat centers]
                (\<lambda>c k. let cx = 120 + val (r k) * (cwidth cv - 240);
                            cy = 120 + val (r (k + 1)) * (cheight cv - 240);
                            maxR = min (cwidth cv) (cheight cv) / 3
                        in ripplesLoop_wood c cx cy maxR 40 r (k + 2))
                (k + 1) of
           (pathss, k') \<Rightarrow> (concat pathss, k'))"

definition serpentineFill_wood :: pattern where
  "serpentineFill_wood cv r k =
     (let rows = 10;
          margin = 50;
          heightAvail = cheight cv - margin * 2
      in case for_each [0..<rows]
                (\<lambda>row k. let y = margin + (real row / (real rows - 1)) * heightAvail;
                              leftToRight = (row mod 2 = 0);
                              startX = margin;
                              endX = cwidth cv - margin;
                              steps = 80
                          in for_each [0..<Suc steps]
                               (\<lambda>i k. let t = real i / real steps;
                                           x = (if leftToRight then startX + t * (endX - startX)
                                                else endX - t * (endX - startX));
                                           amp = 10 + val (r k) * 8;
                                           offset = sin ((t + real row * 0.15) * pi * 2) * amp
                                       in (\<lparr>px = x, py = y + offset\<rparr>, k + 1))
                               k)
                k of
           (rowss, k') \<Rightarrow>
             ([\<lparr>rid = SerpentineId, points = concat rowss, width = 6 + val (r k') * 3\<rparr>], k' + 1))"

definition patterns_wood :: "pattern list" where
  "patterns_wood = [concentricCircles_wood, spiralGarden_wood, wavePatterns_wood, mandala_wood, zenLines_wood,
               ellipticalRings_wood, doubleSpiral_wood, bambooGrove_wood, multiCenterRipples_wood, serpentineFill_wood]"

definition generateZenPattern_wood :: pattern where
  "generateZenPattern_wood cv r k =
     (let selectedPattern = patterns_wood ! nat \<lfloor>val (r k) * real (length patterns_wood)\<rfloor>
      in selectedPattern cv r (k + 1))"

definition saveState_wood :: "hook_wood \<Rightarrow> hook_wood" where
  "saveState_wood s =
     s\<lparr>undoStack :=
         slice_last 20
           (undoStack s @ [\<lparr>rakePaths = rakePaths s, placedObjects = placedObjects s\<rparr>])\<rparr>"

definition pointerDown_wood :: "props \<Rightarrow> env \<Rightarrow> Point \<Rightarrow> hook_wood \<Rightarrow> hook_wood" where
  "pointerDown_wood p e point s =
     (case tool p of
        Rake \<Rightarrow>
          (let s1 = saveState_wood s;
               a = nxt s1;
               newPath = \<lparr>rid = StampId (clock e 0), points = a, width = 8 + val (rnd e 0) * 4\<rparr>
           in s1\<lparr>isDrawing := True,
                 heap := (heap s1)(a := [point]),
                 nxt := a + 1,
                 currentPathRef := Some newPath,
                 lastPointRef := Some point\<rparr>)
      | Place \<Rightarrow>
          (let s1 = saveState_wood s;
               newObject = \<lparr>oid = ObjStampId (clock e 0),
                            otype = selectedObject p,
                            ox = px point,
                            oy = py point,
                            rotation = (val (rnd e 0) - 0.5) * 0.4,
                            oscale = 0.8 + val (rnd e 1) * 0.4\<rparr>
           in s1\<lparr>placedObjects := placedObjects s1 @ [newObject]\<rparr>))"

definition handleMouseDown_wood :: "props \<Rightarrow> env \<Rightarrow> Point \<Rightarrow> hook_wood \<Rightarrow> hook_wood" where
  "handleMouseDown_wood p e point s =
     (case canvasRef p of
        None \<Rightarrow> s
      | Some cv \<Rightarrow> pointerDown_wood p e point s)"

definition handleTouchStart_wood :: "props \<Rightarrow> env \<Rightarrow> Point list \<Rightarrow> hook_wood \<Rightarrow> hook_wood" where
  "handleTouchStart_wood p e touches s =
     (case canvasRef p of
        None \<Rightarrow> s
      | Some cv \<Rightarrow>
          (case touches of
             [] \<Rightarrow> s
           | touch # rest \<Rightarrow> pointerDown_wood p e touch s))"

definition updateCurrentPath_wood :: "addr RakePath \<Rightarrow> addr RakePath list \<Rightarrow> addr RakePath list" where
  "updateCurrentPath_wood current prev =
     (let index = findIndex (\<lambda>q. rid q = rid current) prev
      in if index \<ge> 0 then prev[nat index := current] else prev @ [current])"

definition pointerMove_wood :: "Point \<Rightarrow> hook_wood \<Rightarrow> hook_wood" where
  "pointerMove_wood point s =
     (case lastPointRef s of
        None \<Rightarrow> s
      | Some lastPoint \<Rightarrow>
          (if distance point lastPoint > 3 then
             (case currentPathRef s of
                None \<Rightarrow> s
              | Some current \<Rightarrow>
                  s\<lparr>heap := (heap s)(points current := heap s (points current) @ [point]),
                    lastPointRef := Some point,
                    rakePaths := updateCurrentPath_wood current (rakePaths s)\<rparr>)
           else s))"

definition handleMouseMove_wood :: "props \<Rightarrow> Point \<Rightarrow> hook_wood \<Rightarrow> hook_wood" where
  "handleMouseMove_wood p point s =
     (if \<not> isDrawing s \<or> tool p \<noteq> Rake \<or> currentPathRef s = None then s
      else (case canvasRef p of
              None \<Rightarrow> s
            | Some cv \<Rightarrow> pointerMove_wood point s))"

definition handleTouchMove_wood :: "props \<Rightarrow> Point list \<Rightarrow> hook_wood \<Rightarrow> hook_wood" where
  "handleTouchMove_wood p touches s =
     (if \<not> isDrawing s \<or> tool p \<noteq> Rake \<or> currentPathRef s = None \<or> touches = [] then s
      else (case canvasRef p of
              None \<Rightarrow> s
            | Some cv \<Rightarrow> pointerMove_wood (hd touches) s))"

definition handleMouseUp_wood :: "hook_wood \<Rightarrow> hook_wood" where
  "handleMouseUp_wood s =
     (if isDrawing s then s\<lparr>isDrawing := False, currentPathRef := None, lastPointRef := None\<rparr>
      else s)"

definition handleTouchEnd_wood :: "hook_wood \<Rightarrow> hook_wood" where
  "handleTouchEnd_wood s =
     (if isDrawing s then s\<lparr>isDrawing := False, currentPathRef := None, lastPointRef := None\<rparr>
      else s)"

definition clearGarden_wood :: "hook_wood \<Rightarrow> hook_wood" where
  "clearGarden_wood s = (saveState_wood s)\<lparr>rakePaths := [], placedObjects := []\<rparr>"

definition undo_wood :: "hook_wood \<Rightarrow> hook_wood" where
  "undo_wood s =
     (if length (undoStack s) > 0 then
        (let lastState = undoStack s ! (length (undoStack s) - 1)
         in s\<lparr>rakePaths := rakePaths lastState,
              placedObjects := placedObjects lastState,
              undoStack := take (length (undoStack s) - 1) (undoStack s)\<rparr>)
      else s)"

definition animateStep_wood :: "Point list RakePath \<Rightarrow> addr \<Rightarrow> hook_wood \<Rightarrow> Point \<Rightarrow> hook_wood" where
  "animateStep_wood path a s point =
     s\<lparr>heap := (heap s)(a := heap s a @ [point]),
       rakePaths := filter (\<lambda>q. rid q \<noteq> rid path) (rakePaths s)
                    @ [\<lparr>rid = rid path, points = a, width = width path\<rparr>]\<rparr>"

definition objectTypes_wood :: "GardenObject list" where
  "objectTypes_wood = [Stone, Bonsai, Lantern]"

definition autoObject_wood :: "canvas \<Rightarrow> env \<Rightarrow> nat \<Rightarrow> nat \<Rightarrow> PlacedObject" where
  "autoObject_wood cv e k i =
     \<lparr>oid = AutoId (clock e i) i,
      otype = objectTypes_wood ! nat \<lfloor>val (rnd e k) * real (length objectTypes_wood)\<rfloor>,
      ox = 100 + val (rnd e (k + 1)) * (cwidth cv - 200),
      oy = 100 + val (rnd e (k + 2)) * (cheight cv - 200),
      rotation = (val (rnd e (k + 3)) - 0.5) * 0.4,
      oscale = 0.8 + val (rnd e (k + 4)) * 0.4\<rparr>"

definition startObjects_wood :: "canvas \<Rightarrow> env \<Rightarrow> nat \<Rightarrow> task option" where
  "startObjects_wood cv e k =
     (if val (rnd e k) > 0.3 then
        (let objectCount = 1 + \<lfloor>val (rnd e (k + 1)) * 3\<rfloor>
         in if 0 < objectCount then Some (Placing cv e (k + 2) 0 (nat objectCount)) else None)
      else None)"

fun nextPath_wood ::
  "canvas \<Rightarrow> env \<Rightarrow> nat \<Rightarrow> Point list RakePath list \<Rightarrow> hook_wood \<Rightarrow> hook_wood \<times> task option" where
  "nextPath_wood cv e k [] s = (s, startObjects_wood cv e k)"
| "nextPath_wood cv e k (path # paths) s =
     (let a = nxt s;
          s1 = s\<lparr>heap := (heap s)(a := []), nxt := a + 1\<rparr>
      in case points path of
           [] \<Rightarrow> nextPath_wood cv e k paths s1
         | point # rest \<Rightarrow>
             (animateStep_wood path a s1 point, Some (Animating cv e k path a rest paths)))"

fun resume_wood :: "task \<Rightarrow> hook_wood \<Rightarrow> hook_wood \<times> task option" where
  "resume_wood (Animating cv e k path a (point # rest) paths) s =
     (animateStep_wood path a s point, Some (Animating cv e k path a rest paths))"
| "resume_wood (Animating cv e k path a [] paths) s = nextPath_wood cv e k paths s"
| "resume_wood (Placing cv e k i objectCount) s =
     (s\<lparr>placedObjects := placedObjects s @ [autoObject_wood cv e (k + 5 * i) i]\<rparr>,
      if i + 1 < objectCount then Some (Placing cv e k (i + 1) objectCount) else None)"

definition generatePattern_wood :: "props \<Rightarrow> env \<Rightarrow> hook_wood \<Rightarrow> hook_wood" where
  "generatePattern_wood p e s =
     (case canvasRef p of
        None \<Rightarrow> s
      | Some cv \<Rightarrow>
          (let s1 = saveState_wood s;
               s2 = s1\<lparr>rakePaths := [], placedObjects := []\<rparr>
           in case generateZenPattern_wood cv (rnd e) 0 of
                (newPaths, k) \<Rightarrow>
                  (case nextPath_wood cv e k newPaths s2 of
                     (s3, None) \<Rightarrow> s3
                   | (s3, Some t) \<Rightarrow> s3\<lparr>tasks := tasks s3 @ [t]\<rparr>)))"

definition tick_wood :: "nat \<Rightarrow> hook_wood \<Rightarrow> hook_wood" where
  "tick_wood n s =
     (if n < length (tasks s) then
        (case resume_wood (tasks s ! n) s of
           (s1, None) \<Rightarrow> s1\<lparr>tasks := take n (tasks s1) @ drop (Suc n) (tasks s1)\<rparr>
         | (s1, Some t) \<Rightarrow> s1\<lparr>tasks := (tasks s1)[n := t]\<rparr>)
      else s)"

text \<open>
  \<open>getBackgroundCanvas\<close> repaints the cached background when there is none or when it
  was painted for another size.  \<open>render\<close> returns at once when the canvas is not mounted
  and when \<open>canvas.getContext('2d')\<close> gives no context, and asks for the background
  otherwise; whether there is a context comes with the render.  The texture itself is not
  modelled; the cache is the off-screen canvas of that size.
\<close>

definition getBackgroundCanvas_wood :: "real \<Rightarrow> real \<Rightarrow> hook_wood \<Rightarrow> hook_wood" where
  "getBackgroundCanvas_wood w h s =
     (let needsNew =
            (backgroundCacheRef s = None \<or>
             (case backgroundSizeRef s of
                None \<Rightarrow> True
              | Some (w0, h0) \<Rightarrow> w0 \<noteq> w \<or> h0 \<noteq> h))
      in if needsNew then
           s\<lparr>backgroundCacheRef := Some \<lparr>cwidth = w, cheight = h\<rparr>,
             backgroundSizeRef := Some (w, h)\<rparr>
         else s)"

definition render_wood :: "canvas option \<Rightarrow> bool \<Rightarrow> hook_wood \<Rightarrow> hook_wood" where
  "render_wood cref ctx s =
     (case cref of
        None \<Rightarrow> s
      | Some cv \<Rightarrow>
          if \<not> ctx then s
          else getBackgroundCanvas_wood (cwidth cv) (cheight cv) s)"

text \<open>
  What happens to the light hook: an input event, or a run of its \<open>render\<close> effect.  The
  \<open>render\<close> of the dark theme writes no state, so for the dark hook a render is no step.
\<close>

datatype occurrence = Input event | Render "canvas option" bool

fun step_wood :: "hook_wood \<Rightarrow> occurrence \<Rightarrow> hook_wood" where
  "step_wood s (Input (MouseDown p e point)) = handleMouseDown_wood p e point s"
| "step_wood s (Input (MouseMove p point)) = handleMouseMove_wood p point s"
| "step_wood s (Input MouseUp) = handleMouseUp_wood s"
| "step_wood s (Input (TouchStart p e touches)) = handleTouchStart_wood p e touches s"
| "step_wood s (Input (TouchMove p touches)) = handleTouchMove_wood p touches s"
| "step_wood s (Input TouchEnd) = handleTouchEnd_wood s"
| "step_wood s (Input ClearGarden) = clearGarden_wood s"
| "step_wood s (Input Undo) = undo_wood s"
| "step_wood s (Input (GeneratePattern p e)) = generatePattern_wood p e s"
| "step_wood s (Input (Tick n)) = tick_wood n s"
| "step_wood s (Render cref ctx) = render_wood cref ctx s"

definition run_wood :: "hook_wood \<Rightarrow> occurrence list \<Rightarrow> hook_wood" where
  "run_wood s os = foldl step_wood s os"

fun inputs :: "occurrence list \<Rightarrow> event list" where
  "inputs [] = []"
| "inputs (Input ev # os) = ev # inputs os"
| "inputs (Render cref ctx # os) = inputs os"

text \<open>The state of the light hook without its background cache: what the two hooks
  have in common.\<close>

definition controller :: "hook_wood \<Rightarrow> hook" where
  "controller s =
     \<lparr>rakePaths = rakePaths s, placedObjects = placedObjects s, isDrawing = isDrawing s,
      undoStack = undoStack s, currentPathRef = currentPathRef s, lastPointRef = lastPointRef s,
      heap = heap s, nxt = nxt s, tasks = tasks s\<rparr>"


section \<open>Rounding to binary64\<close>

lemma nearest_even_of_int [simp]: "nearest_even (of_int n) = n"
  by (simp add: nearest_even_def)

lemma nearest_even_0 [simp]: "nearest_even 0 = 0"
  by (simp add: nearest_even_def)

lemma nearest_even_cases: "nearest_even y = \<lfloor>y\<rfloor> \<or> nearest_even y = \<lfloor>y\<rfloor> + 1"
  by (simp add: nearest_even_def Let_def)

lemma nearest_even_mono: "x \<le> y \<Longrightarrow> nearest_even x \<le> nearest_even y"
proof -
  assume xy: "x \<le> y"
  then have fg: "\<lfloor>x\<rfloor> \<le> \<lfloor>y\<rfloor>" by (rule floor_mono)
  show ?thesis
  proof (cases "\<lfloor>x\<rfloor> = \<lfloor>y\<rfloor>")
    case True
    then show ?thesis
      using xy by (auto simp: nearest_even_def Let_def)
  next
    case False
    then have "\<lfloor>x\<rfloor> + 1 \<le> \<lfloor>y\<rfloor>" using fg by simp
    moreover have "nearest_even x \<le> \<lfloor>x\<rfloor> + 1"
      using nearest_even_cases [of x] by auto
    moreover have "\<lfloor>y\<rfloor> \<le> nearest_even y"
      using nearest_even_cases [of y] by auto
    ultimately show ?thesis by linarith
  qed
qed

lemma nearest_even_nonneg: "0 \<le> x \<Longrightarrow> 0 \<le> nearest_even x"
  using nearest_even_mono [of 0 x] nearest_even_of_int [of 0] by simp

lemma nearest_even_near: "of_int n \<le> y \<Longrightarrow> y < of_int n + 1 / 2 \<Longrightarrow> nearest_even y = n"
proof -
  assume a: "of_int n \<le> y" "y < of_int n + 1 / 2"
  then have "\<lfloor>y\<rfloor> = n" by (intro floor_unique) auto
  then show ?thesis using a by (simp add: nearest_even_def)
qed

lemma nearest_even_near_below: "of_int n - 1 / 2 < y \<Longrightarrow> y \<le> of_int n \<Longrightarrow> nearest_even y = n"
proof (cases "y = of_int n")
  case True
  then show ?thesis by simp
next
  case False
  assume a: "of_int n - 1 / 2 < y" "y \<le> of_int n"
  with False have "\<lfloor>y\<rfloor> = n - 1"
    by (intro floor_unique) auto
  then show ?thesis
    using a by (simp add: nearest_even_def)
qed

lemma nearest_even_tie: "y = of_int n + 1 / 2 \<Longrightarrow> even n \<Longrightarrow> nearest_even y = n"
proof -
  assume a: "y = of_int n + 1 / 2" "even n"
  then have "\<lfloor>y\<rfloor> = n"
    by (intro floor_unique) auto
  then show ?thesis
    using a by (simp add: nearest_even_def)
qed

lemma ulp_pos [simp]: "0 < ulp x"
  by (simp add: ulp_def)

lemma ulp_nonneg [simp]: "0 \<le> ulp x"
  using ulp_pos [of x] by linarith

lemma ulp_neq_0 [simp]: "ulp x \<noteq> 0"
  using ulp_pos [of x] by linarith

lemma fl_0 [simp]: "fl 0 = 0"
  by (simp add: fl_def)

lemma fl_nonneg: "0 \<le> x \<Longrightarrow> 0 \<le> fl x"
  unfolding fl_def by (intro mult_nonneg_nonneg) (simp_all add: nearest_even_nonneg)

lemma powr_powi: "(2::real) powr of_int k = 2 powi k"
  by (simp add: powr_int power_int_def power_one_over)

lemma log_floor_bounds:
  assumes "x \<noteq> 0"
  shows "2 powi \<lfloor>log 2 \<bar>x\<bar>\<rfloor> \<le> \<bar>x\<bar>" "\<bar>x\<bar> < 2 powi (\<lfloor>log 2 \<bar>x\<bar>\<rfloor> + 1)"
proof -
  have "0 < \<bar>x\<bar>" using assms by simp
  then have "2 powr of_int \<lfloor>log 2 \<bar>x\<bar>\<rfloor> \<le> \<bar>x\<bar> \<and> \<bar>x\<bar> < 2 powr (of_int \<lfloor>log 2 \<bar>x\<bar>\<rfloor> + 1)"
    using floor_log_eq_powr_iff [of "\<bar>x\<bar>" 2 "\<lfloor>log 2 \<bar>x\<bar>\<rfloor>"] by simp
  moreover have "(2::real) powr (of_int \<lfloor>log 2 \<bar>x\<bar>\<rfloor> + 1) = 2 powi (\<lfloor>log 2 \<bar>x\<bar>\<rfloor> + 1)"
    using powr_powi [of "\<lfloor>log 2 \<bar>x\<bar>\<rfloor> + 1"] by simp
  ultimately show "2 powi \<lfloor>log 2 \<bar>x\<bar>\<rfloor> \<le> \<bar>x\<bar>" "\<bar>x\<bar> < 2 powi (\<lfloor>log 2 \<bar>x\<bar>\<rfloor> + 1)"
    by (simp_all add: powr_powi)
qed

lemma floor_log_unique:
  assumes "2 powi e \<le> \<bar>x\<bar>" "\<bar>x\<bar> < 2 powi (e + 1)"
  shows "\<lfloor>log 2 \<bar>x\<bar>\<rfloor> = e"
proof -
  have "0 < (2::real) powi e" by simp
  then have pos: "0 < \<bar>x\<bar>" using assms(1) by linarith
  have "(2::real) powr (of_int e + 1) = 2 powi (e + 1)"
    using powr_powi [of "e + 1"] by simp
  then show ?thesis
    using assms floor_log_eq_powr_iff [OF pos, of 2 e] by (simp add: powr_powi)
qed

lemma expo_upper: "\<bar>x\<bar> < 2 powi (expo x + 1)" if "x \<noteq> 0"
proof -
  have "\<bar>x\<bar> < 2 powi (\<lfloor>log 2 \<bar>x\<bar>\<rfloor> + 1)"
    using that by (rule log_floor_bounds)
  also have "\<dots> \<le> 2 powi (expo x + 1)"
    by (intro power_int_increasing) (simp_all add: expo_def)
  finally show ?thesis .
qed

lemma expo_eval:
  assumes "2 powi e \<le> \<bar>x\<bar>" "\<bar>x\<bar> < 2 powi (e + 1)" "- 1022 \<le> e"
  shows "expo x = e"
  using floor_log_unique [OF assms(1,2)] assms(3) by (simp add: expo_def)

text \<open>A number m * 2^k with fewer than 53 bits in m is a binary64 number.\<close>

lemma fl_exact:
  assumes "\<bar>m\<bar> < 2 ^ 53" "- 1074 \<le> k"
  shows "fl (of_int m * 2 powi k) = of_int m * 2 powi k"
proof (cases "m = 0")
  case True
  then show ?thesis by simp
next
  case False
  let ?x = "of_int m * 2 powi k :: real"
  have x0: "?x \<noteq> 0" using False by simp
  have absx: "\<bar>?x\<bar> = of_int \<bar>m\<bar> * 2 powi k"
    by (simp add: abs_mult)
  have "of_int \<bar>m\<bar> < (2::real) ^ 53"
    using assms(1) by (metis of_int_less_iff of_int_numeral of_int_power)
  then have "\<bar>?x\<bar> < 2 ^ 53 * 2 powi k"
    unfolding absx by (intro mult_strict_right_mono) simp_all
  also have "\<dots> = 2 powi (k + 53)"
    by (simp add: power_int_add)
  finally have up: "\<bar>?x\<bar> < 2 powi (k + 53)" .
  have "2 powi \<lfloor>log 2 \<bar>?x\<bar>\<rfloor> \<le> \<bar>?x\<bar>"
    using x0 by (rule log_floor_bounds)
  with up have "(2::real) powi \<lfloor>log 2 \<bar>?x\<bar>\<rfloor> < 2 powi (k + 53)" by linarith
  then have "\<lfloor>log 2 \<bar>?x\<bar>\<rfloor> < k + 53"
    using power_int_increasing [of "k + 53" "\<lfloor>log 2 \<bar>?x\<bar>\<rfloor>" "2::real"] by (cases "\<lfloor>log 2 \<bar>?x\<bar>\<rfloor> < k + 53") auto
  then have le: "expo ?x - 52 \<le> k"
    using assms(2) by (simp add: expo_def)
  define j where "j = nat (k - (expo ?x - 52))"
  have "?x / ulp ?x = of_int m * 2 powi (k - (expo ?x - 52))"
    by (simp add: ulp_def power_int_diff)
  also have "2 powi (k - (expo ?x - 52)) = (2::real) ^ j"
    using le by (simp add: j_def power_int_def)
  finally have "?x / ulp ?x = of_int (m * 2 ^ j)"
    by simp
  then have "nearest_even (?x / ulp ?x) = m * 2 ^ j"
    by (simp only: nearest_even_of_int)
  then have "fl ?x = of_int (m * 2 ^ j) * ulp ?x"
    by (simp add: fl_def)
  also have "\<dots> = (?x / ulp ?x) * ulp ?x"
    using \<open>?x / ulp ?x = of_int (m * 2 ^ j)\<close> by simp
  also have "\<dots> = ?x" by simp
  finally show ?thesis .
qed

lemma fl_of_int: "\<bar>m\<bar> < 2 ^ 53 \<Longrightarrow> fl (of_int m) = of_int m"
  using fl_exact [of m 0] by simp

lemma fl_numeral [simp]: "numeral n < (2::int) ^ 53 \<Longrightarrow> fl (numeral n) = numeral n"
  using fl_of_int [of "numeral n"] by simp

lemma fl_1 [simp]: "fl 1 = 1"
  using fl_of_int [of 1] by simp

text \<open>Rounding is monotone on the non-negative numbers.\<close>

lemma fl_le_next_power: "0 < x \<Longrightarrow> fl x \<le> 2 powi (expo x + 1)"
proof -
  assume x: "0 < x"
  then have "x < 2 powi (expo x + 1)"
    using expo_upper [of x] by simp
  then have "x / ulp x < 2 powi (expo x + 1) / ulp x"
    by (intro divide_strict_right_mono) simp_all
  also have "2 powi (expo x + 1) / ulp x = (2::real) powi 53"
    by (simp add: ulp_def flip: power_int_diff)
  finally have "x / ulp x \<le> of_int (2 ^ 53)" by simp
  then have "nearest_even (x / ulp x) \<le> 2 ^ 53"
    using nearest_even_mono [of "x / ulp x" "of_int (2 ^ 53)"] by (simp only: nearest_even_of_int)
  then have "(of_int (nearest_even (x / ulp x)) :: real) \<le> 2 ^ 53"
    by (metis of_int_le_iff of_int_numeral of_int_power)
  then have "fl x \<le> 2 ^ 53 * ulp x"
    unfolding fl_def by (intro mult_right_mono) simp_all
  also have "\<dots> = 2 powi 53 * 2 powi (expo x - 52)"
    by (simp add: ulp_def)
  also have "\<dots> = 2 powi (53 + (expo x - 52))"
    by (rule power_int_add [symmetric]) simp
  finally show ?thesis by (simp add: add.commute)
qed

lemma power_le_fl: "0 < x \<Longrightarrow> - 1022 < expo x \<Longrightarrow> 2 powi (expo x) \<le> fl x"
proof -
  assume x: "0 < x" and e: "- 1022 < expo x"
  then have ex: "expo x = \<lfloor>log 2 \<bar>x\<bar>\<rfloor>" by (simp add: expo_def max_def split: if_splits)
  have "2 powi (expo x) \<le> x"
    using log_floor_bounds(1) [of x] x ex by simp
  then have "2 powi (expo x) / ulp x \<le> x / ulp x"
    by (intro divide_right_mono) simp_all
  moreover have "2 powi (expo x) / ulp x = (2::real) powi 52"
    by (simp add: ulp_def flip: power_int_diff)
  ultimately have "of_int (2 ^ 52) \<le> x / ulp x" by simp
  then have "2 ^ 52 \<le> nearest_even (x / ulp x)"
    using nearest_even_mono [of "of_int (2 ^ 52)" "x / ulp x"] by (simp only: nearest_even_of_int)
  then have "(2::real) ^ 52 \<le> of_int (nearest_even (x / ulp x))"
    by (metis of_int_le_iff of_int_numeral of_int_power)
  then have "2 ^ 52 * ulp x \<le> fl x"
    unfolding fl_def by (intro mult_right_mono) simp_all
  moreover have "2 powi 52 * 2 powi (expo x - 52) = (2::real) powi (52 + (expo x - 52))"
    by (rule power_int_add [symmetric]) simp
  then have "2 ^ 52 * ulp x = 2 powi (expo x)"
    by (simp add: ulp_def)
  ultimately show ?thesis by simp
qed

lemma expo_mono: "0 < x \<Longrightarrow> x \<le> y \<Longrightarrow> expo x \<le> expo y"
proof -
  assume "0 < x" "x \<le> y"
  then have "log 2 \<bar>x\<bar> \<le> log 2 \<bar>y\<bar>" by simp
  then have "\<lfloor>log 2 \<bar>x\<bar>\<rfloor> \<le> \<lfloor>log 2 \<bar>y\<bar>\<rfloor>" by (rule floor_mono)
  then show ?thesis by (simp add: expo_def)
qed

lemma fl_mono: "0 \<le> x \<Longrightarrow> x \<le> y \<Longrightarrow> fl x \<le> fl y"
proof -
  assume x0: "0 \<le> x" and xy: "x \<le> y"
  show ?thesis
  proof (cases "x = 0")
    case True
    then show ?thesis using xy by (simp add: fl_nonneg)
  next
    case False
    then have x: "0 < x" using x0 by simp
    then have y: "0 < y" using xy by simp
    have le: "expo x \<le> expo y" using x xy by (rule expo_mono)
    show ?thesis
    proof (cases "expo x = expo y")
      case True
      then have u: "ulp x = ulp y" by (simp add: ulp_def)
      have "x / ulp y \<le> y / ulp y" using xy by (intro divide_right_mono) simp_all
      then have "nearest_even (x / ulp y) \<le> nearest_even (y / ulp y)"
        by (rule nearest_even_mono)
      then show ?thesis
        unfolding fl_def u by (intro mult_right_mono) simp_all
    next
      case False
      then have lt: "expo x < expo y" using le by simp
      have "- 1022 \<le> expo x" by (simp add: expo_def)
      then have "- 1022 < expo y" using lt by simp
      then have "2 powi (expo y) \<le> fl y" using y by (intro power_le_fl)
      moreover have "fl x \<le> 2 powi (expo x + 1)" using x by (rule fl_le_next_power)
      moreover have "(2::real) powi (expo x + 1) \<le> 2 powi (expo y)"
        using lt by (intro power_int_increasing) simp_all
      ultimately show ?thesis by linarith
    qed
  qed
qed

lemma fl_eval:
  assumes "2 powi e \<le> \<bar>x\<bar>" "\<bar>x\<bar> < 2 powi (e + 1)" "- 1022 \<le> e"
  shows "fl x = of_int (nearest_even (x / 2 powi (e - 52))) * 2 powi (e - 52)"
  using expo_eval [OF assms] by (simp add: fl_def ulp_def)


section \<open>Basic facts about the undo stack\<close>

lemma length_slice_last: "length (slice_last n xs) \<le> n"
  by (simp add: slice_last_def)

lemma slice_last_short: "length xs \<le> n \<Longrightarrow> slice_last n xs = xs"
  by (simp add: slice_last_def)

lemma slice_last_snoc_full: "length xs = n \<Longrightarrow> 0 < n \<Longrightarrow> slice_last n (xs @ [x]) = tl xs @ [x]"
  by (cases xs) (simp_all add: slice_last_def)

lemma slice_last_snoc_last: "0 < n \<Longrightarrow> last (slice_last n (xs @ [x])) = x"
  by (simp add: slice_last_def)

lemma slice_last_snoc_ne: "0 < n \<Longrightarrow> slice_last n (xs @ [x]) \<noteq> []"
  by (simp add: slice_last_def)

lemma undoStack_saveState:
  "undoStack (saveState s) = slice_last 20 (undoStack s @ [\<lparr>rakePaths = rakePaths s, placedObjects = placedObjects s\<rparr>])"
  by (simp add: saveState_def)

lemma saveState_fields [simp]:
  "rakePaths (saveState s) = rakePaths s" "placedObjects (saveState s) = placedObjects s"
  "heap (saveState s) = heap s" "nxt (saveState s) = nxt s" "isDrawing (saveState s) = isDrawing s"
  "currentPathRef (saveState s) = currentPathRef s" "lastPointRef (saveState s) = lastPointRef s"
  "tasks (saveState s) = tasks s"
  by (simp_all add: saveState_def)

lemma undoStack_pointerMove [simp]: "undoStack (pointerMove point s) = undoStack s"
  by (simp add: pointerMove_def Let_def split: option.splits)

lemma undoStack_handleMouseMove [simp]: "undoStack (handleMouseMove p point s) = undoStack s"
  by (simp add: handleMouseMove_def split: option.splits)

lemma undoStack_handleTouchMove [simp]: "undoStack (handleTouchMove p ts s) = undoStack s"
  by (simp add: handleTouchMove_def split: option.splits)

lemma undoStack_handleMouseUp [simp]: "undoStack (handleMouseUp s) = undoStack s"
  by (simp add: handleMouseUp_def)

lemma undoStack_handleTouchEnd [simp]: "undoStack (handleTouchEnd s) = undoStack s"
  by (simp add: handleTouchEnd_def)

lemma undoStack_pointerDown [simp]: "undoStack (pointerDown p e point s) = undoStack (saveState s)"
  by (simp add: pointerDown_def Let_def split: Tool.splits)

lemma undoStack_clearGarden [simp]: "undoStack (clearGarden s) = undoStack (saveState s)"
  by (simp add: clearGarden_def)

lemma undoStack_undo: "undoStack (undo s) = butlast (undoStack s)"
  by (simp add: undo_def Let_def butlast_conv_take)

lemma undoStack_animateStep [simp]: "undoStack (animateStep path a s pt) = undoStack s"
  by (simp add: animateStep_def)

lemma undoStack_foldl_animateStep [simp]: "undoStack (foldl (animateStep path a) s pts) = undoStack s"
  by (induction pts arbitrary: s) simp_all

lemma undoStack_animatePath [simp]: "undoStack (animatePath s path) = undoStack s"
  by (simp add: animatePath_def Let_def)

lemma undoStack_foldl_animatePath [simp]: "undoStack (foldl animatePath s paths) = undoStack s"
  by (induction paths arbitrary: s) simp_all

lemma undoStack_foldl_place [simp]:
  "undoStack (foldl (\<lambda>s i. s\<lparr>placedObjects := placedObjects s @ [f i]\<rparr>) s is) = undoStack s"
  by (induction "is" arbitrary: s) simp_all

lemma undoStack_addObjects [simp]: "undoStack (addObjects cv e k s) = undoStack s"
  by (simp add: addObjects_def Let_def)

lemma undoStack_generatePatternWhole:
  "undoStack (generatePatternWhole p e s) = (case canvasRef p of None \<Rightarrow> undoStack s | Some cv \<Rightarrow> undoStack (saveState s))"
  by (simp add: generatePatternWhole_def Let_def split: option.splits prod.splits)

lemma animateStep_fields [simp]:
  "placedObjects (animateStep path a s pt) = placedObjects s"
  "isDrawing (animateStep path a s pt) = isDrawing s"
  "currentPathRef (animateStep path a s pt) = currentPathRef s"
  "lastPointRef (animateStep path a s pt) = lastPointRef s"
  "nxt (animateStep path a s pt) = nxt s"
  "tasks (animateStep path a s pt) = tasks s"
  by (simp_all add: animateStep_def)

lemma nextPath_fields [simp]:
  "undoStack (fst (nextPath cv e k paths s)) = undoStack s"
  "placedObjects (fst (nextPath cv e k paths s)) = placedObjects s"
  "isDrawing (fst (nextPath cv e k paths s)) = isDrawing s"
  "currentPathRef (fst (nextPath cv e k paths s)) = currentPathRef s"
  "lastPointRef (fst (nextPath cv e k paths s)) = lastPointRef s"
  "tasks (fst (nextPath cv e k paths s)) = tasks s"
  by (induction paths arbitrary: s; simp add: Let_def split: list.splits)+

lemma resume_fields [simp]:
  "undoStack (fst (resume t s)) = undoStack s"
  "isDrawing (fst (resume t s)) = isDrawing s"
  "currentPathRef (fst (resume t s)) = currentPathRef s"
  "lastPointRef (fst (resume t s)) = lastPointRef s"
  "tasks (fst (resume t s)) = tasks s"
  by (induction t s rule: resume.induct; simp)+

lemma tick_unfold:
  "tick n s =
     (if n < length (tasks s) then
        (case snd (resume (tasks s ! n) s) of
           None \<Rightarrow> (fst (resume (tasks s ! n) s))\<lparr>tasks := take n (tasks s) @ drop (Suc n) (tasks s)\<rparr>
         | Some t \<Rightarrow> (fst (resume (tasks s ! n) s))\<lparr>tasks := (tasks s)[n := t]\<rparr>)
      else s)"
proof -
  obtain s1 r where *: "resume (tasks s ! n) s = (s1, r)"
    by (cases "resume (tasks s ! n) s")
  then have "tasks s1 = tasks s"
    using resume_fields(5) [of "tasks s ! n" s] by simp
  then show ?thesis
    by (simp add: tick_def * split: option.splits)
qed

lemma tick_fields [simp]:
  "undoStack (tick n s) = undoStack s"
  "isDrawing (tick n s) = isDrawing s"
  "currentPathRef (tick n s) = currentPathRef s"
  "lastPointRef (tick n s) = lastPointRef s"
  by (simp_all add: tick_unfold split: option.splits)

lemma generatePattern_unfold:
  "canvasRef p = Some cv \<Longrightarrow>
   generatePattern p e s =
     (let r = nextPath cv e (snd (generateZenPattern cv (rnd e) 0))
                (fst (generateZenPattern cv (rnd e) 0))
                ((saveState s)\<lparr>rakePaths := [], placedObjects := []\<rparr>)
      in case snd r of
           None \<Rightarrow> fst r
         | Some t \<Rightarrow> (fst r)\<lparr>tasks := tasks s @ [t]\<rparr>)"
proof -
  assume cv: "canvasRef p = Some cv"
  let ?s2 = "(saveState s)\<lparr>rakePaths := [], placedObjects := []\<rparr>"
  obtain newPaths k where g: "generateZenPattern cv (rnd e) 0 = (newPaths, k)"
    by (cases "generateZenPattern cv (rnd e) 0")
  obtain s3 r where *: "nextPath cv e k newPaths ?s2 = (s3, r)"
    by (cases "nextPath cv e k newPaths ?s2")
  then have "tasks s3 = tasks s"
    using nextPath_fields(6) [of cv e k newPaths ?s2] by simp
  then show ?thesis
    by (simp add: generatePattern_def cv g * Let_def split: option.splits)
qed

lemma undoStack_generatePattern:
  "undoStack (generatePattern p e s) = (case canvasRef p of None \<Rightarrow> undoStack s | Some cv \<Rightarrow> undoStack (saveState s))"
proof (cases "canvasRef p")
  case None
  then show ?thesis by (simp add: generatePattern_def)
next
  case (Some cv)
  then show ?thesis
    by (simp add: generatePattern_unfold Let_def split: option.splits)
qed

lemma generatePattern_refs [simp]:
  "currentPathRef (generatePattern p e s) = currentPathRef s"
  "lastPointRef (generatePattern p e s) = lastPointRef s"
  "isDrawing (generatePattern p e s) = isDrawing s"
  by (cases "canvasRef p", simp add: generatePattern_def,
      simp add: generatePattern_unfold Let_def split: option.splits)+

lemma length_undoStack_saveState: "length (undoStack (saveState s)) \<le> 20"
  by (simp add: undoStack_saveState length_slice_last)

lemma step_undoStack_cases:
  "undoStack (step s ev) = undoStack s \<or> undoStack (step s ev) = butlast (undoStack s) \<or>
   undoStack (step s ev) = undoStack (saveState s)"
  by (cases ev)
     (simp_all add: handleMouseDown_def handleTouchStart_def undoStack_undo undoStack_generatePattern
               split: option.splits list.splits)

lemma length_undoStack_step: "length (undoStack s) \<le> 20 \<Longrightarrow> length (undoStack (step s ev)) \<le> 20"
  using step_undoStack_cases [of s ev] length_undoStack_saveState [of s] by auto

lemma length_undoStack_run: "length (undoStack s) \<le> 20 \<Longrightarrow> length (undoStack (run s evs)) \<le> 20"
  unfolding run_def by (induction evs arbitrary: s) (simp_all add: length_undoStack_step)

subsection \<open>The animation\<close>

lemma foldl_animateStep_heap:
  "heap (foldl (animateStep path a) s pts) = (heap s)(a := heap s a @ pts)"
  by (induction pts arbitrary: s) (simp_all add: animateStep_def)

lemma foldl_animateStep_nxt [simp]: "nxt (foldl (animateStep path a) s pts) = nxt s"
  by (induction pts arbitrary: s) (simp_all add: animateStep_def)

lemma foldl_animateStep_objects [simp]:
  "placedObjects (foldl (animateStep path a) s pts) = placedObjects s"
  by (induction pts arbitrary: s) (simp_all add: animateStep_def)

lemma foldl_animateStep_refs [simp]:
  "currentPathRef (foldl (animateStep path a) s pts) = currentPathRef s"
  "lastPointRef (foldl (animateStep path a) s pts) = lastPointRef s"
  "isDrawing (foldl (animateStep path a) s pts) = isDrawing s"
  "tasks (foldl (animateStep path a) s pts) = tasks s"
  by (induction pts arbitrary: s) (simp_all add: animateStep_def)

lemma foldl_animateStep_paths:
  "rakePaths (foldl (animateStep path a) s pts) =
     (if pts = [] then rakePaths s
      else filter (\<lambda>q. rid q \<noteq> rid path) (rakePaths s) @ [\<lparr>rid = rid path, points = a, width = width path\<rparr>])"
proof (induction pts arbitrary: s)
  case Nil
  show ?case by simp
next
  case (Cons x xs)
  show ?case
    by (simp add: Cons.IH) (simp add: animateStep_def)
qed

lemma animatePath_nxt [simp]: "nxt (animatePath s path) = Suc (nxt s)"
  by (simp add: animatePath_def Let_def)

lemma animatePath_heap:
  "heap (animatePath s path) = (heap s)(nxt s := points path)"
  by (simp add: animatePath_def Let_def foldl_animateStep_heap)

lemma animatePath_paths:
  "rakePaths (animatePath s path) =
     (if points path = [] then rakePaths s
      else filter (\<lambda>q. rid q \<noteq> rid path) (rakePaths s)
           @ [\<lparr>rid = rid path, points = nxt s, width = width path\<rparr>])"
  by (simp add: animatePath_def Let_def foldl_animateStep_paths)

lemma animatePath_others [simp]:
  "placedObjects (animatePath s path) = placedObjects s"
  "currentPathRef (animatePath s path) = currentPathRef s"
  "lastPointRef (animatePath s path) = lastPointRef s"
  "isDrawing (animatePath s path) = isDrawing s"
  "tasks (animatePath s path) = tasks s"
  by (simp_all add: animatePath_def Let_def)

lemma foldl_animatePath_nxt: "nxt (foldl animatePath s paths) = nxt s + length paths"
  by (induction paths arbitrary: s) simp_all

lemma foldl_animatePath_others [simp]:
  "placedObjects (foldl animatePath s paths) = placedObjects s"
  "currentPathRef (foldl animatePath s paths) = currentPathRef s"
  "lastPointRef (foldl animatePath s paths) = lastPointRef s"
  "isDrawing (foldl animatePath s paths) = isDrawing s"
  "tasks (foldl animatePath s paths) = tasks s"
  by (induction paths arbitrary: s) simp_all

lemma foldl_animatePath_heap_old:
  "a < nxt s \<Longrightarrow> heap (foldl animatePath s paths) a = heap s a"
  by (induction paths arbitrary: s) (simp_all add: animatePath_heap)

lemma foldl_animatePath_paths_ok:
  "\<forall>q \<in> set (rakePaths s). points q < nxt s \<Longrightarrow>
   \<forall>q \<in> set (rakePaths (foldl animatePath s paths)). points q < nxt (foldl animatePath s paths)"
proof (induction paths arbitrary: s)
  case Nil
  then show ?case by simp
next
  case (Cons path paths)
  have "\<forall>q \<in> set (rakePaths (animatePath s path)). points q < nxt (animatePath s path)"
    using Cons.prems by (auto simp: animatePath_paths less_Suc_eq)
  then show ?case using Cons.IH by simp
qed

lemma foldl_place_fields [simp]:
  "rakePaths (foldl (\<lambda>s i. s\<lparr>placedObjects := placedObjects s @ [f i]\<rparr>) s is) = rakePaths s"
  "heap (foldl (\<lambda>s i. s\<lparr>placedObjects := placedObjects s @ [f i]\<rparr>) s is) = heap s"
  "nxt (foldl (\<lambda>s i. s\<lparr>placedObjects := placedObjects s @ [f i]\<rparr>) s is) = nxt s"
  "currentPathRef (foldl (\<lambda>s i. s\<lparr>placedObjects := placedObjects s @ [f i]\<rparr>) s is) = currentPathRef s"
  "lastPointRef (foldl (\<lambda>s i. s\<lparr>placedObjects := placedObjects s @ [f i]\<rparr>) s is) = lastPointRef s"
  "isDrawing (foldl (\<lambda>s i. s\<lparr>placedObjects := placedObjects s @ [f i]\<rparr>) s is) = isDrawing s"
  "tasks (foldl (\<lambda>s i. s\<lparr>placedObjects := placedObjects s @ [f i]\<rparr>) s is) = tasks s"
  by (induction "is" arbitrary: s) simp_all

lemma addObjects_fields [simp]:
  "rakePaths (addObjects cv e k s) = rakePaths s"
  "heap (addObjects cv e k s) = heap s"
  "nxt (addObjects cv e k s) = nxt s"
  "currentPathRef (addObjects cv e k s) = currentPathRef s"
  "lastPointRef (addObjects cv e k s) = lastPointRef s"
  "isDrawing (addObjects cv e k s) = isDrawing s"
  "tasks (addObjects cv e k s) = tasks s"
  by (simp_all add: addObjects_def Let_def)

text \<open>The state in which the animation of \<open>generatePatternWhole\<close> starts.\<close>

lemma generatePatternWhole_unfold:
  "canvasRef p = Some cv \<Longrightarrow>
   generatePatternWhole p e s =
     addObjects cv e (snd (generateZenPattern cv (rnd e) 0))
       (foldl animatePath ((saveState s)\<lparr>rakePaths := [], placedObjects := []\<rparr>)
          (fst (generateZenPattern cv (rnd e) 0)))"
  by (simp add: generatePatternWhole_def Let_def split: prod.splits)

lemma generatePatternWhole_heap_old:
  "a < nxt s \<Longrightarrow> heap (generatePatternWhole p e s) a = heap s a"
  by (simp add: generatePatternWhole_def Let_def foldl_animatePath_heap_old split: option.splits prod.splits)

lemma generatePatternWhole_nxt: "nxt s \<le> nxt (generatePatternWhole p e s)"
  by (simp add: generatePatternWhole_def Let_def foldl_animatePath_nxt split: option.splits prod.splits)

lemma generatePatternWhole_paths_ok:
  "\<forall>q \<in> set (rakePaths (generatePatternWhole p e s)). points q < nxt (generatePatternWhole p e s)" if "\<forall>q \<in> set (rakePaths s). points q < nxt s"
proof (cases "canvasRef p")
  case None
  then show ?thesis using that by (simp add: generatePatternWhole_def)
next
  case (Some cv)
  have "\<forall>q \<in> set (rakePaths (foldl animatePath ((saveState s)\<lparr>rakePaths := [], placedObjects := []\<rparr>) paths)).
          points q < nxt (foldl animatePath ((saveState s)\<lparr>rakePaths := [], placedObjects := []\<rparr>) paths)" for paths
    by (rule foldl_animatePath_paths_ok) simp
  then show ?thesis by (simp add: generatePatternWhole_unfold [OF Some])
qed

lemma generatePatternWhole_refs [simp]:
  "currentPathRef (generatePatternWhole p e s) = currentPathRef s"
  "lastPointRef (generatePatternWhole p e s) = lastPointRef s"
  "isDrawing (generatePatternWhole p e s) = isDrawing s"
  by (simp_all add: generatePatternWhole_def Let_def split: option.splits prod.splits)


subsection \<open>The steps of a paused call\<close>

lemma nextPath_nxt: "nxt s \<le> nxt (fst (nextPath cv e k paths s))"
proof (induction paths arbitrary: s)
  case Nil
  show ?case by simp
next
  case (Cons path paths)
  have "Suc (nxt s) \<le> nxt (fst (nextPath cv e k paths (s\<lparr>heap := (heap s)(nxt s := []), nxt := Suc (nxt s)\<rparr>)))"
    using Cons.IH [of "s\<lparr>heap := (heap s)(nxt s := []), nxt := Suc (nxt s)\<rparr>"] by simp
  then show ?case
    by (simp add: Let_def split: list.splits)
qed

lemma nextPath_heap_old: "a < nxt s \<Longrightarrow> heap (fst (nextPath cv e k paths s)) a = heap s a"
proof (induction paths arbitrary: s)
  case Nil
  show ?case by simp
next
  case (Cons path paths)
  have "heap (fst (nextPath cv e k paths (s\<lparr>heap := (heap s)(nxt s := []), nxt := Suc (nxt s)\<rparr>))) a
          = heap (s\<lparr>heap := (heap s)(nxt s := []), nxt := Suc (nxt s)\<rparr>) a"
    using Cons.prems by (intro Cons.IH) simp
  then show ?case
    using Cons.prems by (simp add: Let_def animateStep_def split: list.splits)
qed

lemma nextPath_paths_ok:
  "\<forall>q \<in> set (rakePaths s). points q < nxt s \<Longrightarrow>
   \<forall>q \<in> set (rakePaths (fst (nextPath cv e k paths s))). points q < nxt (fst (nextPath cv e k paths s))"
proof (induction paths arbitrary: s)
  case Nil
  then show ?case by simp
next
  case (Cons path paths)
  let ?s1 = "s\<lparr>heap := (heap s)(nxt s := []), nxt := Suc (nxt s)\<rparr>"
  have ok1: "\<forall>q \<in> set (rakePaths ?s1). points q < nxt ?s1"
    using Cons.prems by (auto simp: less_Suc_eq)
  show ?case
  proof (cases "points path")
    case Nil
    then show ?thesis using Cons.IH [OF ok1] by (simp add: Let_def)
  next
    case (Cons point rest)
    then show ?thesis using ok1 by (auto simp: Let_def animateStep_def)
  qed
qed

lemma nextPath_task_ok:
  "snd (nextPath cv e k paths s) = Some t \<Longrightarrow> task_allocated (nxt (fst (nextPath cv e k paths s))) t"
proof (induction paths arbitrary: s)
  case Nil
  then show ?case
    by (auto simp: startObjects_def Let_def split: if_splits)
next
  case (Cons path paths)
  then show ?case
    by (cases "points path") (auto simp: Let_def)
qed

lemma resume_nxt: "nxt s \<le> nxt (fst (resume t s))"
  by (induction t s rule: resume.induct) (simp_all add: nextPath_nxt)

lemma resume_paths_ok:
  "\<forall>q \<in> set (rakePaths s). points q < nxt s \<Longrightarrow> task_allocated (nxt s) t \<Longrightarrow>
   \<forall>q \<in> set (rakePaths (fst (resume t s))). points q < nxt (fst (resume t s))"
proof (induction t s rule: resume.induct)
  case (1 cv e k path a point rest paths s)
  then show ?case by (auto simp: animateStep_def)
next
  case (2 cv e k path a paths s)
  then show ?case using nextPath_paths_ok [of s cv e k paths] by simp
next
  case (3 cv e k i objectCount s)
  then show ?case by simp
qed

lemma resume_task_ok:
  "task_allocated (nxt s) t \<Longrightarrow> snd (resume t s) = Some t' \<Longrightarrow>
   task_allocated (nxt (fst (resume t s))) t'"
proof (induction t s rule: resume.induct)
  case (1 cv e k path a point rest paths s)
  then show ?case by auto
next
  case (2 cv e k path a paths s)
  then show ?case using nextPath_task_ok [of cv e k paths s t'] by simp
next
  case (3 cv e k i objectCount s)
  then show ?case by (auto split: if_splits)
qed

lemma task_allocated_mono: "task_allocated n t \<Longrightarrow> n \<le> m \<Longrightarrow> task_allocated m t"
  by (cases t) simp_all

lemma generatePattern_heap_old: "a < nxt s \<Longrightarrow> heap (generatePattern p e s) a = heap s a"
  by (cases "canvasRef p", simp add: generatePattern_def,
      simp add: generatePattern_unfold Let_def nextPath_heap_old split: option.splits)

lemma generatePattern_nxt: "nxt s \<le> nxt (generatePattern p e s)"
proof (cases "canvasRef p")
  case None
  then show ?thesis by (simp add: generatePattern_def)
next
  case (Some cv)
  show ?thesis
    using nextPath_nxt [of "(saveState s)\<lparr>rakePaths := [], placedObjects := []\<rparr>" cv e
            "snd (generateZenPattern cv (rnd e) 0)" "fst (generateZenPattern cv (rnd e) 0)"]
    by (simp add: generatePattern_unfold [OF Some] Let_def split: option.splits)
qed

lemma generatePattern_paths_ok:
  "\<forall>q \<in> set (rakePaths (generatePattern p e s)). points q < nxt (generatePattern p e s)"
  if "\<forall>q \<in> set (rakePaths s). points q < nxt s"
proof (cases "canvasRef p")
  case None
  then show ?thesis using that by (simp add: generatePattern_def)
next
  case (Some cv)
  have "\<forall>q \<in> set (rakePaths (fst (nextPath cv e k paths ((saveState s)\<lparr>rakePaths := [], placedObjects := []\<rparr>)))).
          points q < nxt (fst (nextPath cv e k paths ((saveState s)\<lparr>rakePaths := [], placedObjects := []\<rparr>)))"
    for k paths
    by (rule nextPath_paths_ok) simp
  then show ?thesis
    by (simp add: generatePattern_unfold [OF Some] Let_def split: option.splits)
qed

lemma generatePattern_tasks_ok:
  assumes "\<forall>t \<in> set (tasks s). task_allocated (nxt s) t"
  shows "\<forall>t \<in> set (tasks (generatePattern p e s)). task_allocated (nxt (generatePattern p e s)) t"
proof (cases "canvasRef p")
  case None
  then show ?thesis using assms by (simp add: generatePattern_def)
next
  case (Some cv)
  let ?r = "nextPath cv e (snd (generateZenPattern cv (rnd e) 0)) (fst (generateZenPattern cv (rnd e) 0))
              ((saveState s)\<lparr>rakePaths := [], placedObjects := []\<rparr>)"
  have old: "\<forall>t \<in> set (tasks s). task_allocated (nxt (fst ?r)) t"
    using assms nextPath_nxt [of "(saveState s)\<lparr>rakePaths := [], placedObjects := []\<rparr>" cv e
            "snd (generateZenPattern cv (rnd e) 0)" "fst (generateZenPattern cv (rnd e) 0)"]
    by (auto intro: task_allocated_mono)
  show ?thesis
  proof (cases "snd ?r")
    case None
    then show ?thesis using old by (simp add: generatePattern_unfold [OF Some] Let_def)
  next
    case (Some t)
    then have "task_allocated (nxt (fst ?r)) t" by (rule nextPath_task_ok)
    then show ?thesis
      using old Some by (simp add: generatePattern_unfold [OF \<open>canvasRef p = Some cv\<close>] Let_def)
  qed
qed

lemma tick_nxt: "nxt s \<le> nxt (tick n s)"
  using resume_nxt [of s "tasks s ! n"] by (simp add: tick_unfold split: option.splits)

subsection \<open>Allocation\<close>

lemma set_slice_last: "set (slice_last n xs) \<subseteq> set xs"
  by (simp add: slice_last_def set_drop_subset)

lemma allocated_saveState: "allocated s \<Longrightarrow> allocated (saveState s)"
  using set_slice_last [of 20 "undoStack s @ [\<lparr>rakePaths = rakePaths s, placedObjects = placedObjects s\<rparr>]"]
  by (auto simp: allocated_def undoStack_saveState)

lemma allocated_pointerDown: "allocated s \<Longrightarrow> allocated (pointerDown p e point s)"
  using allocated_saveState [of s]
  by (cases "tool p")
     (auto simp: allocated_def pointerDown_def Let_def less_Suc_eq intro: task_allocated_mono)

lemma set_updateCurrentPath: "set (updateCurrentPath cur prev) \<subseteq> insert cur (set prev)"
  using set_update_subset_insert [of prev _ cur] by (auto simp: updateCurrentPath_def Let_def)

lemma allocated_pointerMove: "allocated s \<Longrightarrow> allocated (pointerMove point s)"
  by (auto simp: allocated_def pointerMove_def split: option.splits
           dest!: set_updateCurrentPath [THEN subsetD])

lemma allocated_undo: "allocated s \<Longrightarrow> allocated (undo s)"
  by (auto simp: allocated_def undo_def Let_def dest: in_set_takeD)

lemma allocated_clearGarden: "allocated s \<Longrightarrow> allocated (clearGarden s)"
  using allocated_saveState [of s] by (auto simp: allocated_def clearGarden_def)

lemma allocated_generatePattern:
  assumes "allocated s"
  shows "allocated (generatePattern p e s)"
proof -
  have 1: "\<forall>q \<in> set (rakePaths (generatePattern p e s)). points q < nxt (generatePattern p e s)"
    using assms by (intro generatePattern_paths_ok) (simp add: allocated_def)
  have 2: "nxt s \<le> nxt (generatePattern p e s)"
    by (rule generatePattern_nxt)
  have 3: "set (undoStack (generatePattern p e s)) \<subseteq> set (undoStack (saveState s)) \<union> set (undoStack s)"
    by (auto simp: undoStack_generatePattern split: option.splits)
  have 4: "allocated (saveState s)"
    using assms by (rule allocated_saveState)
  show ?thesis
    unfolding allocated_def
  proof (intro conjI ballI allI impI)
    fix q assume "q \<in> set (rakePaths (generatePattern p e s))"
    then show "points q < nxt (generatePattern p e s)" using 1 by blast
  next
    fix c q assume "c \<in> set (undoStack (generatePattern p e s))" "q \<in> set (rakePaths c)"
    then have "points q < nxt s"
      using 3 4 assms by (auto simp: allocated_def)
    then show "points q < nxt (generatePattern p e s)" using 2 by simp
  next
    fix q assume "currentPathRef (generatePattern p e s) = Some q"
    then have "points q < nxt s" using assms by (simp add: allocated_def)
    then show "points q < nxt (generatePattern p e s)" using 2 by simp
  next
    fix t assume "t \<in> set (tasks (generatePattern p e s))"
    then show "task_allocated (nxt (generatePattern p e s)) t"
      using generatePattern_tasks_ok [of s p e] assms by (simp add: allocated_def)
  qed
qed

lemma allocated_tick:
  assumes "allocated s"
  shows "allocated (tick n s)"
proof (cases "n < length (tasks s)")
  case False
  then show ?thesis using assms by (simp add: tick_def)
next
  case True
  let ?t = "tasks s ! n"
  let ?s1 = "fst (resume ?t s)"
  have t: "task_allocated (nxt s) ?t"
    using assms True by (simp add: allocated_def)
  have 1: "\<forall>q \<in> set (rakePaths ?s1). points q < nxt ?s1"
    using assms t by (intro resume_paths_ok) (simp_all add: allocated_def)
  have 2: "nxt s \<le> nxt ?s1"
    by (rule resume_nxt)
  have 3: "\<forall>t \<in> set (tasks s). task_allocated (nxt ?s1) t"
    using assms 2 by (auto simp: allocated_def intro: task_allocated_mono)
  have 4: "\<forall>t'. snd (resume ?t s) = Some t' \<longrightarrow> task_allocated (nxt ?s1) t'"
    using resume_task_ok [OF t] by blast
  have nx: "nxt (tick n s) = nxt ?s1" and rp: "rakePaths (tick n s) = rakePaths ?s1"
    and us: "undoStack (tick n s) = undoStack s" and cp: "currentPathRef (tick n s) = currentPathRef s"
    using True by (simp_all add: tick_unfold split: option.splits)
  have ts: "set (tasks (tick n s)) \<subseteq> set (tasks s) \<union> {t'. snd (resume ?t s) = Some t'}"
    using True
    by (auto simp: tick_unfold split: option.splits
             dest: in_set_takeD in_set_dropD set_update_subset_insert [THEN subsetD])
  show ?thesis
    unfolding allocated_def nx rp us cp
  proof (intro conjI ballI allI impI)
    fix q assume "q \<in> set (rakePaths ?s1)"
    then show "points q < nxt ?s1" using 1 by blast
  next
    fix c q assume "c \<in> set (undoStack s)" "q \<in> set (rakePaths c)"
    then have "points q < nxt s" using assms by (auto simp: allocated_def)
    then show "points q < nxt ?s1" using 2 by simp
  next
    fix q assume "currentPathRef s = Some q"
    then have "points q < nxt s" using assms by (simp add: allocated_def)
    then show "points q < nxt ?s1" using 2 by simp
  next
    fix t assume "t \<in> set (tasks (tick n s))"
    then show "task_allocated (nxt ?s1) t" using ts 3 4 by auto
  qed
qed

lemma allocated_step: "allocated s \<Longrightarrow> allocated (step s ev)"
proof (cases ev)
  case (MouseDown p e point)
  then show "allocated s \<Longrightarrow> ?thesis"
    by (simp add: handleMouseDown_def allocated_pointerDown split: option.splits)
next
  case (MouseMove p point)
  then show "allocated s \<Longrightarrow> ?thesis"
    by (simp add: handleMouseMove_def allocated_pointerMove split: option.splits)
next
  case MouseUp
  then show "allocated s \<Longrightarrow> ?thesis"
    by (simp add: handleMouseUp_def allocated_def)
next
  case (TouchStart p e touches)
  then show "allocated s \<Longrightarrow> ?thesis"
    by (simp add: handleTouchStart_def allocated_pointerDown split: option.splits list.splits)
next
  case (TouchMove p touches)
  then show "allocated s \<Longrightarrow> ?thesis"
    by (simp add: handleTouchMove_def allocated_pointerMove split: option.splits)
next
  case TouchEnd
  then show "allocated s \<Longrightarrow> ?thesis"
    by (simp add: handleTouchEnd_def allocated_def)
next
  case ClearGarden
  then show "allocated s \<Longrightarrow> ?thesis" by (simp add: allocated_clearGarden)
next
  case Undo
  then show "allocated s \<Longrightarrow> ?thesis" by (simp add: allocated_undo)
next
  case (GeneratePattern p e)
  then show "allocated s \<Longrightarrow> ?thesis" by (simp add: allocated_generatePattern)
next
  case (Tick n)
  then show "allocated s \<Longrightarrow> ?thesis" by (simp add: allocated_tick)
qed

lemma allocated_run: "allocated s \<Longrightarrow> allocated (run s evs)"
  unfolding run_def by (induction evs arbitrary: s) (simp_all add: allocated_step)

lemma allocated_init: "allocated init"
  by (simp add: allocated_def init_def)

lemma run_append: "run s (xs @ ys) = run (run s xs) ys"
  by (simp add: run_def)

lemma run_Cons: "run s (ev # evs) = run (step s ev) evs"
  by (simp add: run_def)

lemma run_Nil: "run s [] = s"
  by (simp add: run_def)

subsection \<open>Observations that do not depend on fresh or foreign arrays\<close>

lemma view_cong_heap:
  "\<forall>q \<in> set (rakePaths c). h (points q) = h' (points q) \<Longrightarrow> view h c = view h' c"
  by (simp add: view_def deref_def)

lemma scene_eq_view: "scene s = view (heap s) \<lparr>rakePaths = rakePaths s, placedObjects = placedObjects s\<rparr>"
  by (simp add: scene_def view_def)

lemma history_cong:
  assumes "undoStack s' = undoStack s"
    and "\<forall>c \<in> set (undoStack s). \<forall>q \<in> set (rakePaths c). heap s' (points q) = heap s (points q)"
  shows "history s' = history s"
  using assms by (auto simp: history_def intro: view_cong_heap)


subsection \<open>The updater of the current path\<close>

lemma findIndex_ge_m1: "- 1 \<le> findIndex P xs"
  by (induction xs) (auto simp: Let_def)

lemma findIndex_neg_iff: "findIndex P xs < 0 \<longleftrightarrow> (\<forall>x \<in> set xs. \<not> P x)"
  using findIndex_ge_m1 [of P] by (induction xs) (auto simp: Let_def)

lemma findIndex_update:
  "0 \<le> findIndex P xs \<Longrightarrow> P y \<Longrightarrow> findIndex P (xs[nat (findIndex P xs) := y]) = findIndex P xs"
proof (induction xs)
  case Nil
  then show ?case by simp
next
  case (Cons x xs)
  show ?case
  proof (cases "P x")
    case True
    then show ?thesis using Cons.prems by simp
  next
    case False
    then have nn: "0 \<le> findIndex P xs"
      using Cons.prems by (auto simp: Let_def split: if_splits)
    then have "nat (findIndex P xs + 1) = Suc (nat (findIndex P xs))" by simp
    then show ?thesis
      using False nn Cons.IH [OF nn Cons.prems(2)] by (simp add: Let_def)
  qed
qed

lemma findIndex_snoc_none:
  "findIndex P xs < 0 \<Longrightarrow> P y \<Longrightarrow> findIndex P (xs @ [y]) = int (length xs)"
  by (induction xs) (auto simp: Let_def split: if_splits)

lemma updateCurrentPath_idem:
  "updateCurrentPath cur (updateCurrentPath cur prev) = updateCurrentPath cur prev"
proof (cases "0 \<le> findIndex (\<lambda>q. rid q = rid cur) prev")
  case True
  then show ?thesis
    by (simp add: updateCurrentPath_def Let_def findIndex_update)
next
  case False
  then have "findIndex (\<lambda>q. rid q = rid cur) (prev @ [cur]) = int (length prev)"
    by (intro findIndex_snoc_none) simp_all
  with False show ?thesis
    by (simp add: updateCurrentPath_def Let_def)
qed

lemma findIndex_less_length: "findIndex P xs < int (length xs)"
  by (induction xs) (auto simp: Let_def)

lemma cur_in_updateCurrentPath: "cur \<in> set (updateCurrentPath cur prev)"
proof (cases "0 \<le> findIndex (\<lambda>q. rid q = rid cur) prev")
  case True
  then have "nat (findIndex (\<lambda>q. rid q = rid cur) prev) < length prev"
    using findIndex_less_length [of "\<lambda>q. rid q = rid cur" prev] by simp
  then show ?thesis using True
    by (simp add: updateCurrentPath_def Let_def set_update_memI)
next
  case False
  then show ?thesis by (simp add: updateCurrentPath_def Let_def)
qed


subsection \<open>A rake gesture\<close>

lemma handleMouseMove_raking:
  assumes "tool p = Rake" "canvasRef p = Some cv"
    and "isDrawing s" "currentPathRef s = Some cur" "lastPointRef s = Some lp"
  shows "handleMouseMove p point s =
           (if distance point lp > 3 then
              s\<lparr>heap := (heap s)(points cur := heap s (points cur) @ [point]),
                lastPointRef := Some point,
                rakePaths := updateCurrentPath cur (rakePaths s)\<rparr>
            else s)"
  using assms by (simp add: handleMouseMove_def pointerMove_def)

lemma handleTouchMove_Cons: "handleTouchMove p (t # ts) s = handleMouseMove p t s"
  by (simp add: handleTouchMove_def handleMouseMove_def split: option.splits)

lemma handleTouchStart_Cons: "handleTouchStart p e (t # ts) s = handleMouseDown p e t s"
  by (simp add: handleTouchStart_def handleMouseDown_def split: option.splits)

lemma handleTouchEnd_eq: "handleTouchEnd s = handleMouseUp s"
  by (simp add: handleTouchEnd_def handleMouseUp_def)

lemma moves_raking:
  assumes "tool p = Rake" "canvasRef p = Some cv"
  shows "isDrawing s \<Longrightarrow> currentPathRef s = Some cur \<Longrightarrow> lastPointRef s = Some lp \<Longrightarrow>
         run s (map (MouseMove p) pts) =
           (if debounce lp pts = [] then s
            else s\<lparr>heap := (heap s)(points cur := heap s (points cur) @ debounce lp pts),
                   lastPointRef := Some (last (debounce lp pts)),
                   rakePaths := updateCurrentPath cur (rakePaths s)\<rparr>)"
proof (induction pts arbitrary: s lp)
  case Nil
  show ?case by (simp add: run_Nil)
next
  case (Cons point pts)
  show ?case
  proof (cases "distance point lp > 3")
    case False
    then show ?thesis
      using Cons.IH [OF Cons.prems] handleMouseMove_raking [OF assms Cons.prems, of point]
      by (simp add: run_Cons)
  next
    case True
    let ?s1 = "s\<lparr>heap := (heap s)(points cur := heap s (points cur) @ [point]),
                 lastPointRef := Some point,
                 rakePaths := updateCurrentPath cur (rakePaths s)\<rparr>"
    have 1: "handleMouseMove p point s = ?s1"
      using True handleMouseMove_raking [OF assms Cons.prems, of point] by simp
    have 2: "run ?s1 (map (MouseMove p) pts) =
           (if debounce point pts = [] then ?s1
            else ?s1\<lparr>heap := (heap ?s1)(points cur := heap ?s1 (points cur) @ debounce point pts),
                   lastPointRef := Some (last (debounce point pts)),
                   rakePaths := updateCurrentPath cur (rakePaths ?s1)\<rparr>)"
      using Cons.prems by (intro Cons.IH) simp_all
    show ?thesis
      using True by (simp add: run_Cons 1 2 updateCurrentPath_idem)
  qed
qed

lemma touch_moves_eq:
  "run s (map (\<lambda>(t, ts). TouchMove p (t # ts)) moves) = run s (map (MouseMove p) (map fst moves))"
  by (induction moves arbitrary: s) (auto simp: run_Cons handleTouchMove_Cons)

lemma mutate_RakeMouse:
  "mutate s (RakeMouse cv sel e p0 pts) =
     s\<lparr>undoStack := undoStack (saveState s),
       isDrawing := False, currentPathRef := None, lastPointRef := None,
       heap := (heap s)(nxt s := p0 # debounce p0 pts),
       nxt := Suc (nxt s),
       rakePaths := (if debounce p0 pts = [] then rakePaths s
                     else updateCurrentPath
                            \<lparr>rid = StampId (clock e 0), points = nxt s, width = 8 + val (rnd e 0) * 4\<rparr>
                            (rakePaths s))\<rparr>"
proof -
  let ?p = "\<lparr>canvasRef = Some cv, tool = Rake, selectedObject = sel\<rparr>"
  let ?cur = "\<lparr>rid = StampId (clock e 0), points = nxt s, width = 8 + val (rnd e 0) * 4\<rparr>"
  let ?s1 = "handleMouseDown ?p e p0 s"
  have s1: "?s1 = (saveState s)\<lparr>isDrawing := True, heap := (heap s)(nxt s := [p0]), nxt := Suc (nxt s),
                  currentPathRef := Some ?cur, lastPointRef := Some p0\<rparr>"
    by (simp add: handleMouseDown_def pointerDown_def Let_def)
  have "run ?s1 (map (MouseMove ?p) pts) =
           (if debounce p0 pts = [] then ?s1
            else ?s1\<lparr>heap := (heap ?s1)(points ?cur := heap ?s1 (points ?cur) @ debounce p0 pts),
                   lastPointRef := Some (last (debounce p0 pts)),
                   rakePaths := updateCurrentPath ?cur (rakePaths ?s1)\<rparr>)"
    by (rule moves_raking) (simp_all add: s1)
  then show ?thesis
    by (simp add: mutate_def run_Cons run_append run_Nil Let_def s1 handleMouseUp_def saveState_def)
qed

lemma mutate_RakeTouch:
  "mutate s (RakeTouch cv sel e t0 rest moves) = mutate s (RakeMouse cv sel e t0 (map fst moves))"
  by (simp add: mutate_def run_Cons run_append run_Nil Let_def touch_moves_eq
                handleTouchStart_Cons handleTouchEnd_eq)

subsection \<open>Evaluating concrete runs\<close>

lemma val0: "val (Abs_rand 0) = 0"
  by (simp add: Abs_rand_inverse)

text \<open>
  Between two points on one horizontal line, an integral number of pixels apart, every
  step of the computed distance is exact.
\<close>

lemma distance_horizontal:
  assumes "py a = py b" "px a - px b = of_int m" "\<bar>m\<bar> < 2 ^ 26"
  shows "distance a b = of_int \<bar>m\<bar>"
proof -
  have m53: "\<bar>m\<bar> < 2 ^ 53"
    using assms(3) by simp
  have "\<bar>m\<bar> * \<bar>m\<bar> < 2 ^ 26 * 2 ^ 26"
    using assms(3) by (intro mult_strict_mono) simp_all
  then have sq: "\<bar>m\<^sup>2\<bar> < 2 ^ 53"
    by (simp add: power2_eq_square abs_mult)
  have 1: "fl (px a - px b) = of_int m"
    using fl_of_int [OF m53] assms(2) by simp
  have 2: "fl ((of_int m :: real)\<^sup>2) = of_int (m\<^sup>2)"
    using fl_of_int [OF sq] by simp
  have 3: "sqrt (of_int (m\<^sup>2)) = of_int \<bar>m\<bar>"
    by simp
  have 4: "fl (of_int \<bar>m\<bar>) = of_int \<bar>m\<bar>"
    using fl_of_int [of "\<bar>m\<bar>"] m53 by simp
  show ?thesis
    unfolding distance_def assms(1) 1
    by (simp only: diff_self fl_0 power2_eq_square mult_zero_left add_0_right)
       (use 2 3 4 in \<open>simp add: power2_eq_square\<close>)
qed

lemma distance_numeral [simp]:
  assumes "\<bar>numeral u - numeral v\<bar> < (2::int) ^ 26"
  shows "distance \<lparr>px = numeral u, py = y\<rparr> \<lparr>px = numeral v, py = y\<rparr>
           = of_int \<bar>numeral u - numeral v\<bar>"
proof (rule distance_horizontal)
  show "py \<lparr>px = numeral u, py = y\<rparr> = py \<lparr>px = numeral v, py = y\<rparr>"
    by (simp only: Point.select_convs)
  show "px \<lparr>px = numeral u, py = y\<rparr> - px \<lparr>px = numeral v, py = y\<rparr>
          = real_of_int (numeral u - numeral v)"
    by (simp only: Point.select_convs of_int_diff of_int_numeral)
  show "\<bar>numeral u - numeral v\<bar> < (2::int) ^ 26"
    by (rule assms)
qed

text \<open>
  A move of 3 pixels to the right and \<open>2\<^sup>-\<^sup>3\<^sup>0\<close> pixels down: the sum of the squares,
  \<open>9 + 2\<^sup>-\<^sup>6\<^sup>0\<close>, is rounded to 9, and the computed distance is 3.
\<close>

lemma fl_9_and_a_bit: "fl (9 + 1 / 2 ^ 60) = 9"
proof -
  have "fl (9 + 1 / 2 ^ 60) = of_int (nearest_even ((9 + 1 / 2 ^ 60) / 2 powi (3 - 52))) * 2 powi (3 - 52)"
    by (rule fl_eval) simp_all
  moreover have "nearest_even ((9 + 1 / 2 ^ 60) / 2 powi (3 - 52)) = 9 * 2 ^ 49"
    by (rule nearest_even_near) simp_all
  ultimately show ?thesis by simp
qed

lemma distance_3_and_a_bit:
  "distance \<lparr>px = 13, py = 10 + 1 / 2 ^ 30\<rparr> \<lparr>px = 10, py = 10\<rparr> = 3"
proof -
  have dx: "fl (13 - 10) = 3"
    by simp
  have dy: "fl (10 + 1 / 2 ^ 30 - 10) = 1 / 2 ^ 30"
    using fl_exact [of 1 "- 30"] by simp
  have sx: "fl (3\<^sup>2) = 9"
    by simp
  have sy: "fl ((1 / 2 ^ 30)\<^sup>2) = 1 / 2 ^ 60"
    using fl_exact [of 1 "- 60"] by (simp add: power2_eq_square)
  have rt: "fl (sqrt 9) = 3"
    using real_sqrt_abs [of 3] by simp
  have "distance \<lparr>px = 13, py = 10 + 1 / 2 ^ 30\<rparr> \<lparr>px = 10, py = 10\<rparr>
          = fl (sqrt (fl (fl ((fl (13 - 10))\<^sup>2) + fl ((fl (10 + 1 / 2 ^ 30 - 10))\<^sup>2))))"
    by (simp only: distance_def Point.select_convs)
  also have "\<dots> = fl (sqrt (fl (9 + 1 / 2 ^ 60)))"
    by (simp only: dx dy sx sy)
  also have "\<dots> = 3"
    by (simp only: fl_9_and_a_bit rt)
  finally show ?thesis .
qed

text \<open>
  And the other way round: a move over a Euclidean distance of less than 3 whose computed
  distance is \<open>3 + 2\<^sup>-\<^sup>5\<^sup>1\<close>.  The coordinates are binary64 numbers.
\<close>

lemma distance_3_less_a_bit:
  "distance \<lparr>px = - 3699710934039187 / 2 ^ 52, py = 5870650125649785 / 2 ^ 45\<rparr>
            \<lparr>px = 603204606821025 / 2 ^ 48, py = 2927231584786513 / 2 ^ 44\<rparr>
     = 3 + 1 / 2 ^ 51"
proof -
  let ?xa = "603204606821025 / 2 ^ 48 :: real"
  let ?ya = "2927231584786513 / 2 ^ 44 :: real"
  let ?xb = "- 3699710934039187 / 2 ^ 52 :: real"
  let ?yb = "5870650125649785 / 2 ^ 45 :: real"
  let ?dx = "- 3337746160793897 / 2 ^ 50 :: real"
  let ?dy = "16186956076759 / 2 ^ 45 :: real"
  let ?sx = "2473698897696863 / 2 ^ 48 :: real"
  let ?sy = "3812857132738647 / 2 ^ 54 :: real"
  let ?sm = "5066549580791809 / 2 ^ 49 :: real"
  have dx: "fl (?xb - ?xa) = ?dx"
  proof -
    have "fl (?xb - ?xa) = of_int (nearest_even ((?xb - ?xa) / 2 powi (1 - 52))) * 2 powi (1 - 52)"
      by (rule fl_eval) simp_all
    moreover have "nearest_even ((?xb - ?xa) / 2 powi (1 - 52)) = - 6675492321587794"
      by (rule nearest_even_tie) simp_all
    ultimately show ?thesis by simp
  qed
  have dy: "fl (?yb - ?ya) = ?dy"
  proof -
    have "fl (?yb - ?ya) = of_int (nearest_even ((?yb - ?ya) / 2 powi (- 2 - 52))) * 2 powi (- 2 - 52)"
      by (rule fl_eval) simp_all
    moreover have "nearest_even ((?yb - ?ya) / 2 powi (- 2 - 52)) = 8287721511300608"
      by (rule nearest_even_near) simp_all
    ultimately show ?thesis by simp
  qed
  have sx: "fl (?dx\<^sup>2) = ?sx"
  proof -
    have "fl (?dx\<^sup>2) = of_int (nearest_even (?dx\<^sup>2 / 2 powi (3 - 52))) * 2 powi (3 - 52)"
      by (rule fl_eval) (simp_all add: power2_eq_square)
    moreover have "nearest_even (?dx\<^sup>2 / 2 powi (3 - 52)) = 4947397795393726"
      by (rule nearest_even_near) (simp_all add: power2_eq_square)
    ultimately show ?thesis by simp
  qed
  have sy: "fl (?dy\<^sup>2) = ?sy"
  proof -
    have "fl (?dy\<^sup>2) = of_int (nearest_even (?dy\<^sup>2 / 2 powi (- 3 - 52))) * 2 powi (- 3 - 52)"
      by (rule fl_eval) (simp_all add: power2_eq_square)
    moreover have "nearest_even (?dy\<^sup>2 / 2 powi (- 3 - 52)) = 7625714265477294"
      by (rule nearest_even_near) (simp_all add: power2_eq_square)
    ultimately show ?thesis by simp
  qed
  have sm: "fl (?sx + ?sy) = ?sm"
  proof -
    have "fl (?sx + ?sy) = of_int (nearest_even ((?sx + ?sy) / 2 powi (3 - 52))) * 2 powi (3 - 52)"
      by (rule fl_eval) simp_all
    moreover have "nearest_even ((?sx + ?sy) / 2 powi (3 - 52)) = 5066549580791809"
      by (rule nearest_even_near_below) simp_all
    ultimately show ?thesis by simp
  qed
  have rt: "fl (sqrt ?sm) = 3 + 1 / 2 ^ 51"
  proof -
    have b1: "2 \<le> sqrt ?sm"
      by (rule real_le_rsqrt) simp
    have b2: "sqrt ?sm < 4"
      by (rule real_less_lsqrt) simp_all
    have c1: "(6755399441055745 - 1 / 2) / 2 ^ 51 < sqrt ?sm"
      by (rule real_less_rsqrt) (simp add: power2_eq_square)
    have c2: "sqrt ?sm \<le> 6755399441055745 / 2 ^ 51"
      by (rule real_le_lsqrt) (simp_all add: power2_eq_square)
    have "fl (sqrt ?sm) = of_int (nearest_even (sqrt ?sm / 2 powi (1 - 52))) * 2 powi (1 - 52)"
      using b1 b2 by (intro fl_eval) simp_all
    moreover have "nearest_even (sqrt ?sm / 2 powi (1 - 52)) = 6755399441055745"
      using c1 c2 by (intro nearest_even_near_below) (simp_all add: field_simps)
    ultimately show ?thesis by simp
  qed
  have "distance \<lparr>px = ?xb, py = ?yb\<rparr> \<lparr>px = ?xa, py = ?ya\<rparr>
          = fl (sqrt (fl (fl ((fl (?xb - ?xa))\<^sup>2) + fl ((fl (?yb - ?ya))\<^sup>2))))"
    by (simp only: distance_def Point.select_convs)
  also have "\<dots> = 3 + 1 / 2 ^ 51"
    by (simp only: dx dy sx sy sm rt)
  finally show ?thesis .
qed

lemma euclidean_3_less_a_bit:
  "sqrt ((- 3699710934039187 / 2 ^ 52 - 603204606821025 / 2 ^ 48)\<^sup>2
         + (5870650125649785 / 2 ^ 45 - 2927231584786513 / 2 ^ 44)\<^sup>2) < 3"
  by (rule real_less_lsqrt) (simp_all add: power2_eq_square)

lemmas run_defs = run_def handleMouseDown_def handleMouseMove_def handleMouseUp_def
  handleTouchStart_def handleTouchMove_def handleTouchEnd_def pointerDown_def pointerMove_def
  updateCurrentPath_def clearGarden_def undo_def saveState_def slice_last_def init_def
  rakeProps_def env0_def point_at_def Let_def

lemmas view_defs = history_def view_def deref_def scene_def

subsection \<open>Logical actions and the undo stack\<close>

lemma undoStack_ticks: "undoStack (run s (replicate n (Tick k))) = undoStack s"
  by (induction n arbitrary: s) (simp_all add: run_Cons run_Nil)

lemma undoStack_mutate: "undoStack (mutate s m) = undoStack (saveState s)"
proof (cases m)
  case (RakeMouse cv sel e p0 pts)
  then show ?thesis by (simp add: mutate_RakeMouse)
next
  case (RakeTouch cv sel e t0 rest moves)
  then show ?thesis by (simp add: mutate_RakeTouch mutate_RakeMouse)
next
  case (PlaceMouse cv sel e point)
  then show ?thesis by (simp add: mutate_def run_Cons run_Nil handleMouseDown_def)
next
  case (PlaceTouch cv sel e t0 rest)
  then show ?thesis by (simp add: mutate_def run_Cons run_Nil handleTouchStart_def)
next
  case Reset
  then show ?thesis by (simp add: mutate_def run_Cons run_Nil)
next
  case (Generate cv tl0 sel e)
  then show ?thesis by (simp add: mutate_def run_Cons undoStack_ticks undoStack_generatePattern)
qed

lemma length_slice_last_eq: "length (slice_last n xs) = min n (length xs)"
  by (simp add: slice_last_def)

lemma length_undoStack_saveState_eq:
  "length (undoStack (saveState s)) = min 20 (Suc (length (undoStack s)))"
  by (simp add: undoStack_saveState length_slice_last_eq)

lemma length_undoStack_mutations:
  "length (undoStack s) \<le> 20 \<Longrightarrow>
   length (undoStack (mutations s ms)) = min 20 (length (undoStack s) + length ms)"
  unfolding mutations_def
  by (induction ms arbitrary: s) (simp_all add: undoStack_mutate length_undoStack_saveState_eq)

lemma undo_empty: "undoStack s = [] \<Longrightarrow> undo s = s"
  by (simp add: undo_def)

lemma undoStack_undo_pow: "undoStack ((undo ^^ k) s) = take (length (undoStack s) - k) (undoStack s)"
proof (induction k)
  case 0
  show ?case by simp
next
  case (Suc k)
  show ?case
    by (simp add: undoStack_undo Suc.IH butlast_take)
qed

lemma undo_pow_fixed:
  assumes "length (undoStack s) \<le> m" "m \<le> n"
  shows "(undo ^^ n) s = (undo ^^ m) s"
proof -
  have e: "undoStack ((undo ^^ m) s) = []"
    using assms(1) by (simp add: undoStack_undo_pow)
  have "(undo ^^ (m + d)) s = (undo ^^ m) s" for d
  proof (induction d)
    case 0
    show ?case by simp
  next
    case (Suc d)
    then show ?case using e by (simp add: undo_empty)
  qed
  from this [of "n - m"] assms(2) show ?thesis by simp
qed

text \<open>
  A pointer move and a touch move never assign the undo stack: nothing is pushed and
  nothing is popped, and a whole rake gesture leaves the stack as its pointer-down made
  it, one snapshot pushed.  Read through the store, the snapshots are unchanged by a move
  when the points array of the current path is in none of them.
\<close>

lemma moves_keep_undoStack:
  "undoStack (handleMouseMove p point s) = undoStack s \<and>
   undoStack (handleTouchMove p touches s) = undoStack s \<and>
   undoStack (mutate s (RakeMouse cv sel e p0 pts))
     = undoStack (handleMouseDown \<lparr>canvasRef = Some cv, tool = Rake, selectedObject = sel\<rparr> e p0 s) \<and>
   undoStack (mutate s (RakeTouch cv sel e t0 rest moves))
     = undoStack (handleTouchStart \<lparr>canvasRef = Some cv, tool = Rake, selectedObject = sel\<rparr> e (t0 # rest) s) \<and>
   length (undoStack (mutate s (RakeMouse cv sel e p0 pts))) = min 20 (Suc (length (undoStack s))) \<and>
   length (undoStack (mutate s (RakeTouch cv sel e t0 rest moves))) = min 20 (Suc (length (undoStack s)))"
  by (simp add: mutate_RakeTouch mutate_RakeMouse handleMouseDown_def handleTouchStart_def
                length_undoStack_saveState_eq)

lemma moves_keep_unshared_history:
  assumes "\<forall>c \<in> set (undoStack s). \<forall>q \<in> set (rakePaths c).
             Some (points q) \<noteq> map_option points (currentPathRef s)"
  shows "history (handleMouseMove p point s) = history s"
    and "history (handleTouchMove p touches s) = history s"
proof -
  have deep: "history (pointerMove point' s) = history s" for point'
    using assms by (intro history_cong) (auto simp: pointerMove_def split: option.splits)
  show "history (handleMouseMove p point s) = history s"
    using deep by (simp add: handleMouseMove_def split: option.splits)
  show "history (handleTouchMove p touches s) = history s"
    using deep by (simp add: handleTouchMove_def split: option.splits)
qed

text \<open>
  C10, the failing run: a pointer goes down at (10, 10) with the rake and moves to
  (20, 10); the garden is reset while the gesture is still in progress.  The undo stack
  now holds two snapshots, the second with the groove of two points.  The pointer moves on
  to (30, 10): the stack has the same two entries, nothing pushed and nothing popped, but
  the contents of the second snapshot are no longer what they were; its groove has three
  points.
\<close>

theorem C10_move_changes_history:
  "undoStack (run init [MouseDown rakeProps env0 (point_at 10 10), MouseMove rakeProps (point_at 20 10),
                        ClearGarden, MouseMove rakeProps (point_at 30 10)])
     = undoStack (run init [MouseDown rakeProps env0 (point_at 10 10), MouseMove rakeProps (point_at 20 10),
                            ClearGarden]) \<and>
   length (undoStack (run init [MouseDown rakeProps env0 (point_at 10 10),
                                MouseMove rakeProps (point_at 20 10), ClearGarden])) = 2 \<and>
   map (map points \<circ> fst)
     (history (run init [MouseDown rakeProps env0 (point_at 10 10), MouseMove rakeProps (point_at 20 10),
                         ClearGarden]))
     = [ [], [ [point_at 10 10, point_at 20 10] ] ] \<and>
   map (map points \<circ> fst)
     (history (run init [MouseDown rakeProps env0 (point_at 10 10), MouseMove rakeProps (point_at 20 10),
                         ClearGarden, MouseMove rakeProps (point_at 30 10)]))
     = [ [], [ [point_at 10 10, point_at 20 10, point_at 30 10] ] ] \<and>
   history (run init [MouseDown rakeProps env0 (point_at 10 10), MouseMove rakeProps (point_at 20 10),
                      ClearGarden, MouseMove rakeProps (point_at 30 10)])
     \<noteq> history (run init [MouseDown rakeProps env0 (point_at 10 10), MouseMove rakeProps (point_at 20 10),
                           ClearGarden])"
  by (simp add: run_defs view_defs)

lemma undo_nonempty:
  "undoStack s \<noteq> [] \<Longrightarrow>
   undo s = s\<lparr>rakePaths := rakePaths (last (undoStack s)),
              placedObjects := placedObjects (last (undoStack s)),
              undoStack := butlast (undoStack s)\<rparr>"
  by (simp add: undo_def Let_def last_conv_nth butlast_conv_take)

text \<open>
  C2: the undo stack never holds more than 20 snapshots, in any state the hook can reach.
  A push onto a full stack drops the oldest snapshot and a push onto a shorter stack
  drops nothing; an undo removes the newest snapshot and makes it the scene; an undo on
  the empty stack changes nothing; no event does anything to the stack but leave it,
  pop it or push the current scene, so a popped snapshot is gone.  After 25 logical
  actions the stack holds exactly 20 snapshots, the first 20 undos each find a snapshot,
  the stack is then empty and every further undo changes nothing.
\<close>

theorem C2_history_bounded:
  "length (undoStack (run init evs)) \<le> 20 \<and>
   (length (undoStack s) = 20 \<longrightarrow>
      undoStack (saveState s)
        = tl (undoStack s) @ [\<lparr>rakePaths = rakePaths s, placedObjects = placedObjects s\<rparr>]) \<and>
   (length (undoStack s) < 20 \<longrightarrow>
      undoStack (saveState s)
        = undoStack s @ [\<lparr>rakePaths = rakePaths s, placedObjects = placedObjects s\<rparr>]) \<and>
   (undoStack s \<noteq> [] \<longrightarrow>
      undoStack (undo s) = butlast (undoStack s) \<and>
      rakePaths (undo s) = rakePaths (last (undoStack s)) \<and>
      placedObjects (undo s) = placedObjects (last (undoStack s))) \<and>
   (undoStack s = [] \<longrightarrow> undo s = s) \<and>
   (undoStack (step s ev) = undoStack s \<or>
    undoStack (step s ev) = butlast (undoStack s) \<or>
    undoStack (step s ev) = undoStack (saveState s)) \<and>
   (length ms = 25 \<longrightarrow>
      length (undoStack (mutations init ms)) = 20 \<and>
      (\<forall>k < 20. undoStack ((undo ^^ k) (mutations init ms)) \<noteq> []) \<and>
      undoStack ((undo ^^ 20) (mutations init ms)) = [] \<and>
      (\<forall>n \<ge> 20. (undo ^^ n) (mutations init ms) = (undo ^^ 20) (mutations init ms)))"
proof -
  have bound: "length (undoStack (run init evs)) \<le> 20"
    by (rule length_undoStack_run) (simp add: init_def)
  have full: "undoStack (saveState s)
        = tl (undoStack s) @ [\<lparr>rakePaths = rakePaths s, placedObjects = placedObjects s\<rparr>]"
    if "length (undoStack s) = 20"
    using that by (simp add: undoStack_saveState slice_last_snoc_full)
  have short: "undoStack (saveState s)
        = undoStack s @ [\<lparr>rakePaths = rakePaths s, placedObjects = placedObjects s\<rparr>]"
    if "length (undoStack s) < 20"
    using that by (simp add: undoStack_saveState slice_last_short)
  have pop: "undoStack (undo s) = butlast (undoStack s) \<and>
      rakePaths (undo s) = rakePaths (last (undoStack s)) \<and>
      placedObjects (undo s) = placedObjects (last (undoStack s))"
    if "undoStack s \<noteq> []"
    using that by (simp add: undo_nonempty)
  have many: "length (undoStack (mutations init ms)) = 20 \<and>
      (\<forall>k < 20. undoStack ((undo ^^ k) (mutations init ms)) \<noteq> []) \<and>
      undoStack ((undo ^^ 20) (mutations init ms)) = [] \<and>
      (\<forall>n \<ge> 20. (undo ^^ n) (mutations init ms) = (undo ^^ 20) (mutations init ms))"
    if "length ms = 25"
  proof -
    have len: "length (undoStack (mutations init ms)) = 20"
      using that length_undoStack_mutations [of init ms] by (simp add: init_def)
    have "undoStack ((undo ^^ k) (mutations init ms)) \<noteq> []" if "k < 20" for k
      using that len by (auto simp: undoStack_undo_pow)
    moreover have "undoStack ((undo ^^ 20) (mutations init ms)) = []"
      using len by (simp add: undoStack_undo_pow)
    moreover have "(undo ^^ n) (mutations init ms) = (undo ^^ 20) (mutations init ms)" if "20 \<le> n" for n
      using that len by (intro undo_pow_fixed) simp_all
    ultimately show ?thesis using len by blast
  qed
  show ?thesis
  proof (intro conjI impI)
    show "length (undoStack (run init evs)) \<le> 20" by (rule bound)
    show "undoStack (step s ev) = undoStack s \<or>
          undoStack (step s ev) = butlast (undoStack s) \<or>
          undoStack (step s ev) = undoStack (saveState s)"
      by (rule step_undoStack_cases)
  qed (use full short pop many undo_empty [of s] in blast)+
qed

theorem C2_history_bounded_witness:
  "length (undoStack (mutations init (replicate 25 Reset))) = 20 \<and>
   undoStack ((undo ^^ 20) (mutations init (replicate 25 Reset))) = [] \<and>
   (undo ^^ 21) (mutations init (replicate 25 Reset)) = (undo ^^ 20) (mutations init (replicate 25 Reset))"
proof -
  define ms where "ms = replicate 25 Reset"
  have "length ms = 25" by (simp add: ms_def)
  with C2_history_bounded [of "[]" init ClearGarden ms]
  have *: "length (undoStack (mutations init ms)) = 20 \<and>
      (\<forall>k < 20. undoStack ((undo ^^ k) (mutations init ms)) \<noteq> []) \<and>
      undoStack ((undo ^^ 20) (mutations init ms)) = [] \<and>
      (\<forall>n \<ge> 20. (undo ^^ n) (mutations init ms) = (undo ^^ 20) (mutations init ms))"
    by blast
  then have "20 \<le> (21::nat) \<longrightarrow> (undo ^^ 21) (mutations init ms) = (undo ^^ 20) (mutations init ms)"
    by blast
  then have "(undo ^^ 21) (mutations init ms) = (undo ^^ 20) (mutations init ms)"
    by linarith
  with * show ?thesis unfolding ms_def by blast
qed

subsection \<open>Mutating events\<close>

lemma undoStack_mutating:
  "mutating ev \<Longrightarrow> undoStack (step s ev) = undoStack (saveState s)"
  by (cases ev) (auto simp: handleMouseDown_def handleTouchStart_def undoStack_generatePattern
                      split: list.splits)

lemma heap_old_mutating:
  "mutating ev \<Longrightarrow> a < nxt s \<Longrightarrow> heap (step s ev) a = heap s a"
  by (cases ev)
     (auto simp: handleMouseDown_def handleTouchStart_def pointerDown_def Let_def clearGarden_def
                 generatePattern_heap_old
           split: list.splits Tool.splits)

lemma scene_undo:
  "undoStack s \<noteq> [] \<Longrightarrow> scene (undo s) = view (heap s) (last (undoStack s))"
  by (simp add: undo_nonempty scene_def view_def)

lemma history_undo: "history (undo s) = butlast (history s)"
  by (cases "undoStack s = []") (simp_all add: undo_empty history_def undo_nonempty map_butlast)

lemma pushed_snapshot_views_scene:
  assumes "mutating ev" "allocated s"
  shows "view (heap (step s ev)) \<lparr>rakePaths = rakePaths s, placedObjects = placedObjects s\<rparr> = scene s"
proof -
  have "\<forall>q \<in> set (rakePaths s). heap (step s ev) (points q) = heap s (points q)"
    using assms by (auto simp: allocated_def heap_old_mutating)
  then show ?thesis
    by (simp add: scene_def view_def deref_def)
qed

text \<open>
  C3: every mutating operation (a pointer or touch going down with the rake or the place
  tool, a reset, a pattern generation) pushes one snapshot of the scene as it was when the
  operation began, and nothing else happens to the undo stack.  In every state the hook
  can reach, the newest snapshot after the operation shows the scene from before the
  operation, so that an undo right after it brings that scene back.
\<close>

theorem C3_snapshot_before_mutation:
  assumes "mutating ev"
  shows "undoStack (step s ev)
           = slice_last 20 (undoStack s @ [\<lparr>rakePaths = rakePaths s, placedObjects = placedObjects s\<rparr>]) \<and>
         last (undoStack (step s ev)) = \<lparr>rakePaths = rakePaths s, placedObjects = placedObjects s\<rparr> \<and>
         length (undoStack (step s ev)) = min 20 (Suc (length (undoStack s))) \<and>
         last (history (step (run init evs) ev)) = scene (run init evs) \<and>
         scene (undo (step (run init evs) ev)) = scene (run init evs)"
proof -
  let ?snap = "\<lambda>s. \<lparr>rakePaths = rakePaths s, placedObjects = placedObjects s\<rparr>"
  have stack: "undoStack (step s ev) = slice_last 20 (undoStack s @ [?snap s])" for s
    using assms by (simp add: undoStack_mutating undoStack_saveState)
  have ne: "undoStack (step s ev) \<noteq> []" and lst: "last (undoStack (step s ev)) = ?snap s" for s
    by (simp_all add: stack slice_last_snoc_ne slice_last_snoc_last)
  have len: "length (undoStack (step s ev)) = min 20 (Suc (length (undoStack s)))"
    by (simp add: stack length_slice_last_eq)
  let ?r = "run init evs"
  have al: "allocated ?r"
    by (intro allocated_run allocated_init)
  have v: "view (heap (step ?r ev)) (?snap ?r) = scene ?r"
    using assms al by (rule pushed_snapshot_views_scene)
  have "last (history (step ?r ev)) = view (heap (step ?r ev)) (last (undoStack (step ?r ev)))"
    using ne [of ?r] by (simp add: history_def last_map)
  then have h: "last (history (step ?r ev)) = scene ?r"
    by (simp add: lst v)
  have u: "scene (undo (step ?r ev)) = scene ?r"
    using ne [of ?r] by (simp add: scene_undo lst v)
  show ?thesis
    using stack [of s] lst [of s] len h u by blast
qed

theorem C3_snapshot_before_mutation_witness:
  "mutating ClearGarden \<and>
   last (undoStack (step init ClearGarden)) = \<lparr>rakePaths = rakePaths init, placedObjects = placedObjects init\<rparr> \<and>
   length (undoStack (step init ClearGarden)) = 1"
proof -
  have m: "mutating ClearGarden" by simp
  have u: "undoStack init = []" by (simp add: init_def)
  from C3_snapshot_before_mutation [OF m, of init "[]"]
  have "last (undoStack (step init ClearGarden))
          = \<lparr>rakePaths = rakePaths init, placedObjects = placedObjects init\<rparr> \<and>
        length (undoStack (step init ClearGarden)) = min 20 (Suc (length (undoStack init)))"
    by blast
  with m show ?thesis by (simp only: u list.size) simp
qed

subsection \<open>The debounce rule\<close>

lemma debounce_subseq: "subseq (debounce lp pts) pts"
  by (induction pts arbitrary: lp) (auto intro: subseq_Cons')

lemma debounce_apart: "successively (\<lambda>a b. distance b a > 3) (lp # debounce lp pts)"
  by (induction pts arbitrary: lp) simp_all

lemma debounce_none: "\<forall>point \<in> set pts. \<not> distance point lp > 3 \<Longrightarrow> debounce lp pts = []"
  by (induction pts) auto

lemma scene_mutate_RakeMouse:
  "debounce p0 pts \<noteq> [] \<Longrightarrow>
   \<lparr>rid = StampId (clock e 0), points = p0 # debounce p0 pts, width = 8 + val (rnd e 0) * 4\<rparr>
     \<in> set (fst (scene (mutate s (RakeMouse cv sel e p0 pts))))"
proof -
  let ?cur = "\<lparr>rid = StampId (clock e 0), points = nxt s, width = 8 + val (rnd e 0) * 4\<rparr>"
  let ?s' = "mutate s (RakeMouse cv sel e p0 pts)"
  assume "debounce p0 pts \<noteq> []"
  then have "?cur \<in> set (rakePaths ?s')"
    by (simp add: mutate_RakeMouse cur_in_updateCurrentPath)
  then have "deref (heap ?s') ?cur \<in> set (fst (scene ?s'))"
    by (simp add: scene_def)
  moreover have "heap ?s' (nxt s) = p0 # debounce p0 pts"
    by (simp add: mutate_RakeMouse)
  ultimately show ?thesis by (simp add: deref_def)
qed

text \<open>
  C5, as the code has it: during a rake gesture a moved-to point is appended to the
  current groove if and only if its distance from the last recorded point, as the code
  computes it in binary64, is more than 3, by mouse and by touch alike.  After the gesture
  the points array of the groove holds the starting point followed by the recorded points,
  in call order (a subsequence of the moves), each at a computed distance of more than 3
  from the one before it, and when at least one point was recorded the scene holds the
  groove with exactly these points.
\<close>

theorem C5_rake_debounce:
  "(tool p = Rake \<and> canvasRef p = Some c \<and> isDrawing s \<and>
    currentPathRef s = Some cur \<and> lastPointRef s = Some lp \<longrightarrow>
      heap (handleMouseMove p point s) (points cur)
        = (if distance point lp > 3 then heap s (points cur) @ [point] else heap s (points cur)) \<and>
      heap (handleTouchMove p (point # ts) s) (points cur)
        = (if distance point lp > 3 then heap s (points cur) @ [point] else heap s (points cur)) \<and>
      lastPointRef (handleMouseMove p point s) = Some (if distance point lp > 3 then point else lp) \<and>
      lastPointRef (handleTouchMove p (point # ts) s) = Some (if distance point lp > 3 then point else lp)) \<and>
   heap (mutate s (RakeMouse cv sel e p0 pts)) (nxt s) = p0 # debounce p0 pts \<and>
   heap (mutate s (RakeTouch cv sel e p0 rest moves)) (nxt s) = p0 # debounce p0 (map fst moves) \<and>
   (debounce p0 pts \<noteq> [] \<longrightarrow>
      \<lparr>rid = StampId (clock e 0), points = p0 # debounce p0 pts, width = 8 + val (rnd e 0) * 4\<rparr>
        \<in> set (fst (scene (mutate s (RakeMouse cv sel e p0 pts))))) \<and>
   (debounce p0 (map fst moves) \<noteq> [] \<longrightarrow>
      \<lparr>rid = StampId (clock e 0), points = p0 # debounce p0 (map fst moves), width = 8 + val (rnd e 0) * 4\<rparr>
        \<in> set (fst (scene (mutate s (RakeTouch cv sel e p0 rest moves))))) \<and>
   subseq (debounce p0 pts) pts \<and>
   successively (\<lambda>a b. distance b a > 3) (p0 # debounce p0 pts)"
proof -
  have move: "heap (handleMouseMove p point s) (points cur)
        = (if distance point lp > 3 then heap s (points cur) @ [point] else heap s (points cur)) \<and>
      heap (handleTouchMove p (point # ts) s) (points cur)
        = (if distance point lp > 3 then heap s (points cur) @ [point] else heap s (points cur)) \<and>
      lastPointRef (handleMouseMove p point s) = Some (if distance point lp > 3 then point else lp) \<and>
      lastPointRef (handleTouchMove p (point # ts) s) = Some (if distance point lp > 3 then point else lp)"
    if "tool p = Rake" "canvasRef p = Some c" "isDrawing s" "currentPathRef s = Some cur"
       "lastPointRef s = Some lp"
    using that handleMouseMove_raking [OF that, of point]
    by (simp add: handleTouchMove_Cons)
  have mouse: "heap (mutate s (RakeMouse cv sel e p0 pts)) (nxt s) = p0 # debounce p0 pts" for pts
    by (simp add: mutate_RakeMouse)
  show ?thesis
    using move mouse [of pts] mouse [of "map fst moves"]
      scene_mutate_RakeMouse [of p0 pts e s cv sel]
      scene_mutate_RakeMouse [of p0 "map fst moves" e s cv sel]
      debounce_subseq [of p0 pts] debounce_apart [of p0 pts]
    by (simp only: mutate_RakeTouch) blast
qed

theorem C5_rake_debounce_witness:
  "\<lparr>rid = StampId 0, points = [point_at 10 10, point_at 20 10], width = 8\<rparr>
     \<in> set (fst (scene (mutate init (RakeMouse canvas800 Stone env0 (point_at 10 10) [point_at 20 10])))) \<and>
   \<lparr>rid = StampId 0, points = [point_at 10 10, point_at 20 10], width = 8\<rparr>
     \<in> set (fst (scene (mutate init (RakeTouch canvas800 Stone env0 (point_at 10 10) []
                                        [(point_at 20 10, [])])))) \<and>
   heap (handleMouseMove rakeProps (point_at 20 10) (handleMouseDown rakeProps env0 (point_at 10 10) init)) 0
     = [point_at 10 10, point_at 20 10] \<and>
   heap (handleMouseMove rakeProps (point_at 11 10) (handleMouseDown rakeProps env0 (point_at 10 10) init)) 0
     = [point_at 10 10]"
proof -
  let ?moves = "[(point_at 20 10, [] :: Point list)]"
  let ?s = "handleMouseDown rakeProps env0 (point_at 10 10) init"
  let ?cur = "\<lparr>rid = StampId 0, points = 0 :: addr, width = 8\<rparr>"
  have d: "debounce (point_at 10 10) [point_at 20 10] = [point_at 20 10]"
    by (simp add: point_at_def)
  have ne: "debounce (point_at 10 10) [point_at 20 10] \<noteq> []"
    and ne': "debounce (point_at 10 10) (map fst ?moves) \<noteq> []"
    by (simp_all add: point_at_def)
  have d': "debounce (point_at 10 10) (map fst ?moves) = [point_at 20 10]"
    by (simp add: point_at_def)
  have far: "distance (point_at 20 10) (point_at 10 10) > 3"
    and near: "\<not> distance (point_at 11 10) (point_at 10 10) > 3"
    by (simp_all add: point_at_def)
  have raking: "tool rakeProps = Rake \<and> canvasRef rakeProps = Some canvas800 \<and> isDrawing ?s \<and>
                currentPathRef ?s = Some ?cur \<and> lastPointRef ?s = Some (point_at 10 10)"
    by (simp add: run_defs val0)
  have h0: "heap ?s (points ?cur) = [point_at 10 10]"
    by (simp add: run_defs)
  note a = C5_rake_debounce [where p = rakeProps and c = canvas800 and s = ?s and cur = ?cur
             and lp = "point_at 10 10" and point = "point_at 20 10" and ts = "[]"
             and cv = canvas800 and sel = Stone and e = env0 and ?p0.0 = "point_at 10 10"
             and pts = "[point_at 20 10]" and rest = "[]" and moves = ?moves]
  note b = C5_rake_debounce [where p = rakeProps and c = canvas800 and s = ?s and cur = ?cur
             and lp = "point_at 10 10" and point = "point_at 11 10" and ts = "[]"
             and cv = canvas800 and sel = Stone and e = env0 and ?p0.0 = "point_at 10 10"
             and pts = "[point_at 20 10]" and rest = "[]" and moves = ?moves]
  note c = C5_rake_debounce [where p = rakeProps and c = canvas800 and s = init and cur = ?cur
             and lp = "point_at 10 10" and point = "point_at 20 10" and ts = "[]"
             and cv = canvas800 and sel = Stone and e = env0 and ?p0.0 = "point_at 10 10"
             and pts = "[point_at 20 10]" and rest = "[]" and moves = ?moves]
  have 1: "\<lparr>rid = StampId (clock env0 0),
            points = point_at 10 10 # debounce (point_at 10 10) [point_at 20 10],
            width = 8 + val (rnd env0 0) * 4\<rparr>
        \<in> set (fst (scene (mutate init (RakeMouse canvas800 Stone env0 (point_at 10 10) [point_at 20 10]))))"
    using c ne by blast
  have 2: "\<lparr>rid = StampId (clock env0 0),
            points = point_at 10 10 # debounce (point_at 10 10) (map fst ?moves),
            width = 8 + val (rnd env0 0) * 4\<rparr>
        \<in> set (fst (scene (mutate init (RakeTouch canvas800 Stone env0 (point_at 10 10) []
                                           ?moves))))"
  proof -
    from c have "debounce (point_at 10 10) (map fst ?moves) \<noteq> [] \<longrightarrow>
        \<lparr>rid = StampId (clock env0 0),
         points = point_at 10 10 # debounce (point_at 10 10) (map fst ?moves),
         width = 8 + val (rnd env0 0) * 4\<rparr>
        \<in> set (fst (scene (mutate init (RakeTouch canvas800 Stone env0 (point_at 10 10) []
                                           ?moves))))"
      by (elim conjE)
    with ne' show ?thesis by (rule_tac mp)
  qed
  have 3: "heap (handleMouseMove rakeProps (point_at 20 10) ?s) (points ?cur)
             = (if distance (point_at 20 10) (point_at 10 10) > 3
                then heap ?s (points ?cur) @ [point_at 20 10] else heap ?s (points ?cur))"
    using a raking by blast
  have 4: "heap (handleMouseMove rakeProps (point_at 11 10) ?s) (points ?cur)
             = (if distance (point_at 11 10) (point_at 10 10) > 3
                then heap ?s (points ?cur) @ [point_at 11 10] else heap ?s (points ?cur))"
    using b raking by blast
  have m1: "heap (handleMouseMove rakeProps (point_at 20 10) ?s) 0 = [point_at 10 10, point_at 20 10]"
    using 3 far h0 by simp
  have m2: "heap (handleMouseMove rakeProps (point_at 11 10) ?s) 0 = [point_at 10 10]"
    using 4 near h0 by simp
  from 1 2 m1 m2 show ?thesis
    unfolding d d' by (simp add: env0_def val0)
qed

text \<open>
  The computed distance is not the Euclidean distance.  From (10, 10) to
  (13, 10 + \<open>2\<^sup>-\<^sup>3\<^sup>0\<close>) the Euclidean distance is more than 3; the sum of the squares is
  rounded to 9, the computed distance is 3, and the point is not recorded.  Between the
  two other points, binary64 numbers all four coordinates, the Euclidean distance is less
  than 3; the computed distance is \<open>3 + 2\<^sup>-\<^sup>5\<^sup>1\<close>, and the point is recorded.
\<close>

theorem C5_euclidean_distance_counterexample:
  "3 < sqrt ((px (point_at 13 (10 + 1 / 2 ^ 30)) - px (point_at 10 10))\<^sup>2
             + (py (point_at 13 (10 + 1 / 2 ^ 30)) - py (point_at 10 10))\<^sup>2) \<and>
   \<not> distance (point_at 13 (10 + 1 / 2 ^ 30)) (point_at 10 10) > 3 \<and>
   heap (mutate init (RakeMouse canvas800 Stone env0 (point_at 10 10) [point_at 13 (10 + 1 / 2 ^ 30)]))
        (nxt init) = [point_at 10 10] \<and>
   rakePaths (mutate init (RakeMouse canvas800 Stone env0 (point_at 10 10) [point_at 13 (10 + 1 / 2 ^ 30)]))
     = [] \<and>
   sqrt ((px (point_at (- 3699710934039187 / 2 ^ 52) (5870650125649785 / 2 ^ 45))
            - px (point_at (603204606821025 / 2 ^ 48) (2927231584786513 / 2 ^ 44)))\<^sup>2
         + (py (point_at (- 3699710934039187 / 2 ^ 52) (5870650125649785 / 2 ^ 45))
              - py (point_at (603204606821025 / 2 ^ 48) (2927231584786513 / 2 ^ 44)))\<^sup>2) < 3 \<and>
   distance (point_at (- 3699710934039187 / 2 ^ 52) (5870650125649785 / 2 ^ 45))
            (point_at (603204606821025 / 2 ^ 48) (2927231584786513 / 2 ^ 44)) > 3 \<and>
   heap (mutate init (RakeMouse canvas800 Stone env0
                        (point_at (603204606821025 / 2 ^ 48) (2927231584786513 / 2 ^ 44))
                        [point_at (- 3699710934039187 / 2 ^ 52) (5870650125649785 / 2 ^ 45)]))
        (nxt init)
     = [point_at (603204606821025 / 2 ^ 48) (2927231584786513 / 2 ^ 44),
        point_at (- 3699710934039187 / 2 ^ 52) (5870650125649785 / 2 ^ 45)]"
proof -
  have "sqrt 9 < sqrt (9 + (1 / 2 ^ 30)\<^sup>2)"
    by (subst real_sqrt_less_iff) simp
  moreover have "sqrt 9 = 3"
    using real_sqrt_abs [of 3] by simp
  ultimately have far: "3 < sqrt ((px (point_at 13 (10 + 1 / 2 ^ 30)) - px (point_at 10 10))\<^sup>2
             + (py (point_at 13 (10 + 1 / 2 ^ 30)) - py (point_at 10 10))\<^sup>2)"
    by (simp add: point_at_def)
  have d: "distance (point_at 13 (10 + 1 / 2 ^ 30)) (point_at 10 10) = 3"
    unfolding point_at_def by (rule distance_3_and_a_bit)
  then have "debounce (point_at 10 10) [point_at 13 (10 + 1 / 2 ^ 30)] = []"
    by simp
  then have dropped:
    "heap (mutate init (RakeMouse canvas800 Stone env0 (point_at 10 10) [point_at 13 (10 + 1 / 2 ^ 30)]))
        (nxt init) = [point_at 10 10] \<and>
     rakePaths (mutate init (RakeMouse canvas800 Stone env0 (point_at 10 10) [point_at 13 (10 + 1 / 2 ^ 30)]))
       = []"
    by (simp add: mutate_RakeMouse init_def)
  let ?a = "point_at (603204606821025 / 2 ^ 48) (2927231584786513 / 2 ^ 44)"
  let ?b = "point_at (- 3699710934039187 / 2 ^ 52) (5870650125649785 / 2 ^ 45)"
  have near: "sqrt ((px ?b - px ?a)\<^sup>2 + (py ?b - py ?a)\<^sup>2) < 3"
    unfolding point_at_def Point.select_convs by (rule euclidean_3_less_a_bit)
  have "distance ?b ?a = 3 + 1 / 2 ^ 51"
    unfolding point_at_def by (rule distance_3_less_a_bit)
  then have d': "distance ?b ?a > 3"
    by simp
  then have "debounce ?a [?b] = [?b]"
    by simp
  then have recorded: "heap (mutate init (RakeMouse canvas800 Stone env0 ?a [?b])) (nxt init) = [?a, ?b]"
    by (simp only: mutate_RakeMouse) simp
  from far d dropped near d' recorded show ?thesis
    by (simp only: simp_thms order.strict_implies_not_eq less_irrefl) 
qed

text \<open>
  C6, as the code has it: a rake gesture none of whose moves is at a computed distance of
  more than 3 from the starting point leaves the grooves and the objects of the scene as
  they were.  Its one-point path is held by \<open>currentPathRef\<close> alone, so nothing new is there
  to be drawn.  The gesture still pushes one snapshot: the stack grows by one entry while
  it holds fewer than 20, and stays at 20 otherwise.
\<close>

theorem C6_gesture_below_threshold:
  assumes "\<forall>point \<in> set pts. \<not> distance point p0 > 3"
  shows "rakePaths (mutate s (RakeMouse cv sel e p0 pts)) = rakePaths s \<and>
         placedObjects (mutate s (RakeMouse cv sel e p0 pts)) = placedObjects s \<and>
         rakePaths (mutate s (RakeTouch cv sel e p0 rest (map (\<lambda>point. (point, [])) pts))) = rakePaths s \<and>
         placedObjects (mutate s (RakeTouch cv sel e p0 rest (map (\<lambda>point. (point, [])) pts))) = placedObjects s \<and>
         heap (mutate s (RakeMouse cv sel e p0 pts)) (nxt s) = [p0] \<and>
         scene (mutate (run init evs) (RakeMouse cv sel e p0 pts)) = scene (run init evs) \<and>
         drawRakeGrooves (mutate (run init evs) (RakeMouse cv sel e p0 pts)) = drawRakeGrooves (run init evs) \<and>
         undoStack (mutate s (RakeMouse cv sel e p0 pts))
           = slice_last 20 (undoStack s @ [\<lparr>rakePaths = rakePaths s, placedObjects = placedObjects s\<rparr>]) \<and>
         length (undoStack (mutate s (RakeMouse cv sel e p0 pts))) = min 20 (Suc (length (undoStack s)))"
proof -
  have d: "debounce p0 pts = []"
    using assms by (rule debounce_none)
  let ?r = "run init evs"
  have "allocated ?r" by (intro allocated_run allocated_init)
  then have "\<forall>q \<in> set (rakePaths ?r). points q \<noteq> nxt ?r"
    by (fastforce simp: allocated_def)
  then have sc: "scene (mutate ?r (RakeMouse cv sel e p0 pts)) = scene ?r"
    by (simp add: mutate_RakeMouse d scene_def deref_def)
  then have dr: "drawRakeGrooves (mutate ?r (RakeMouse cv sel e p0 pts)) = drawRakeGrooves ?r"
    by (simp add: drawRakeGrooves_def)
  have m': "map (fst \<circ> (\<lambda>point. (point, []))) pts = pts"
    by (simp add: comp_def)
  have rest: "rakePaths (mutate s (RakeMouse cv sel e p0 pts)) = rakePaths s \<and>
         placedObjects (mutate s (RakeMouse cv sel e p0 pts)) = placedObjects s \<and>
         rakePaths (mutate s (RakeTouch cv sel e p0 rest (map (\<lambda>point. (point, [])) pts))) = rakePaths s \<and>
         placedObjects (mutate s (RakeTouch cv sel e p0 rest (map (\<lambda>point. (point, [])) pts))) = placedObjects s \<and>
         heap (mutate s (RakeMouse cv sel e p0 pts)) (nxt s) = [p0] \<and>
         undoStack (mutate s (RakeMouse cv sel e p0 pts))
           = slice_last 20 (undoStack s @ [\<lparr>rakePaths = rakePaths s, placedObjects = placedObjects s\<rparr>]) \<and>
         length (undoStack (mutate s (RakeMouse cv sel e p0 pts))) = min 20 (Suc (length (undoStack s)))"
    by (simp add: mutate_RakeTouch m' mutate_RakeMouse d undoStack_saveState length_slice_last_eq)
  show ?thesis
    using sc dr rest by blast
qed

theorem C6_gesture_below_threshold_witness:
  "rakePaths (mutate init (RakeMouse canvas800 Stone env0 (point_at 10 10) [point_at 11 10])) = [] \<and>
   length (undoStack (mutate init (RakeMouse canvas800 Stone env0 (point_at 10 10) [point_at 11 10]))) = 1"
proof -
  have "\<forall>point \<in> set [point_at 11 10]. \<not> distance point (point_at 10 10) > 3"
    by (simp add: point_at_def)
  from C6_gesture_below_threshold [OF this, of init canvas800 Stone env0 "[]" "[]"]
  have "rakePaths (mutate init (RakeMouse canvas800 Stone env0 (point_at 10 10) [point_at 11 10]))
          = rakePaths init \<and>
        length (undoStack (mutate init (RakeMouse canvas800 Stone env0 (point_at 10 10) [point_at 11 10])))
          = min 20 (Suc (length (undoStack init)))"
    by blast
  moreover have "rakePaths init = []" "undoStack init = []"
    by (simp_all add: init_def)
  ultimately show ?thesis by simp
qed

theorem C6_one_point_path_counterexample:
  "fst (scene (mutate init (RakeMouse canvas800 Stone env0 (point_at 10 10) [point_at 11 10]))) = []"
proof -
  have "debounce (point_at 10 10) [point_at 11 10] = []"
    by (simp add: point_at_def)
  then show ?thesis
    by (simp add: mutate_RakeMouse scene_def init_def)
qed

text \<open>
  C4, the failing run: a pointer goes down at (10, 10) with the rake and moves to
  (20, 10); the garden is reset while the gesture is still in progress; the pointer moves
  on to (30, 10).  The snapshot pushed by the reset held a groove of two points; the same
  snapshot, on the same stack, holds three points after the last move, and an undo puts a
  groove of three points into the scene.
\<close>

theorem C4_snapshot_changed_by_later_move:
  "map (map points \<circ> fst)
     (history (run init [MouseDown rakeProps env0 (point_at 10 10), MouseMove rakeProps (point_at 20 10),
                         ClearGarden]))
     = [ [], [ [point_at 10 10, point_at 20 10] ] ] \<and>
   map (map points \<circ> fst)
     (history (run init [MouseDown rakeProps env0 (point_at 10 10), MouseMove rakeProps (point_at 20 10),
                         ClearGarden, MouseMove rakeProps (point_at 30 10)]))
     = [ [], [ [point_at 10 10, point_at 20 10, point_at 30 10] ] ] \<and>
   undoStack (run init [MouseDown rakeProps env0 (point_at 10 10), MouseMove rakeProps (point_at 20 10),
                        ClearGarden, MouseMove rakeProps (point_at 30 10)])
     = undoStack (run init [MouseDown rakeProps env0 (point_at 10 10), MouseMove rakeProps (point_at 20 10),
                            ClearGarden]) \<and>
   map points
     (fst (scene (run init [MouseDown rakeProps env0 (point_at 10 10), MouseMove rakeProps (point_at 20 10),
                            ClearGarden, MouseMove rakeProps (point_at 30 10), MouseUp, Undo])))
     = [ [point_at 10 10, point_at 20 10, point_at 30 10] ]"
  by (simp add: run_defs view_defs)

subsection \<open>Lengths of the parametric curves\<close>

lemma fl_neg_numeral [simp]: "numeral n < (2::int) ^ 53 \<Longrightarrow> fl (- numeral n) = - numeral n"
  using fl_of_int [of "- numeral n"] by simp

lemma length_generateCirclePattern:
  "length (generateCirclePattern cx cy radius) = nat (\<lfloor>radius * 0.5\<rfloor> + 1)"
  by (simp add: generateCirclePattern_def Let_def)

lemma length_generateEllipsePattern:
  "0 \<le> fl (fl (fl (3 * rx) + ry) * fl (rx + fl (3 * ry))) \<Longrightarrow>
   length (generateEllipsePattern cx cy rx ry)
     = nat (max 24 \<lfloor>fl (fl (fl pi * fl (fl (3 * fl (rx + ry))
                - fl (sqrt (fl (fl (fl (3 * rx) + ry) * fl (rx + fl (3 * ry))))))) * fl 0.3)\<rfloor> + 1)"
  by (simp add: generateEllipsePattern_def Let_def)


lemma ellipse_radicand_nonneg:
  "0 \<le> rx \<Longrightarrow> 0 \<le> ry \<Longrightarrow> 0 \<le> fl (fl (fl (3 * rx) + ry) * fl (rx + fl (3 * ry)))"
  by (intro fl_nonneg mult_nonneg_nonneg add_nonneg_nonneg) simp_all

lemma length_generateSpiralPattern:
  "length (generateSpiralPattern cx cy radius turns) = nat (\<lfloor>fl (turns * 50)\<rfloor> + 1)"
  by (simp add: generateSpiralPattern_def Let_def)

lemma length_generateWavePattern:
  "length (generateWavePattern sx sy ex amplitude frequency) = nat (\<lfloor>fl (fl (ex - sx) / 3)\<rfloor> + 1)"
  by (simp add: generateWavePattern_def Let_def)

lemma circle_two_points: "2 \<le> radius \<Longrightarrow> 2 \<le> length (generateCirclePattern cx cy radius)"
proof -
  assume "2 \<le> radius"
  then have "1 \<le> \<lfloor>radius / 2\<rfloor>" by (simp add: le_floor_iff)
  then have "2 \<le> nat (\<lfloor>radius / 2\<rfloor> + 1)" by linarith
  then show ?thesis by (simp add: length_generateCirclePattern)
qed

lemma ellipse_25_points:
  "0 \<le> rx \<Longrightarrow> 0 \<le> ry \<Longrightarrow> 25 \<le> length (generateEllipsePattern cx cy rx ry)"
  using ellipse_radicand_nonneg [of rx ry] by (simp add: length_generateEllipsePattern)




text \<open>
  Two calls in which the rounding decides the number of points.  The binary64 number
  nearest to 0.06 is a little less than 0.06, and 50 times it is less than 3; the product
  is rounded to 3, and the spiral has 4 points.  From the binary64 number nearest to 0.1
  to the one nearest to 6.1 it is a little less than 6; the difference is rounded to 6,
  and the wave has 3 points.
\<close>

lemma fl_0_06: "fl 0.06 = 1080863910568919 / 2 ^ 54"
proof -
  have "fl 0.06 = of_int (nearest_even (0.06 / 2 powi (- 5 - 52))) * 2 powi (- 5 - 52)"
    by (rule fl_eval) simp_all
  moreover have "nearest_even (0.06 / 2 powi (- 5 - 52)) = 8646911284551352"
    by (rule nearest_even_near) simp_all
  ultimately show ?thesis by simp
qed

lemma spiral_0_06:
  "\<lfloor>fl 0.06 * 50\<rfloor> = 2 \<and> length (generateSpiralPattern cx cy radius (fl 0.06)) = 4"
proof -
  let ?x = "1080863910568919 / 2 ^ 54 * 50 :: real"
  have "fl ?x = of_int (nearest_even (?x / 2 powi (1 - 52))) * 2 powi (1 - 52)"
    by (rule fl_eval) simp_all
  moreover have "nearest_even (?x / 2 powi (1 - 52)) = 6755399441055744"
    by (rule nearest_even_near_below) simp_all
  ultimately have "fl ?x = 3"
    by simp
  moreover have "\<lfloor>?x\<rfloor> = 2"
    by (rule floor_unique) simp_all
  ultimately show ?thesis
    unfolding length_generateSpiralPattern fl_0_06 by simp
qed

lemma fl_0_1: "fl 0.1 = 3602879701896397 / 2 ^ 55"
proof -
  have "fl 0.1 = of_int (nearest_even (0.1 / 2 powi (- 4 - 52))) * 2 powi (- 4 - 52)"
    by (rule fl_eval) simp_all
  moreover have "nearest_even (0.1 / 2 powi (- 4 - 52)) = 7205759403792794"
    by (rule nearest_even_near_below) simp_all
  ultimately show ?thesis by simp
qed

lemma fl_6_1: "fl 6.1 = 3433994715870003 / 2 ^ 49"
proof -
  have "fl 6.1 = of_int (nearest_even (6.1 / 2 powi (2 - 52))) * 2 powi (2 - 52)"
    by (rule fl_eval) simp_all
  moreover have "nearest_even (6.1 / 2 powi (2 - 52)) = 6867989431740006"
    by (rule nearest_even_near) simp_all
  ultimately show ?thesis by simp
qed

lemma wave_0_1_to_6_1:
  "\<lfloor>(fl 6.1 - fl 0.1) / 3\<rfloor> = 1 \<and>
   length (generateWavePattern (fl 0.1) sy (fl 6.1) amplitude frequency) = 3"
proof -
  let ?d = "3433994715870003 / 2 ^ 49 - 3602879701896397 / 2 ^ 55 :: real"
  have "fl ?d = of_int (nearest_even (?d / 2 powi (2 - 52))) * 2 powi (2 - 52)"
    by (rule fl_eval) simp_all
  moreover have "nearest_even (?d / 2 powi (2 - 52)) = 6755399441055744"
    by (rule nearest_even_near_below) simp_all
  ultimately have "fl ?d = 6"
    by simp
  moreover have "\<lfloor>?d / 3\<rfloor> = 1"
    by (rule floor_unique) simp_all
  ultimately show ?thesis
    unfolding length_generateWavePattern fl_0_1 fl_6_1 by simp
qed




subsection \<open>What the layout algorithms return\<close>

declare circlesLoop.simps [simp del] ellipsesLoop.simps [simp del] ripplesLoop.simps [simp del]

lemma for_each_Cons:
  "for_each (i # is) body k =
     (fst (body i k) # fst (for_each is body (snd (body i k))),
      snd (for_each is body (snd (body i k))))"
  by (simp split: prod.splits)

lemma length_for_each: "length (fst (for_each is body k)) = length is"
  by (induction "is" arbitrary: k) (simp_all add: for_each_Cons del: for_each.simps(2))

lemma for_each_all:
  "(\<And>i k. Q (fst (body i k))) \<Longrightarrow> \<forall>a \<in> set (fst (for_each is body k)). Q a"
proof (induction "is" arbitrary: k)
  case Nil
  show ?case by simp
next
  case (Cons i "is")
  have "Q (fst (body i k))" by (rule Cons.prems)
  moreover have "\<forall>a \<in> set (fst (for_each is body (snd (body i k)))). Q a"
    by (rule Cons.IH) (rule Cons.prems)
  ultimately show ?case
    by (simp add: for_each_Cons del: for_each.simps(2))
qed

lemma for_each_nonempty: "is \<noteq> [] \<Longrightarrow> fst (for_each is body k) \<noteq> []"
  using length_for_each [of "is" body k] by auto

text \<open>A result is good when it has at least one path and each of its paths has at
  least two points.\<close>

lemma circlesLoop_points:
  "2 \<le> radius \<Longrightarrow> \<forall>p \<in> set (fst (circlesLoop cx cy bound radius r k)). 2 \<le> length (points p)"
proof (induction cx cy bound radius r k rule: circlesLoop.induct)
  case (1 cx cy bound radius r k)
  show ?case
  proof (cases "radius < bound")
    case True
    have "\<forall>p \<in> set (fst (circlesLoop cx cy bound (radius + 40) r (k + 1))). 2 \<le> length (points p)"
      using True "1.prems" by (intro "1.IH") simp_all
    then show ?thesis
      using True "1.prems"
      by (subst circlesLoop.simps) (auto simp: Let_def circle_two_points split: prod.splits)
  next
    case False
    then show ?thesis by (subst circlesLoop.simps) simp
  qed
qed

lemma circlesLoop_nonempty: "radius < bound \<Longrightarrow> fst (circlesLoop cx cy bound radius r k) \<noteq> []"
  by (subst circlesLoop.simps) (simp add: Let_def split: prod.splits)

lemma ellipsesLoop_points:
  "0 \<le> rr \<Longrightarrow> \<forall>p \<in> set (fst (ellipsesLoop cx cy mx my rr r k)). 2 \<le> length (points p)"
proof (induction cx cy mx my rr r k rule: ellipsesLoop.induct)
  case (1 cx cy mx my rr r k)
  show ?case
  proof (cases "rr < mx")
    case True
    have "\<forall>p \<in> set (fst (ellipsesLoop cx cy mx my (rr + 36) r (k + 1))). 2 \<le> length (points p)"
      using True "1.prems" by (intro "1.IH") simp_all
    moreover have "2 \<le> length (generateEllipsePattern cx cy rr (max 24 (rr / mx * my)))"
    proof -
      have "(0::real) \<le> max 24 (rr / mx * my)" by linarith
      with "1.prems" have "25 \<le> length (generateEllipsePattern cx cy rr (max 24 (rr / mx * my)))"
        by (intro ellipse_25_points)
      then show ?thesis by linarith
    qed
    ultimately show ?thesis
      using True
      by (subst ellipsesLoop.simps) (auto simp: Let_def split: prod.splits)
  next
    case False
    then show ?thesis by (subst ellipsesLoop.simps) simp
  qed
qed

lemma ellipsesLoop_nonempty: "rr < mx \<Longrightarrow> fst (ellipsesLoop cx cy mx my rr r k) \<noteq> []"
  by (subst ellipsesLoop.simps) (simp add: Let_def split: prod.splits)

lemma val_nonneg: "0 \<le> val u" and val_less_1: "val u < 1"
  using Rep_rand [of u] by simp_all

lemma ripplesLoop_points:
  "2 \<le> rr \<Longrightarrow> \<forall>p \<in> set (fst (ripplesLoop c cx cy maxR rr r k)). 2 \<le> length (points p)"
proof (induction c cx cy maxR rr r k rule: ripplesLoop.induct)
  case (1 c cx cy maxR rr r k)
  show ?case
  proof (cases "rr < maxR")
    case True
    have "2 \<le> rr + (32 + val (r (k + 1)) * 12)"
      using "1.prems" val_nonneg [of "r (k + 1)"] by simp
    then have "\<forall>p \<in> set (fst (ripplesLoop c cx cy maxR (rr + (32 + val (r (k + 1)) * 12)) r (k + 2))).
                 2 \<le> length (points p)"
      using True by (intro "1.IH") simp_all
    then show ?thesis
      using True "1.prems"
      by (subst ripplesLoop.simps) (auto simp: Let_def circle_two_points split: prod.splits)
  next
    case False
    then show ?thesis by (subst ripplesLoop.simps) simp
  qed
qed

lemma ripplesLoop_nonempty: "rr < maxR \<Longrightarrow> fst (ripplesLoop c cx cy maxR rr r k) \<noteq> []"
  by (subst ripplesLoop.simps) (simp add: Let_def split: prod.splits)


subsection \<open>The layouts on the 800 by 600 canvas\<close>

lemma drawable_concentricCircles: "drawable (fst (concentricCircles canvas800 r k))"
proof -
  have "fst (circlesLoop 400 300 250 50 r k) \<noteq> []"
    by (rule circlesLoop_nonempty) simp
  moreover have "\<forall>p \<in> set (fst (circlesLoop 400 300 250 50 r k)). 2 \<le> length (points p)"
    by (rule circlesLoop_points) simp
  ultimately show ?thesis
    by (simp add: drawable_def concentricCircles_def canvas800_def Let_def)
qed

lemma drawable_spiralGarden: "drawable (fst (spiralGarden canvas800 r k))"
  by (simp add: drawable_def spiralGarden_def canvas800_def Let_def length_generateSpiralPattern)

lemma wave_two_points:
  assumes "sx + 3 \<le> ex"
  shows "2 \<le> length (generateWavePattern sx sy ex amplitude frequency)"
proof -
  have "fl 3 \<le> fl (ex - sx)"
    using assms by (intro fl_mono) simp_all
  then have "1 \<le> fl (ex - sx) / 3"
    by simp
  then have "fl 1 \<le> fl (fl (ex - sx) / 3)"
    by (intro fl_mono) simp_all
  then have "1 \<le> \<lfloor>fl (fl (ex - sx) / 3)\<rfloor>"
    by (simp add: le_floor_iff)
  then have "2 \<le> nat (\<lfloor>fl (fl (ex - sx) / 3)\<rfloor> + 1)"
    by linarith
  then show ?thesis
    by (simp add: length_generateWavePattern)
qed

lemma drawable_wavePatterns: "drawable (fst (wavePatterns canvas800 r k))"
  unfolding drawable_def wavePatterns_def canvas800_def Let_def
  by (intro conjI for_each_nonempty for_each_all) (simp_all add: wave_two_points)

lemma drawable_mandala: "drawable (fst (mandala canvas800 r k))"
  unfolding drawable_def mandala_def canvas800_def Let_def case_prod_beta fst_conv set_append ball_Un
  by (intro conjI for_each_all)
     (simp_all add: petalPoints_def Let_def length_generateCirclePattern)

lemma drawable_zenLines: "drawable (fst (zenLines canvas800 r k))"
  unfolding drawable_def zenLines_def canvas800_def Let_def case_prod_beta
  by (intro conjI for_each_nonempty for_each_all) (simp_all add: length_for_each)

lemma drawable_ellipticalRings: "drawable (fst (ellipticalRings canvas800 r k))"
proof -
  have "fst (ellipsesLoop 400 300 240 my 40 r k') \<noteq> []" for my k'
    by (rule ellipsesLoop_nonempty) simp
  moreover have "\<forall>p \<in> set (fst (ellipsesLoop 400 300 240 my 40 r k')). 2 \<le> length (points p)" for my k'
    by (rule ellipsesLoop_points) simp
  ultimately show ?thesis
    by (simp add: drawable_def ellipticalRings_def canvas800_def Let_def)
qed

lemma drawable_doubleSpiral: "drawable (fst (doubleSpiral canvas800 r k))"
  by (simp add: drawable_def doubleSpiral_def canvas800_def Let_def length_generateSpiralPattern)

lemma drawable_bambooGrove: "drawable (fst (bambooGrove canvas800 r k))"
proof -
  have "0 \<le> \<lfloor>val (r k) * 6\<rfloor>"
    using val_nonneg [of "r k"] by simp
  then have "0 < nat (10 + \<lfloor>val (r k) * 6\<rfloor>)"
    by linarith
  then have ne: "[0..<nat (10 + \<lfloor>val (r k) * 6\<rfloor>)] \<noteq> []"
    by simp
  show ?thesis
    unfolding drawable_def bambooGrove_def canvas800_def Let_def
    by (intro conjI for_each_nonempty for_each_all ne) simp
qed

lemma drawable_multiCenterRipples: "drawable (fst (multiCenterRipples canvas800 r k))"
proof -
  let ?body = "\<lambda>c k. let cx = 120 + val (r k) * (cwidth canvas800 - 240);
                          cy = 120 + val (r (k + 1)) * (cheight canvas800 - 240);
                          maxR = min (cwidth canvas800) (cheight canvas800) / 3
                      in ripplesLoop c cx cy maxR 40 r (k + 2)"
  let ?is = "[0..<nat (2 + \<lfloor>val (r k) * 2\<rfloor>)]"
  let ?pathss = "fst (for_each ?is ?body (k + 1))"
  have "0 \<le> \<lfloor>val (r k) * 2\<rfloor>"
    using val_nonneg [of "r k"] by simp
  then have "0 < nat (2 + \<lfloor>val (r k) * 2\<rfloor>)"
    by linarith
  then have "?is \<noteq> []" by simp
  then have ne: "?pathss \<noteq> []" by (rule for_each_nonempty)
  have all: "\<forall>ps \<in> set ?pathss. drawable ps"
  proof (rule for_each_all)
    fix c k'
    have "fst (ripplesLoop c cx cy 200 40 r k'') \<noteq> []" for cx cy k''
      by (rule ripplesLoop_nonempty) simp
    moreover have "\<forall>p \<in> set (fst (ripplesLoop c cx cy 200 40 r k'')). 2 \<le> length (points p)" for cx cy k''
      by (rule ripplesLoop_points) simp
    ultimately show "drawable (fst (?body c k'))"
      by (simp add: drawable_def canvas800_def Let_def)
  qed
  obtain ps rest where "?pathss = ps # rest"
    using ne by (cases ?pathss) auto
  then have "concat ?pathss \<noteq> []"
    using all by (auto simp: drawable_def)
  moreover have "\<forall>p \<in> set (concat ?pathss). 2 \<le> length (points p)"
    using all by (auto simp: drawable_def)
  ultimately show ?thesis
    by (simp add: drawable_def multiCenterRipples_def Let_def case_prod_beta)
qed

lemma length_concat_ge:
  "xss \<noteq> [] \<Longrightarrow> \<forall>xs \<in> set xss. n \<le> length xs \<Longrightarrow> n \<le> length (concat xss)"
  by (cases xss) auto

lemma drawable_serpentineFill: "drawable (fst (serpentineFill canvas800 r k))"
  unfolding drawable_def serpentineFill_def canvas800_def Let_def case_prod_beta
  by (simp, intro length_concat_ge for_each_nonempty for_each_all) (simp_all add: length_for_each)

lemma drawable_patterns: "P \<in> set patterns \<Longrightarrow> drawable (fst (P canvas800 r k))"
  by (auto simp: patterns_def drawable_concentricCircles drawable_spiralGarden drawable_wavePatterns
                 drawable_mandala drawable_zenLines drawable_ellipticalRings drawable_doubleSpiral
                 drawable_bambooGrove drawable_multiCenterRipples drawable_serpentineFill)

lemma drawable_generateZenPattern: "drawable (fst (generateZenPattern canvas800 r k))"
proof -
  have "0 \<le> \<lfloor>val (r k) * 10\<rfloor>" "\<lfloor>val (r k) * 10\<rfloor> < 10"
    using val_nonneg [of "r k"] val_less_1 [of "r k"] by (simp_all add: floor_less_iff)
  then have "nat \<lfloor>val (r k) * 10\<rfloor> < 10"
    by linarith
  moreover have "length patterns = 10"
    by (simp add: patterns_def)
  ultimately have "nat \<lfloor>val (r k) * 10\<rfloor> < length patterns"
    by simp
  then have "patterns ! nat \<lfloor>val (r k) * 10\<rfloor> \<in> set patterns"
    by (rule nth_mem)
  then have "drawable (fst ((patterns ! nat \<lfloor>val (r k) * 10\<rfloor>) canvas800 r (k + 1)))"
    by (rule drawable_patterns)
  moreover have "real (length patterns) = 10" by (simp add: patterns_def)
  ultimately show ?thesis
    by (simp add: generateZenPattern_def Let_def)
qed

subsection \<open>A call of generatePattern that nothing disturbs\<close>

lemma tasks_same: "tasks s = x \<Longrightarrow> s\<lparr>tasks := x\<rparr> = s"
  by simp

lemma animateStep_tasks_upd:
  "animateStep path a (s\<lparr>tasks := x\<rparr>) pt = (animateStep path a s pt)\<lparr>tasks := x\<rparr>"
  by (simp add: animateStep_def)

lemma foldl_animateStep_tasks_upd:
  "foldl (animateStep path a) (s\<lparr>tasks := x\<rparr>) pts = (foldl (animateStep path a) s pts)\<lparr>tasks := x\<rparr>"
  by (induction pts arbitrary: s) (simp_all add: animateStep_tasks_upd)

lemma nextPath_tasks_upd_aux:
  "s' = s\<lparr>tasks := x\<rparr> \<Longrightarrow>
   fst (nextPath cv e k paths s') = (fst (nextPath cv e k paths s))\<lparr>tasks := x\<rparr> \<and>
   snd (nextPath cv e k paths s') = snd (nextPath cv e k paths s)"
proof (induction paths arbitrary: s s')
  case Nil
  then show ?case by simp
next
  case (Cons path paths)
  let ?s1 = "s\<lparr>heap := (heap s)(nxt s := []), nxt := nxt s + 1\<rparr>"
  let ?s1' = "s'\<lparr>heap := (heap s')(nxt s' := []), nxt := nxt s' + 1\<rparr>"
  have eq: "?s1' = ?s1\<lparr>tasks := x\<rparr>"
    using Cons.prems by simp
  show ?case
  proof (cases "points path")
    case Nil
    then show ?thesis
      using Cons.IH [OF eq] by (simp add: Let_def)
  next
    case (Cons pt rest)
    have "animateStep path (nxt s) ?s1' pt = (animateStep path (nxt s) ?s1 pt)\<lparr>tasks := x\<rparr>"
      unfolding eq by (rule animateStep_tasks_upd)
    then show ?thesis
      using Cons \<open>s' = s\<lparr>tasks := x\<rparr>\<close> by (simp add: Let_def)
  qed
qed

lemma nextPath_tasks_upd:
  "fst (nextPath cv e k paths (s\<lparr>tasks := x\<rparr>)) = (fst (nextPath cv e k paths s))\<lparr>tasks := x\<rparr>"
  "snd (nextPath cv e k paths (s\<lparr>tasks := x\<rparr>)) = snd (nextPath cv e k paths s)"
  using nextPath_tasks_upd_aux [where s' = "s\<lparr>tasks := x\<rparr>" and s = s and x = x] by simp_all

lemma in_flight_tasks_upd [simp]:
  "in_flight (nextPath cv e k paths (s\<lparr>tasks := x\<rparr>)) = in_flight (nextPath cv e k paths s)"
  by (simp add: in_flight_def nextPath_tasks_upd)

lemma tasks_in_flight: "tasks (in_flight r) = (case snd r of None \<Rightarrow> [] | Some t \<Rightarrow> [t])"
  by (simp add: in_flight_def)

lemma tick0_single: "tasks s = [t] \<Longrightarrow> tick 0 s = in_flight (resume t s)"
  by (simp add: tick_unfold in_flight_def split: option.splits)

lemma ticks_animating:
  "tasks s = [Animating cv e k path a pts paths] \<Longrightarrow>
   run s (replicate (length pts) (Tick 0))
     = (foldl (animateStep path a) s pts)\<lparr>tasks := [Animating cv e k path a [] paths]\<rparr>"
proof (induction pts arbitrary: s)
  case Nil
  then show ?case by (simp add: run_Nil)
next
  case (Cons pt rest)
  let ?s' = "(animateStep path a s pt)\<lparr>tasks := [Animating cv e k path a rest paths]\<rparr>"
  have 1: "tick 0 s = ?s'"
    using Cons.prems by (simp add: tick0_single in_flight_def)
  have 2: "run ?s' (replicate (length rest) (Tick 0))
             = (foldl (animateStep path a) ?s' rest)\<lparr>tasks := [Animating cv e k path a [] paths]\<rparr>"
    by (rule Cons.IH) simp
  show ?case
    by (simp add: run_Cons 1 2 foldl_animateStep_tasks_upd)
qed

lemma foldl_place_tasks_upd_aux:
  "s' = s\<lparr>tasks := x\<rparr> \<Longrightarrow>
   foldl (\<lambda>s i. s\<lparr>placedObjects := placedObjects s @ [f i]\<rparr>) s' is
     = (foldl (\<lambda>s i. s\<lparr>placedObjects := placedObjects s @ [f i]\<rparr>) s is)\<lparr>tasks := x\<rparr>"
proof (induction "is" arbitrary: s s')
  case Nil
  then show ?case by simp
next
  case (Cons i "is")
  have "s'\<lparr>placedObjects := placedObjects s' @ [f i]\<rparr>
          = (s\<lparr>placedObjects := placedObjects s @ [f i]\<rparr>)\<lparr>tasks := x\<rparr>"
    using Cons.prems by simp
  from Cons.IH [OF this] show ?case by simp
qed

lemma foldl_place_tasks_upd:
  "foldl (\<lambda>s i. s\<lparr>placedObjects := placedObjects s @ [f i]\<rparr>) (s\<lparr>tasks := x\<rparr>) is
     = (foldl (\<lambda>s i. s\<lparr>placedObjects := placedObjects s @ [f i]\<rparr>) s is)\<lparr>tasks := x\<rparr>"
  by (rule foldl_place_tasks_upd_aux) (rule refl)

lemma ticks_placing:
  "tasks s = [Placing cv e k i n] \<Longrightarrow> i < n \<Longrightarrow>
   run s (replicate (n - i) (Tick 0))
     = (foldl (\<lambda>s i. s\<lparr>placedObjects := placedObjects s @ [autoObject cv e (k + 5 * i) i]\<rparr>) s [i..<n])
       \<lparr>tasks := []\<rparr>"
proof (induction "n - i" arbitrary: i s)
  case 0
  then show ?case by simp
next
  case (Suc d)
  let ?place = "\<lambda>s i. s\<lparr>placedObjects := placedObjects s @ [autoObject cv e (k + 5 * i) i]\<rparr>"
  have up: "[i..<n] = i # [Suc i..<n]"
    using Suc.prems by (simp add: upt_conv_Cons)
  have rep: "replicate (n - i) (Tick 0) = Tick 0 # replicate d (Tick 0)"
    using Suc.hyps(2) [symmetric] by simp
  show ?case
  proof (cases "Suc i < n")
    case True
    let ?s' = "(?place s i)\<lparr>tasks := [Placing cv e k (Suc i) n]\<rparr>"
    have 1: "tick 0 s = ?s'"
      using Suc.prems True by (simp add: tick0_single in_flight_def)
    have d: "d = n - Suc i"
      using Suc.hyps(2) by simp
    have "run ?s' (replicate (n - Suc i) (Tick 0)) = (foldl ?place ?s' [Suc i..<n])\<lparr>tasks := []\<rparr>"
      using d True by (intro Suc.hyps(1)) simp_all
    then show ?thesis
      unfolding rep up by (simp add: run_Cons 1 d foldl_place_tasks_upd)
  next
    case False
    then have n: "n = Suc i" and d: "d = 0"
      using Suc.prems Suc.hyps(2) by simp_all
    have 1: "tick 0 s = (?place s i)\<lparr>tasks := []\<rparr>"
      using Suc.prems n by (simp add: tick0_single in_flight_def)
    show ?thesis
      unfolding rep up by (simp add: run_Cons run_Nil 1 d n)
  qed
qed

lemma ticks_startObjects:
  "run (in_flight (s, startObjects cv e k))
       (replicate (if val (rnd e k) > 0.3 then nat (1 + \<lfloor>val (rnd e (k + 1)) * 3\<rfloor>) else 0) (Tick 0))
     = (addObjects cv e k s)\<lparr>tasks := []\<rparr>"
proof (cases "val (rnd e k) > 0.3")
  case False
  then show ?thesis
    by (simp add: startObjects_def addObjects_def in_flight_def run_Nil)
next
  case True
  let ?n = "nat (1 + \<lfloor>val (rnd e (k + 1)) * 3\<rfloor>)"
  let ?place = "\<lambda>s i. s\<lparr>placedObjects := placedObjects s @ [autoObject cv e (k + 2 + 5 * i) i]\<rparr>"
  have "0 \<le> \<lfloor>val (rnd e (k + 1)) * 3\<rfloor>"
    using Rep_rand [of "rnd e (k + 1)"] by simp
  then have pos: "0 < 1 + \<lfloor>val (rnd e (k + 1)) * 3\<rfloor>" and n: "0 < ?n"
    by linarith+
  let ?s' = "s\<lparr>tasks := [Placing cv e (k + 2) 0 ?n]\<rparr>"
  have st: "in_flight (s, startObjects cv e k) = ?s'"
    using True pos by (simp add: startObjects_def in_flight_def Let_def)
  have "run ?s' (replicate (?n - 0) (Tick 0)) = (foldl ?place ?s' [0..<?n])\<lparr>tasks := []\<rparr>"
    using n by (intro ticks_placing) simp_all
  also have "foldl ?place ?s' [0..<?n] = (foldl ?place s [0..<?n])\<lparr>tasks := [Placing cv e (k + 2) 0 ?n]\<rparr>"
    by (rule foldl_place_tasks_upd)
  finally have "run ?s' (replicate ?n (Tick 0)) = (foldl ?place s [0..<?n])\<lparr>tasks := []\<rparr>"
    by simp
  moreover have "addObjects cv e k s = foldl ?place s [0..<?n]"
    using True by (simp add: addObjects_def Let_def)
  moreover have "(if val (rnd e k) > 0.3 then ?n else 0) = ?n"
    using True by simp
  ultimately show ?thesis
    by (simp only: st)
qed

text \<open>One path, from the pause after its first point to the pause after the first point of the next.\<close>

lemma ticks_one_path:
  "run (in_flight (nextPath cv e k (path # paths) s)) (replicate (length (points path)) (Tick 0))
     = in_flight (nextPath cv e k paths (animatePath s path))"
proof (cases "points path")
  case Nil
  then show ?thesis
    by (simp add: run_Nil animatePath_def Let_def)
next
  case (Cons pt rest)
  let ?s1 = "s\<lparr>heap := (heap s)(nxt s := []), nxt := nxt s + 1\<rparr>"
  let ?s0 = "(animateStep path (nxt s) ?s1 pt)\<lparr>tasks := [Animating cv e k path (nxt s) rest paths]\<rparr>"
  have st: "in_flight (nextPath cv e k (path # paths) s) = ?s0"
    using Cons by (simp add: in_flight_def Let_def)
  have an: "animatePath s path = foldl (animateStep path (nxt s)) (animateStep path (nxt s) ?s1 pt) rest"
    using Cons by (simp add: animatePath_def Let_def)
  have 1: "run ?s0 (replicate (length rest) (Tick 0))
             = (animatePath s path)\<lparr>tasks := [Animating cv e k path (nxt s) [] paths]\<rparr>"
    by (subst ticks_animating [where cv = cv and e = e and k = k and path = path and a = "nxt s"
                                and paths = paths])
       (simp_all add: an foldl_animateStep_tasks_upd)
  have 2: "tick 0 ((animatePath s path)\<lparr>tasks := [Animating cv e k path (nxt s) [] paths]\<rparr>)
             = in_flight (nextPath cv e k paths (animatePath s path))"
    by (subst tick0_single [where t = "Animating cv e k path (nxt s) [] paths"]) simp_all
  have rep: "replicate (length (points path)) (Tick 0) = replicate (length rest) (Tick 0) @ [Tick 0]"
    using Cons by (simp add: replicate_append_same)
  have "run ?s0 (replicate (length rest) (Tick 0) @ [Tick 0])
          = in_flight (nextPath cv e k paths (animatePath s path))"
    by (simp only: run_append 1 run_Cons run_Nil step.simps 2)
  then show ?thesis
    by (simp only: st rep)
qed

lemma ticks_paths:
  "run (in_flight (nextPath cv e k (paths @ paths') s))
       (replicate (length (concat (map points paths))) (Tick 0))
     = in_flight (nextPath cv e k paths' (foldl animatePath s paths))"
proof (induction paths arbitrary: s)
  case Nil
  show ?case by (simp add: run_Nil)
next
  case (Cons path paths)
  show ?case
    using ticks_one_path [of cv e k path "paths @ paths'" s] Cons.IH [of "animatePath s path"]
    by (simp add: replicate_add run_append)
qed

lemma ticks_nextPath:
  "run (in_flight (nextPath cv e k paths s))
       (replicate (length (concat (map points paths))
                   + (if val (rnd e k) > 0.3 then nat (1 + \<lfloor>val (rnd e (k + 1)) * 3\<rfloor>) else 0))
                  (Tick 0))
     = (addObjects cv e k (foldl animatePath s paths))\<lparr>tasks := []\<rparr>"
  using ticks_paths [of cv e k paths "[]" s] ticks_startObjects [of "foldl animatePath s paths" cv e k]
  by (simp only: replicate_add run_append append_Nil2 nextPath.simps)

lemma generatePattern_in_flight:
  assumes "tasks s = []" "canvasRef p = Some cv"
  shows "generatePattern p e s
           = in_flight (nextPath cv e (snd (generateZenPattern cv (rnd e) 0))
                          (fst (generateZenPattern cv (rnd e) 0))
                          ((saveState s)\<lparr>rakePaths := [], placedObjects := []\<rparr>))"
  using assms
  by (simp add: generatePattern_unfold [OF assms(2)] Let_def in_flight_def tasks_same
           split: option.splits)

text \<open>
  The call and its timer at every pause, with nothing in between, do what the body of
  \<open>generatePattern\<close> does when it is read as one piece.
\<close>

lemma generatePattern_completes:
  assumes "tasks s = []" "canvasRef p = Some cv"
  shows "run s (GeneratePattern p e # replicate (awaits cv e) (Tick 0)) = generatePatternWhole p e s"
proof -
  obtain newPaths k where g: "generateZenPattern cv (rnd e) 0 = (newPaths, k)"
    by (cases "generateZenPattern cv (rnd e) 0")
  let ?s2 = "(saveState s)\<lparr>rakePaths := [], placedObjects := []\<rparr>"
  have w: "generatePatternWhole p e s = addObjects cv e k (foldl animatePath ?s2 newPaths)"
    by (simp add: generatePatternWhole_def assms(2) g Let_def)
  have "tasks (generatePatternWhole p e s) = []"
    unfolding w using assms(1) by simp
  then have "(addObjects cv e k (foldl animatePath ?s2 newPaths))\<lparr>tasks := []\<rparr> = generatePatternWhole p e s"
    unfolding w by (rule tasks_same)
  then show ?thesis
    using ticks_nextPath [of cv e k newPaths ?s2]
    by (simp add: run_Cons generatePattern_in_flight [OF assms] awaits_def g)
qed

lemma mutate_Generate:
  "tasks s = [] \<Longrightarrow>
   mutate s (Generate cv tl0 sel e)
     = generatePatternWhole \<lparr>canvasRef = Some cv, tool = tl0, selectedObject = sel\<rparr> e s"
  by (simp add: mutate_def generatePattern_completes)

text \<open>
  Before the last pause of the animation is over, the last path of the layout has all its
  points, and the call is waiting for its timer.
\<close>

lemma ticks_last_pause:
  assumes "points path \<noteq> []"
  shows "run (in_flight (nextPath cv e k (paths @ [path]) s))
             (replicate (length (concat (map points (paths @ [path]))) - 1) (Tick 0))
           = (foldl animatePath s (paths @ [path]))
             \<lparr>tasks := [Animating cv e k path (nxt (foldl animatePath s paths)) [] []]\<rparr>"
proof -
  obtain pt rest where pr: "points path = pt # rest"
    using assms by (cases "points path") auto
  let ?base = "foldl animatePath s paths"
  let ?fresh = "?base\<lparr>heap := (heap ?base)(nxt ?base := []), nxt := nxt ?base + 1\<rparr>"
  let ?start = "(animateStep path (nxt ?base) ?fresh pt)\<lparr>tasks := [Animating cv e k path (nxt ?base) rest []]\<rparr>"
  have st: "in_flight (nextPath cv e k [path] ?base) = ?start"
    using pr by (simp add: in_flight_def Let_def)
  have an: "animatePath ?base path = foldl (animateStep path (nxt ?base)) (animateStep path (nxt ?base) ?fresh pt) rest"
    using pr by (simp add: animatePath_def Let_def)
  have 1: "run ?start (replicate (length rest) (Tick 0))
             = (animatePath ?base path)\<lparr>tasks := [Animating cv e k path (nxt ?base) [] []]\<rparr>"
    by (subst ticks_animating [where cv = cv and e = e and k = k and path = path and a = "nxt ?base"
                                and paths = "[]"])
       (simp_all add: an foldl_animateStep_tasks_upd)
  have len: "length (concat (map points (paths @ [path]))) - 1
          = length (concat (map points paths)) + length rest"
    using pr by simp
  have "run (in_flight (nextPath cv e k (paths @ [path]) s))
            (replicate (length (concat (map points paths))) (Tick 0) @ replicate (length rest) (Tick 0))
          = (animatePath ?base path)\<lparr>tasks := [Animating cv e k path (nxt ?base) [] []]\<rparr>"
    by (simp only: run_append ticks_paths st 1)
  then show ?thesis
    by (simp only: len replicate_add foldl_append foldl.simps)
qed

subsection \<open>How long a call is in flight\<close>

lemma remaining_pos: "0 < remaining t"
  by (cases t) simp_all

lemma remaining_nextPath:
  "(case snd (nextPath cv e k paths s) of None \<Rightarrow> 0 | Some t \<Rightarrow> remaining t)
     = length (concat (map points paths))
       + (if val (rnd e k) > 0.3 then nat (1 + \<lfloor>val (rnd e (k + 1)) * 3\<rfloor>) else 0)"
proof (induction paths arbitrary: s)
  case Nil
  have "0 \<le> \<lfloor>val (rnd e (k + 1)) * 3\<rfloor>"
    using Rep_rand [of "rnd e (k + 1)"] by simp
  then have "0 < 1 + \<lfloor>val (rnd e (k + 1)) * 3\<rfloor>"
    and "Suc (nat (1 + \<lfloor>val (rnd e (k + 1)) * 3\<rfloor>) - Suc 0) = nat (1 + \<lfloor>val (rnd e (k + 1)) * 3\<rfloor>)"
    by linarith+
  then show ?case
    by (simp add: startObjects_def Let_def)
next
  case (Cons path paths)
  then show ?case
    by (cases "points path") (simp_all add: Let_def)
qed

lemma remaining_resume:
  "remaining t = Suc (case snd (resume t s) of None \<Rightarrow> 0 | Some t' \<Rightarrow> remaining t')"
proof (induction t s rule: resume.induct)
  case (1 cv e k path a point rest paths s)
  show ?case by simp
next
  case (2 cv e k path a paths s)
  show ?case
    using remaining_nextPath [of cv e k paths s] by simp
next
  case (3 cv e k i objectCount s)
  show ?case by auto
qed

lemma ticks_in_flight:
  "tasks s = [t] \<Longrightarrow> n < remaining t \<Longrightarrow>
   \<exists>t'. tasks (run s (replicate n (Tick 0))) = [t'] \<and> remaining t' = remaining t - n"
proof (induction n arbitrary: s t)
  case 0
  then show ?case by (simp add: run_Nil)
next
  case (Suc n)
  have r: "remaining t = Suc (case snd (resume t s) of None \<Rightarrow> 0 | Some t' \<Rightarrow> remaining t')"
    by (rule remaining_resume)
  with Suc.prems(2) obtain t1 where t1: "snd (resume t s) = Some t1" and r1: "remaining t = Suc (remaining t1)"
    by (cases "snd (resume t s)") auto
  have "tasks (tick 0 s) = [t1]"
    using Suc.prems(1) t1 by (simp add: tick0_single tasks_in_flight)
  moreover have "n < remaining t1"
    using Suc.prems(2) r1 by simp
  ultimately obtain t' where "tasks (run (tick 0 s) (replicate n (Tick 0))) = [t']"
    and "remaining t' = remaining t1 - n"
    using Suc.IH by blast
  then show ?case
    using r1 by (simp add: run_Cons)
qed

lemma generatePattern_in_flight_until:
  assumes "tasks s = []" "canvasRef p = Some cv" "n < awaits cv e"
  shows "tasks (run s (GeneratePattern p e # replicate n (Tick 0))) \<noteq> []"
proof -
  let ?r = "nextPath cv e (snd (generateZenPattern cv (rnd e) 0)) (fst (generateZenPattern cv (rnd e) 0))
              ((saveState s)\<lparr>rakePaths := [], placedObjects := []\<rparr>)"
  have a: "(case snd ?r of None \<Rightarrow> 0 | Some t \<Rightarrow> remaining t) = awaits cv e"
    by (simp add: remaining_nextPath awaits_def split: prod.splits)
  with assms(3) obtain t where t: "snd ?r = Some t" and "remaining t = awaits cv e"
    by (cases "snd ?r") auto
  then have "tasks (generatePattern p e s) = [t]" "n < remaining t"
    using assms by (simp_all add: generatePattern_in_flight tasks_in_flight)
  then obtain t' where "tasks (run (generatePattern p e s) (replicate n (Tick 0))) = [t']"
    using ticks_in_flight by blast
  then show ?thesis
    by (simp add: run_Cons)
qed

subsection \<open>The scene after the animation\<close>

lemma scene_animatePath_last:
  assumes "points path \<noteq> []"
  shows "path \<in> set (fst (scene (animatePath s path)))"
proof -
  let ?q = "\<lparr>rid = rid path, points = nxt s, width = width path\<rparr>"
  have "?q \<in> set (rakePaths (animatePath s path))"
    using assms by (simp add: animatePath_paths)
  then have "deref (heap (animatePath s path)) ?q \<in> set (fst (scene (animatePath s path)))"
    by (simp add: scene_def)
  moreover have "deref (heap (animatePath s path)) ?q = path"
    by (simp add: deref_def animatePath_heap)
  ultimately show ?thesis by simp
qed

lemma scene_foldl_animatePath_last:
  assumes "paths \<noteq> []" "points (last paths) \<noteq> []"
  shows "last paths \<in> set (fst (scene (foldl animatePath s paths)))"
proof -
  have "foldl animatePath s paths = animatePath (foldl animatePath s (butlast paths)) (last paths)"
    using assms(1) by (subst append_butlast_last_id [symmetric, of paths]) (simp_all del: append_butlast_last_id)
  then show ?thesis
    using scene_animatePath_last [OF assms(2)] by simp
qed

lemma fst_scene_addObjects [simp]: "fst (scene (addObjects cv e k s)) = fst (scene s)"
  by (simp add: scene_def)

lemma awaits_pos: "0 < awaits canvas800 e"
proof -
  obtain paths k where g: "generateZenPattern canvas800 (rnd e) 0 = (paths, k)"
    by (cases "generateZenPattern canvas800 (rnd e) 0")
  have "drawable paths"
    using drawable_generateZenPattern [of "rnd e" 0] by (simp add: g)
  then obtain path rest where "paths = path # rest" "2 \<le> length (points path)"
    by (cases paths) (auto simp: drawable_def)
  then have "0 < length (concat (map points paths))"
    by auto
  then show ?thesis
    by (simp add: awaits_def g)
qed

text \<open>
  A reset while the call is in its last pause of 20 ms: the call ends with its next timer
  and the garden is as the reset left it, when the call adds no objects.
\<close>

lemma reset_in_last_pause:
  assumes "tasks s = []" "canvasRef p = Some cv"
    and g: "generateZenPattern cv (rnd e) 0 = (paths, k)"
    and "paths \<noteq> []" "points (last paths) \<noteq> []" "\<not> val (rnd e k) > 0.3"
  shows "run s (GeneratePattern p e # replicate (awaits cv e - 1) (Tick 0) @ [ClearGarden, Tick 0])
           = clearGarden (generatePatternWhole p e s)"
proof -
  let ?s2 = "(saveState s)\<lparr>rakePaths := [], placedObjects := []\<rparr>"
  let ?drawn = "foldl animatePath ?s2 paths"
  let ?t = "Animating cv e k (last paths) (nxt (foldl animatePath ?s2 (butlast paths))) [] []"
  have bl: "butlast paths @ [last paths] = paths"
    using assms(4) by simp
  have aw: "awaits cv e = length (concat (map points (butlast paths @ [last paths])))"
    using assms(6) by (simp only: bl) (simp add: awaits_def g)
  have w: "generatePatternWhole p e s = ?drawn"
    using assms(6) by (simp add: generatePatternWhole_def assms(2) g Let_def addObjects_def)
  have t0: "tasks ?drawn = []"
    using assms(1) by simp
  have 1: "run s (GeneratePattern p e # replicate (awaits cv e - 1) (Tick 0)) = ?drawn\<lparr>tasks := [?t]\<rparr>"
    using ticks_last_pause [OF assms(5), of cv e k "butlast paths" ?s2]
    by (simp only: run_Cons step.simps generatePattern_in_flight [OF assms(1,2)] g fst_conv snd_conv
                   aw bl)
  have 2: "clearGarden (?drawn\<lparr>tasks := [?t]\<rparr>) = (clearGarden ?drawn)\<lparr>tasks := [?t]\<rparr>"
    by (simp add: clearGarden_def saveState_def)
  have 3: "tick 0 ((clearGarden ?drawn)\<lparr>tasks := [?t]\<rparr>) = (clearGarden ?drawn)\<lparr>tasks := []\<rparr>"
    using assms(6)
    by (subst tick0_single [where t = ?t]) (simp_all add: in_flight_def startObjects_def)
  have 4: "(clearGarden ?drawn)\<lparr>tasks := []\<rparr> = clearGarden ?drawn"
    using t0 by (intro tasks_same) (simp add: clearGarden_def)
  have "run s ((GeneratePattern p e # replicate (awaits cv e - 1) (Tick 0)) @ [ClearGarden, Tick 0])
          = tick 0 (clearGarden (run s (GeneratePattern p e # replicate (awaits cv e - 1) (Tick 0))))"
    by (simp add: run_append run_Cons run_Nil)
  also have "\<dots> = tick 0 (clearGarden (?drawn\<lparr>tasks := [?t]\<rparr>))"
    by (simp only: 1)
  also have "\<dots> = clearGarden ?drawn"
    by (simp only: 2 3 4)
  finally show ?thesis
    by (simp only: w append_Cons)
qed

text \<open>
  C7, as the code has it: on the 800 by 600 canvas every one of the ten layout algorithms
  returns at least one path, and each path it returns has at least two points, whatever
  the random draws.  A call of \<open>generatePattern\<close> with no other call in flight, followed by
  its timer at every pause with no other event in between, is in flight until its last
  pause is over and has then ended; it has done what its body does read as one piece; the
  last path of the layout is in the scene with all its points, so the scene holds a groove
  of at least two points and something is drawn.
\<close>

theorem C7_generate_leaves_groove:
  "(\<forall>P \<in> set patterns. drawable (fst (P canvas800 r k))) \<and>
   drawable (fst (generateZenPattern canvas800 r k)) \<and>
   (canvasRef p = Some canvas800 \<and> tasks s = [] \<longrightarrow>
      (\<forall>n < awaits canvas800 e. tasks (run s (GeneratePattern p e # replicate n (Tick 0))) \<noteq> []) \<and>
      tasks (run s (GeneratePattern p e # replicate (awaits canvas800 e) (Tick 0))) = [] \<and>
      run s (GeneratePattern p e # replicate (awaits canvas800 e) (Tick 0)) = generatePatternWhole p e s \<and>
      (\<exists>path \<in> set (fst (scene (run s (GeneratePattern p e # replicate (awaits canvas800 e) (Tick 0))))).
          2 \<le> length (points path)) \<and>
      drawRakeGrooves (run s (GeneratePattern p e # replicate (awaits canvas800 e) (Tick 0))) \<noteq> [])"
proof -
  have gen: "(\<forall>n < awaits canvas800 e. tasks (run s (GeneratePattern p e # replicate n (Tick 0))) \<noteq> []) \<and>
      tasks (run s (GeneratePattern p e # replicate (awaits canvas800 e) (Tick 0))) = [] \<and>
      run s (GeneratePattern p e # replicate (awaits canvas800 e) (Tick 0)) = generatePatternWhole p e s \<and>
      (\<exists>path \<in> set (fst (scene (run s (GeneratePattern p e # replicate (awaits canvas800 e) (Tick 0))))).
          2 \<le> length (points path)) \<and>
      drawRakeGrooves (run s (GeneratePattern p e # replicate (awaits canvas800 e) (Tick 0))) \<noteq> []"
    if cv: "canvasRef p = Some canvas800" and idle: "tasks s = []"
  proof -
    let ?paths = "fst (generateZenPattern canvas800 (rnd e) 0)"
    let ?fin = "run s (GeneratePattern p e # replicate (awaits canvas800 e) (Tick 0))"
    have w: "?fin = generatePatternWhole p e s"
      using idle cv by (rule generatePattern_completes)
    have fl: "\<forall>n < awaits canvas800 e. tasks (run s (GeneratePattern p e # replicate n (Tick 0))) \<noteq> []"
      using generatePattern_in_flight_until [OF idle cv] by blast
    have over: "tasks ?fin = []"
      unfolding w using idle by (simp add: generatePatternWhole_unfold [OF cv])
    have d: "drawable ?paths" by (rule drawable_generateZenPattern)
    then have ne: "?paths \<noteq> []" and two: "2 \<le> length (points (last ?paths))"
      by (simp_all add: drawable_def)
    then have "points (last ?paths) \<noteq> []" by auto
    with ne have "last ?paths \<in> set (fst (scene (generatePatternWhole p e s)))"
      by (simp add: generatePatternWhole_unfold [OF cv] scene_foldl_animatePath_last)
    with two have ex: "\<exists>path \<in> set (fst (scene ?fin)). 2 \<le> length (points path)"
      unfolding w by blast
    then have "filter (\<lambda>path. \<not> length (points path) < 2) (fst (scene ?fin)) \<noteq> []"
      by (auto simp: filter_empty_conv not_less)
    then have "drawRakeGrooves ?fin \<noteq> []"
      by (simp add: drawRakeGrooves_def)
    with fl over w ex show ?thesis by blast
  qed
  show ?thesis
    using gen drawable_patterns [of _ r k] drawable_generateZenPattern [of r k] by blast
qed

theorem C7_generate_leaves_groove_witness:
  "drawable (fst (spiralGarden canvas800 (rnd env0) 0)) \<and>
   tasks (run init [GeneratePattern rakeProps env0]) \<noteq> [] \<and>
   tasks (run init (GeneratePattern rakeProps env0 # replicate (awaits canvas800 env0) (Tick 0))) = [] \<and>
   drawRakeGrooves (run init (GeneratePattern rakeProps env0 # replicate (awaits canvas800 env0) (Tick 0)))
     \<noteq> []"
proof -
  have "spiralGarden \<in> set patterns" by (simp add: patterns_def)
  moreover have "canvasRef rakeProps = Some canvas800 \<and> tasks init = []"
    by (simp add: rakeProps_def init_def)
  moreover have "0 < awaits canvas800 env0" by (rule awaits_pos)
  moreover have "GeneratePattern rakeProps env0 # replicate 0 (Tick 0) = [GeneratePattern rakeProps env0]"
    by simp
  ultimately show ?thesis
    using C7_generate_leaves_groove [of "rnd env0" 0 rakeProps init env0] by metis
qed

text \<open>
  A call whose run is disturbed: the garden is reset while the call is in its last pause.
  The call was in flight at the reset and has ended after its next timer; the scene is
  empty and nothing is drawn.
\<close>

theorem C7_reset_before_end_counterexample:
  "tasks (run init (GeneratePattern rakeProps env0 # replicate (awaits canvas800 env0 - 1) (Tick 0))) \<noteq> [] \<and>
   tasks (run init (GeneratePattern rakeProps env0 # replicate (awaits canvas800 env0 - 1) (Tick 0)
                    @ [ClearGarden, Tick 0])) = [] \<and>
   scene (run init (GeneratePattern rakeProps env0 # replicate (awaits canvas800 env0 - 1) (Tick 0)
                    @ [ClearGarden, Tick 0])) = ([], []) \<and>
   drawRakeGrooves (run init (GeneratePattern rakeProps env0 # replicate (awaits canvas800 env0 - 1) (Tick 0)
                              @ [ClearGarden, Tick 0])) = []"
proof -
  obtain paths k where g: "generateZenPattern canvas800 (rnd env0) 0 = (paths, k)"
    by (cases "generateZenPattern canvas800 (rnd env0) 0")
  have "drawable paths"
    using drawable_generateZenPattern [of "rnd env0" 0] by (simp add: g)
  then have ne: "paths \<noteq> []" and "2 \<le> length (points (last paths))"
    by (simp_all add: drawable_def)
  then have pts: "points (last paths) \<noteq> []"
    by auto
  have no: "\<not> val (rnd env0 k) > 0.3"
    by (simp add: env0_def val0)
  have idle: "tasks init = []" and cv: "canvasRef rakeProps = Some canvas800"
    by (simp_all add: init_def rakeProps_def)
  have fin: "run init (GeneratePattern rakeProps env0 # replicate (awaits canvas800 env0 - 1) (Tick 0)
                       @ [ClearGarden, Tick 0])
               = clearGarden (generatePatternWhole rakeProps env0 init)"
    using idle cv g ne pts no by (rule reset_in_last_pause)
  have "awaits canvas800 env0 - 1 < awaits canvas800 env0"
    using awaits_pos [of env0] by simp
  then have before: "tasks (run init (GeneratePattern rakeProps env0
                                      # replicate (awaits canvas800 env0 - 1) (Tick 0))) \<noteq> []"
    by (rule generatePattern_in_flight_until [OF idle cv])
  have "tasks (generatePatternWhole rakeProps env0 init) = []"
    using idle by (simp add: generatePatternWhole_unfold [OF cv])
  then have "tasks (clearGarden (generatePatternWhole rakeProps env0 init)) = []"
    by (simp add: clearGarden_def)
  moreover have "scene (clearGarden (generatePatternWhole rakeProps env0 init)) = ([], [])"
    by (simp add: scene_def clearGarden_def)
  moreover have "drawRakeGrooves (clearGarden (generatePatternWhole rakeProps env0 init)) = []"
    by (simp add: drawRakeGrooves_def scene_def clearGarden_def)
  ultimately show ?thesis
    using before by (simp only: fin) simp
qed

subsection \<open>Logical actions, seen through the store\<close>

lemma heap_old_pointerDown: "a < nxt s \<Longrightarrow> heap (pointerDown p e point s) a = heap s a"
  by (cases "tool p") (simp_all add: pointerDown_def Let_def)

lemma tasks_pointerDown [simp]: "tasks (pointerDown p e point s) = tasks s"
  by (cases "tool p") (simp_all add: pointerDown_def Let_def)

lemma tasks_mutate: "tasks s = [] \<Longrightarrow> tasks (mutate s m) = []"
proof (cases m)
  case (RakeMouse cv sel e p0 pts)
  then show "tasks s = [] \<Longrightarrow> ?thesis" by (simp add: mutate_RakeMouse)
next
  case (RakeTouch cv sel e t0 rest moves)
  then show "tasks s = [] \<Longrightarrow> ?thesis" by (simp add: mutate_RakeTouch mutate_RakeMouse)
next
  case (PlaceMouse cv sel e point)
  then show "tasks s = [] \<Longrightarrow> ?thesis"
    by (simp add: mutate_def run_Cons run_Nil handleMouseDown_def handleMouseUp_def)
next
  case (PlaceTouch cv sel e t0 rest)
  then show "tasks s = [] \<Longrightarrow> ?thesis"
    by (simp add: mutate_def run_Cons run_Nil handleTouchStart_def handleTouchEnd_def)
next
  case Reset
  then show "tasks s = [] \<Longrightarrow> ?thesis" by (simp add: mutate_def run_Cons run_Nil clearGarden_def)
next
  case (Generate cv tl0 sel e)
  then show "tasks s = [] \<Longrightarrow> ?thesis"
    by (simp add: mutate_Generate generatePatternWhole_unfold)
qed

lemma tasks_mutations: "tasks (mutations init ms) = []"
proof (induction ms rule: rev_induct)
  case Nil
  show ?case by (simp add: mutations_def init_def)
next
  case (snoc m ms)
  then show ?case by (simp add: mutations_def tasks_mutate)
qed

lemma heap_old_mutate: "tasks s = [] \<Longrightarrow> a < nxt s \<Longrightarrow> heap (mutate s m) a = heap s a"
proof (cases m)
  case (RakeMouse cv sel e p0 pts)
  then show "a < nxt s \<Longrightarrow> ?thesis" by (simp add: mutate_RakeMouse)
next
  case (RakeTouch cv sel e t0 rest moves)
  then show "a < nxt s \<Longrightarrow> ?thesis" by (simp add: mutate_RakeTouch mutate_RakeMouse)
next
  case (PlaceMouse cv sel e point)
  then show "a < nxt s \<Longrightarrow> ?thesis"
    by (simp add: mutate_def run_Cons run_Nil handleMouseDown_def handleMouseUp_def heap_old_pointerDown)
next
  case (PlaceTouch cv sel e t0 rest)
  then show "a < nxt s \<Longrightarrow> ?thesis"
    by (simp add: mutate_def run_Cons run_Nil handleTouchStart_def handleTouchEnd_def heap_old_pointerDown)
next
  case Reset
  then show "a < nxt s \<Longrightarrow> ?thesis" by (simp add: mutate_def run_Cons run_Nil clearGarden_def)
next
  case (Generate cv tl0 sel e)
  then show "tasks s = [] \<Longrightarrow> a < nxt s \<Longrightarrow> ?thesis"
    by (simp add: mutate_Generate generatePatternWhole_heap_old)
qed

lemma allocated_mutate: "allocated s \<Longrightarrow> allocated (mutate s m)"
  by (simp add: mutate_def allocated_run)

lemma allocated_mutations: "allocated s \<Longrightarrow> allocated (mutations s ms)"
  unfolding mutations_def by (induction ms arbitrary: s) (simp_all add: allocated_mutate)

lemma map_slice_last: "map f (slice_last n xs) = slice_last n (map f xs)"
  by (simp add: slice_last_def drop_map)

lemma history_mutate:
  assumes "allocated s" "tasks s = []"
  shows "history (mutate s m) = slice_last 20 (history s @ [scene s])"
proof -
  let ?snap = "\<lparr>rakePaths = rakePaths s, placedObjects = placedObjects s\<rparr>"
  have old: "view (heap (mutate s m)) c = view (heap s) c"
    if "\<forall>q \<in> set (rakePaths c). points q < nxt s" for c
    using that assms(2) by (intro view_cong_heap) (simp add: heap_old_mutate)
  have A: "map (view (heap (mutate s m))) (undoStack s) = map (view (heap s)) (undoStack s)"
    using assms by (intro map_cong refl old) (auto simp: allocated_def)
  have B: "view (heap (mutate s m)) ?snap = view (heap s) ?snap"
    using assms by (intro old) (auto simp: allocated_def)
  show ?thesis
    by (simp add: history_def undoStack_mutate undoStack_saveState map_slice_last scene_eq_view A B)
qed

lemma mutations_snoc: "mutations s (ms @ [m]) = mutate (mutations s ms) m"
  by (simp add: mutations_def)

lemma slice_last_slice_last_snoc: "slice_last n (slice_last n xs @ [x]) = slice_last n (xs @ [x])"
proof (cases "length xs \<le> n")
  case True
  then show ?thesis by (simp add: slice_last_def)
next
  case False
  then have "Suc (length xs) - n = Suc (length xs - n)" by simp
  with False show ?thesis by (simp add: slice_last_def)
qed

lemma last_take_nth: "0 < k \<Longrightarrow> k \<le> length xs \<Longrightarrow> last (take k xs) = xs ! (k - 1)"
proof -
  assume k: "0 < k" "k \<le> length xs"
  then have "take k xs \<noteq> []" by auto
  then have "last (take k xs) = take k xs ! (length (take k xs) - 1)"
    by (rule last_conv_nth)
  also have "\<dots> = xs ! (k - 1)"
    using k by (simp add: min_absorb2)
  finally show ?thesis .
qed

lemma history_mutations:
  "history (mutations init ms)
     = slice_last 20 (map (\<lambda>i. scene (mutations init (take i ms))) [0..<length ms])"
proof (induction ms rule: rev_induct)
  case Nil
  show ?case by (simp add: mutations_def history_def init_def slice_last_def)
next
  case (snoc m ms)
  have "allocated (mutations init ms)"
    by (intro allocated_mutations allocated_init)
  then have "history (mutations init (ms @ [m]))
               = slice_last 20 (history (mutations init ms) @ [scene (mutations init ms)])"
    by (simp add: mutations_snoc history_mutate tasks_mutations)
  also have "\<dots> = slice_last 20 (map (\<lambda>i. scene (mutations init (take i ms))) [0..<length ms]
                                  @ [scene (mutations init ms)])"
    by (simp add: snoc.IH slice_last_slice_last_snoc)
  also have "map (\<lambda>i. scene (mutations init (take i ms))) [0..<length ms] @ [scene (mutations init ms)]
               = map (\<lambda>i. scene (mutations init (take i (ms @ [m])))) [0..<length (ms @ [m])]"
    by simp
  finally show ?case .
qed

lemma history_undo_pow: "history ((undo ^^ j) s) = take (length (history s) - j) (history s)"
proof (induction j)
  case 0
  show ?case by simp
next
  case (Suc j)
  show ?case by (simp add: history_undo Suc.IH butlast_take)
qed

lemma scene_undo_last: "undoStack s \<noteq> [] \<Longrightarrow> scene (undo s) = last (history s)"
  by (simp add: scene_undo history_def last_map)

lemma length_history [simp]: "length (history s) = length (undoStack s)"
  by (simp add: history_def)

lemma scene_undo_pow:
  assumes "j < length (undoStack s)"
  shows "scene ((undo ^^ Suc j) s) = history s ! (length (undoStack s) - Suc j)"
proof -
  let ?t = "(undo ^^ j) s"
  have h: "history ?t = take (length (undoStack s) - j) (history s)"
    by (simp add: history_undo_pow)
  then have "length (history ?t) = length (undoStack s) - j"
    by simp
  then have ne: "undoStack ?t \<noteq> []"
    using assms by auto
  then have "scene (undo ?t) = last (history ?t)"
    by (rule scene_undo_last)
  also have "\<dots> = history s ! (length (undoStack s) - Suc j)"
    using assms by (simp add: h last_take_nth)
  finally show ?thesis by simp
qed

lemma scene_undo_all:
  "scene ((undo ^^ length ms) (mutations init ms)) = scene (mutations init (take (length ms - 20) ms))"
proof (cases "ms = []")
  case True
  then show ?thesis by simp
next
  case False
  let ?s = "mutations init ms"
  let ?N = "length ms"
  let ?n = "min 20 ?N"
  have len: "length (undoStack ?s) = ?n"
    using length_undoStack_mutations [of init ms] by (simp add: init_def)
  have pos: "0 < ?n" using False by simp
  have "(undo ^^ ?N) ?s = (undo ^^ ?n) ?s"
    by (rule undo_pow_fixed) (simp_all add: len)
  also have "(undo ^^ ?n) ?s = (undo ^^ Suc (?n - 1)) ?s"
    using pos by simp
  finally have "scene ((undo ^^ ?N) ?s) = scene ((undo ^^ Suc (?n - 1)) ?s)"
    by simp
  also have "\<dots> = history ?s ! (length (undoStack ?s) - Suc (?n - 1))"
  proof (rule scene_undo_pow)
    show "?n - 1 < length (undoStack ?s)"
      unfolding len using pos by linarith
  qed
  also have "\<dots> = history ?s ! 0"
    using pos by (simp add: len)
  also have "\<dots> = scene (mutations init (take (?N - 20) ms))"
    using False by (simp add: history_mutations slice_last_def)
  finally show ?thesis .
qed

lemma scene_undo_once:
  "scene (undo (mutations init (ms @ [m]))) = scene (mutations init ms)"
proof -
  have ne: "undoStack (mutations init (ms @ [m])) \<noteq> []"
    by (simp add: mutations_snoc undoStack_mutate undoStack_saveState slice_last_snoc_ne)
  have "allocated (mutations init ms)"
    by (intro allocated_mutations allocated_init)
  then have "last (history (mutations init (ms @ [m]))) = scene (mutations init ms)"
    by (simp add: mutations_snoc history_mutate tasks_mutations slice_last_snoc_last)
  then show ?thesis
    using scene_undo_last [OF ne] by simp
qed

lemma undo_after_all:
  "undo ((undo ^^ length ms) (mutations init ms)) = (undo ^^ length ms) (mutations init ms)" 
  "undoStack ((undo ^^ length ms) (mutations init ms)) = []"
proof -
  have "length (undoStack (mutations init ms)) \<le> length ms"
    using length_undoStack_mutations [of init ms] by (simp add: init_def)
  then show "undoStack ((undo ^^ length ms) (mutations init ms)) = []"
    by (simp add: undoStack_undo_pow)
  then show "undo ((undo ^^ length ms) (mutations init ms)) = (undo ^^ length ms) (mutations init ms)"
    by (rule undo_empty)
qed

text \<open>
  C1, as the code has it: after any sequence of logical actions (rake gestures,
  placements, resets, pattern generations) from the empty initial scene, one undo brings
  back the scene, grooves and objects, exactly as it was before the last action.  After
  N actions, N undos bring back the empty initial scene when N is at most 20, the
  capacity of the undo stack; in general they bring back the scene as it was after the
  first N - 20 actions.  The stack is then empty and one more undo changes nothing.
\<close>

theorem C1_undo_restores:
  "scene (undo (mutations init (ms @ [m]))) = scene (mutations init ms) \<and>
   (length ms \<le> 20 \<longrightarrow> scene ((undo ^^ length ms) (mutations init ms)) = scene init) \<and>
   scene init = ([], []) \<and>
   scene ((undo ^^ length ms) (mutations init ms)) = scene (mutations init (take (length ms - 20) ms)) \<and>
   undoStack ((undo ^^ length ms) (mutations init ms)) = [] \<and>
   undo ((undo ^^ length ms) (mutations init ms)) = (undo ^^ length ms) (mutations init ms)"
proof -
  have "scene ((undo ^^ length ms) (mutations init ms)) = scene init" if "length ms \<le> 20"
    using that scene_undo_all [of ms] by (simp add: mutations_def)
  moreover have "scene init = ([], [])"
    by (simp add: scene_def init_def)
  ultimately show ?thesis
    using scene_undo_once [of ms m] scene_undo_all [of ms] undo_after_all [of ms] by blast
qed

theorem C1_undo_restores_witness:
  "scene ((undo ^^ 2) (mutations init [PlaceMouse canvas800 Stone env0 (point_at 100 100), Reset]))
     = scene init"
proof -
  let ?ms = "[PlaceMouse canvas800 Stone env0 (point_at 100 100), Reset]"
  have "length ?ms \<le> 20" by simp
  with C1_undo_restores [of ?ms Reset]
  have "scene ((undo ^^ length ?ms) (mutations init ?ms)) = scene init"
    by blast
  moreover have "length ?ms = 2" by simp
  ultimately show ?thesis by (simp only:)
qed

theorem C1_undo_all_counterexample:
  "scene ((undo ^^ 21) (mutations init (replicate 21 (PlaceMouse canvas800 Stone env0 (point_at 100 100)))))
     \<noteq> scene init"
proof -
  define m where "m = PlaceMouse canvas800 Stone env0 (point_at 100 100)"
  define ms where "ms = replicate 21 m"
  have len: "length ms = 21" by (simp add: ms_def)
  have "take (length ms - 20) ms = [m]"
    unfolding len by (simp add: ms_def)
  then have "scene ((undo ^^ length ms) (mutations init ms)) = scene (mutations init [m])"
    using scene_undo_all [of ms] by simp
  then have "scene ((undo ^^ 21) (mutations init ms)) = scene (mutate init m)"
    unfolding len by (simp add: mutations_def)
  moreover have "snd (scene (mutate init m)) \<noteq> []"
    by (simp add: m_def mutate_def scene_def run_Cons run_Nil handleMouseDown_def pointerDown_def
                  handleMouseUp_def Let_def)
  moreover have "snd (scene init) = []"
    by (simp add: scene_def init_def)
  ultimately show ?thesis
    unfolding ms_def m_def by metis
qed

subsection \<open>The two themes: curves and layouts\<close>

declare circlesLoop_wood.simps [simp del] ellipsesLoop_wood.simps [simp del]
  ripplesLoop_wood.simps [simp del]

lemma generateSpiralPattern_wood_eq: "generateSpiralPattern_wood = generateSpiralPattern"
  by (simp add: fun_eq_iff generateSpiralPattern_wood_def generateSpiralPattern_def)

lemma generateWavePattern_wood_eq: "generateWavePattern_wood = generateWavePattern"
  by (simp add: fun_eq_iff generateWavePattern_wood_def generateWavePattern_def)

lemma generateCirclePattern_wood_eq: "generateCirclePattern_wood = generateCirclePattern"
  by (simp add: fun_eq_iff generateCirclePattern_wood_def generateCirclePattern_def)

lemma generateEllipsePattern_wood_eq: "generateEllipsePattern_wood = generateEllipsePattern"
  by (simp add: fun_eq_iff generateEllipsePattern_wood_def generateEllipsePattern_def)

lemma circlesLoop_wood_eq:
  "circlesLoop_wood cx cy bound radius r k = circlesLoop cx cy bound radius r k"
proof (induction cx cy bound radius r k rule: circlesLoop.induct)
  case (1 cx cy bound radius r k)
  show ?case
  proof (cases "radius < bound")
    case True
    have "circlesLoop_wood cx cy bound (radius + 40) r (k + 1) = circlesLoop cx cy bound (radius + 40) r (k + 1)"
      using True by (intro "1.IH") simp_all
    then show ?thesis
      using True
      by (subst circlesLoop.simps, subst circlesLoop_wood.simps) (simp add: generateCirclePattern_wood_eq Let_def)
  next
    case False
    then show ?thesis
      by (subst circlesLoop.simps, subst circlesLoop_wood.simps) simp
  qed
qed

lemma ellipsesLoop_wood_eq:
  "ellipsesLoop_wood cx cy mx my rr r k = ellipsesLoop cx cy mx my rr r k"
proof (induction cx cy mx my rr r k rule: ellipsesLoop.induct)
  case (1 cx cy mx my rr r k)
  show ?case
  proof (cases "rr < mx")
    case True
    have "ellipsesLoop_wood cx cy mx my (rr + 36) r (k + 1) = ellipsesLoop cx cy mx my (rr + 36) r (k + 1)"
      using True by (intro "1.IH") simp_all
    then show ?thesis
      using True
      by (subst ellipsesLoop.simps, subst ellipsesLoop_wood.simps) (simp add: generateEllipsePattern_wood_eq Let_def)
  next
    case False
    then show ?thesis
      by (subst ellipsesLoop.simps, subst ellipsesLoop_wood.simps) simp
  qed
qed

lemma ripplesLoop_wood_eq:
  "ripplesLoop_wood c cx cy maxR rr r k = ripplesLoop c cx cy maxR rr r k"
proof (induction c cx cy maxR rr r k rule: ripplesLoop.induct)
  case (1 c cx cy maxR rr r k)
  show ?case
  proof (cases "rr < maxR")
    case True
    have "ripplesLoop_wood c cx cy maxR (rr + (32 + val (r (k + 1)) * 12)) r (k + 2) = ripplesLoop c cx cy maxR (rr + (32 + val (r (k + 1)) * 12)) r (k + 2)"
      using True by (intro "1.IH") simp_all
    then show ?thesis
      using True
      by (subst ripplesLoop.simps, subst ripplesLoop_wood.simps) (simp add: generateCirclePattern_wood_eq Let_def)
  next
    case False
    then show ?thesis
      by (subst ripplesLoop.simps, subst ripplesLoop_wood.simps) simp
  qed
qed

lemma concentricCircles_wood_eq: "concentricCircles_wood = concentricCircles"
  by (simp add: fun_eq_iff concentricCircles_wood_def concentricCircles_def circlesLoop_wood_eq)

lemma spiralGarden_wood_eq: "spiralGarden_wood = spiralGarden"
  by (simp add: fun_eq_iff spiralGarden_wood_def spiralGarden_def generateSpiralPattern_wood_eq)

lemma wavePatterns_wood_eq: "wavePatterns_wood = wavePatterns"
  by (simp add: fun_eq_iff wavePatterns_wood_def wavePatterns_def generateWavePattern_wood_eq)

lemma petalPoints_wood_eq: "petalPoints_wood = petalPoints"
  by (simp add: fun_eq_iff petalPoints_wood_def petalPoints_def)

lemma mandala_wood_eq: "mandala_wood = mandala"
  by (simp add: fun_eq_iff mandala_wood_def mandala_def petalPoints_wood_eq
                generateCirclePattern_wood_eq)

lemma zenLines_wood_eq: "zenLines_wood = zenLines"
  by (simp add: fun_eq_iff zenLines_wood_def zenLines_def)

lemma ellipticalRings_wood_eq: "ellipticalRings_wood = ellipticalRings"
  by (simp add: fun_eq_iff ellipticalRings_wood_def ellipticalRings_def ellipsesLoop_wood_eq)

lemma doubleSpiral_wood_eq: "doubleSpiral_wood = doubleSpiral"
  by (simp add: fun_eq_iff doubleSpiral_wood_def doubleSpiral_def generateSpiralPattern_wood_eq)

lemma bambooGrove_wood_eq: "bambooGrove_wood = bambooGrove"
  by (simp add: fun_eq_iff bambooGrove_wood_def bambooGrove_def)

lemma multiCenterRipples_wood_eq: "multiCenterRipples_wood = multiCenterRipples"
  by (simp add: fun_eq_iff multiCenterRipples_wood_def multiCenterRipples_def ripplesLoop_wood_eq)

lemma serpentineFill_wood_eq: "serpentineFill_wood = serpentineFill"
  by (simp add: fun_eq_iff serpentineFill_wood_def serpentineFill_def)

lemma patterns_wood_eq: "patterns_wood = patterns"
  by (simp add: patterns_wood_def patterns_def concentricCircles_wood_eq spiralGarden_wood_eq
                wavePatterns_wood_eq mandala_wood_eq zenLines_wood_eq ellipticalRings_wood_eq
                doubleSpiral_wood_eq bambooGrove_wood_eq multiCenterRipples_wood_eq
                serpentineFill_wood_eq)

lemma generateZenPattern_wood_eq: "generateZenPattern_wood = generateZenPattern"
  by (simp add: fun_eq_iff generateZenPattern_wood_def generateZenPattern_def patterns_wood_eq)

lemma updateCurrentPath_wood_eq: "updateCurrentPath_wood = updateCurrentPath"
  by (simp add: fun_eq_iff updateCurrentPath_wood_def updateCurrentPath_def)

lemma autoObject_wood_eq: "autoObject_wood = autoObject"
  by (simp add: fun_eq_iff autoObject_wood_def autoObject_def objectTypes_wood_def objectTypes_def)


subsection \<open>The two themes: the controller\<close>

lemma controller_fields [simp]:
  "rakePaths (controller s) = rakePaths s"
  "placedObjects (controller s) = placedObjects s"
  "isDrawing (controller s) = isDrawing s"
  "undoStack (controller s) = undoStack s"
  "currentPathRef (controller s) = currentPathRef s"
  "lastPointRef (controller s) = lastPointRef s"
  "heap (controller s) = heap s"
  "nxt (controller s) = nxt s"
  "tasks (controller s) = tasks s"
  by (simp_all add: controller_def)

lemma controller_updates [simp]:
  "controller (s\<lparr>rakePaths := a\<rparr>) = (controller s)\<lparr>rakePaths := a\<rparr>"
  "controller (s\<lparr>placedObjects := b\<rparr>) = (controller s)\<lparr>placedObjects := b\<rparr>"
  "controller (s\<lparr>isDrawing := c\<rparr>) = (controller s)\<lparr>isDrawing := c\<rparr>"
  "controller (s\<lparr>undoStack := d\<rparr>) = (controller s)\<lparr>undoStack := d\<rparr>"
  "controller (s\<lparr>currentPathRef := f\<rparr>) = (controller s)\<lparr>currentPathRef := f\<rparr>"
  "controller (s\<lparr>lastPointRef := g\<rparr>) = (controller s)\<lparr>lastPointRef := g\<rparr>"
  "controller (s\<lparr>heap := h\<rparr>) = (controller s)\<lparr>heap := h\<rparr>"
  "controller (s\<lparr>nxt := n\<rparr>) = (controller s)\<lparr>nxt := n\<rparr>"
  "controller (s\<lparr>tasks := ts\<rparr>) = (controller s)\<lparr>tasks := ts\<rparr>"
  "controller (s\<lparr>backgroundCacheRef := bc\<rparr>) = controller s"
  "controller (s\<lparr>backgroundSizeRef := bs\<rparr>) = controller s"
  by (simp_all add: controller_def)

lemma controller_saveState: "controller (saveState_wood s) = saveState (controller s)"
  by (simp add: saveState_wood_def saveState_def)

lemma controller_pointerDown: "controller (pointerDown_wood p e point s) = pointerDown p e point (controller s)"
  by (simp add: pointerDown_wood_def pointerDown_def Let_def saveState_wood_def saveState_def
           split: Tool.splits)

lemma controller_handleMouseDown:
  "controller (handleMouseDown_wood p e point s) = handleMouseDown p e point (controller s)"
  by (simp add: handleMouseDown_wood_def handleMouseDown_def controller_pointerDown split: option.splits)

lemma controller_handleTouchStart:
  "controller (handleTouchStart_wood p e touches s) = handleTouchStart p e touches (controller s)"
  by (simp add: handleTouchStart_wood_def handleTouchStart_def controller_pointerDown
           split: option.splits list.splits)

lemma controller_pointerMove: "controller (pointerMove_wood point s) = pointerMove point (controller s)"
  by (simp add: pointerMove_wood_def pointerMove_def updateCurrentPath_wood_eq split: option.splits)

lemma controller_handleMouseMove:
  "controller (handleMouseMove_wood p point s) = handleMouseMove p point (controller s)"
  by (simp add: handleMouseMove_wood_def handleMouseMove_def controller_pointerMove split: option.splits)

lemma controller_handleTouchMove:
  "controller (handleTouchMove_wood p touches s) = handleTouchMove p touches (controller s)"
  by (simp add: handleTouchMove_wood_def handleTouchMove_def controller_pointerMove split: option.splits)

lemma controller_handleMouseUp: "controller (handleMouseUp_wood s) = handleMouseUp (controller s)"
  by (simp add: handleMouseUp_wood_def handleMouseUp_def)

lemma controller_handleTouchEnd: "controller (handleTouchEnd_wood s) = handleTouchEnd (controller s)"
  by (simp add: handleTouchEnd_wood_def handleTouchEnd_def)

lemma controller_clearGarden: "controller (clearGarden_wood s) = clearGarden (controller s)"
  by (simp add: clearGarden_wood_def clearGarden_def controller_saveState)

lemma controller_undo: "controller (undo_wood s) = undo (controller s)"
  by (simp add: undo_wood_def undo_def Let_def)

lemma controller_animateStep:
  "controller (animateStep_wood path a s point) = animateStep path a (controller s) point"
  by (simp add: animateStep_wood_def animateStep_def)

lemma startObjects_wood_eq: "startObjects_wood = startObjects"
  by (simp add: fun_eq_iff startObjects_wood_def startObjects_def)

lemma controller_nextPath:
  "controller (fst (nextPath_wood cv e k paths s)) = fst (nextPath cv e k paths (controller s)) \<and>
   snd (nextPath_wood cv e k paths s) = snd (nextPath cv e k paths (controller s))"
proof (induction paths arbitrary: s)
  case Nil
  show ?case by (simp add: startObjects_wood_eq)
next
  case (Cons path paths)
  show ?case
    using Cons.IH [of "s\<lparr>heap := (heap s)(nxt s := []), nxt := nxt s + 1\<rparr>"]
    by (cases "points path") (simp_all add: Let_def controller_animateStep)
qed

lemma controller_resume:
  "controller (fst (resume_wood t s)) = fst (resume t (controller s)) \<and>
   snd (resume_wood t s) = snd (resume t (controller s))"
proof (cases t)
  case (Animating cv e k path a pts paths)
  then show ?thesis
    by (cases pts) (simp_all add: controller_animateStep controller_nextPath)
next
  case (Placing cv e k i objectCount)
  then show ?thesis
    by (simp add: autoObject_wood_eq)
qed

lemma tick_wood_unfold:
  "tick_wood n s =
     (if n < length (tasks s) then
        (case snd (resume_wood (tasks s ! n) s) of
           None \<Rightarrow> (fst (resume_wood (tasks s ! n) s))
                      \<lparr>tasks := take n (tasks (fst (resume_wood (tasks s ! n) s)))
                                @ drop (Suc n) (tasks (fst (resume_wood (tasks s ! n) s)))\<rparr>
         | Some t \<Rightarrow> (fst (resume_wood (tasks s ! n) s))
                        \<lparr>tasks := (tasks (fst (resume_wood (tasks s ! n) s)))[n := t]\<rparr>)
      else s)"
  by (cases "resume_wood (tasks s ! n) s") (simp add: tick_wood_def split: option.splits)

lemma tick_unfold_fst:
  "tick n s =
     (if n < length (tasks s) then
        (case snd (resume (tasks s ! n) s) of
           None \<Rightarrow> (fst (resume (tasks s ! n) s))
                      \<lparr>tasks := take n (tasks (fst (resume (tasks s ! n) s)))
                                @ drop (Suc n) (tasks (fst (resume (tasks s ! n) s)))\<rparr>
         | Some t \<Rightarrow> (fst (resume (tasks s ! n) s))
                        \<lparr>tasks := (tasks (fst (resume (tasks s ! n) s)))[n := t]\<rparr>)
      else s)"
  by (cases "resume (tasks s ! n) s") (simp add: tick_def split: option.splits)

lemma controller_tick: "controller (tick_wood n s) = tick n (controller s)"
proof -
  have 1: "controller (fst (resume_wood (tasks s ! n) s)) = fst (resume (tasks s ! n) (controller s))"
    and 2: "snd (resume_wood (tasks s ! n) s) = snd (resume (tasks s ! n) (controller s))"
    using controller_resume [of "tasks s ! n" s] by simp_all
  have 3: "tasks (fst (resume_wood (tasks s ! n) s)) = tasks (fst (resume (tasks s ! n) (controller s)))"
    using arg_cong [OF 1, of tasks] by simp
  show ?thesis
    by (subst tick_wood_unfold, subst tick_unfold_fst) (simp add: 1 2 3 split: option.splits)
qed

lemma generatePattern_wood_unfold:
  "generatePattern_wood p e s =
     (case canvasRef p of
        None \<Rightarrow> s
      | Some cv \<Rightarrow>
          (let r = nextPath_wood cv e (snd (generateZenPattern_wood cv (rnd e) 0))
                     (fst (generateZenPattern_wood cv (rnd e) 0))
                     ((saveState_wood s)\<lparr>rakePaths := [], placedObjects := []\<rparr>)
           in case snd r of
                None \<Rightarrow> fst r
              | Some t \<Rightarrow> (fst r)\<lparr>tasks := tasks (fst r) @ [t]\<rparr>))"
  by (simp add: generatePattern_wood_def Let_def split: option.splits prod.splits)

lemma controller_generatePattern:
  "controller (generatePattern_wood p e s) = generatePattern p e (controller s)"
proof (cases "canvasRef p")
  case None
  then show ?thesis
    by (simp add: generatePattern_wood_unfold generatePattern_def)
next
  case (Some cv)
  let ?paths = "fst (generateZenPattern cv (rnd e) 0)"
  let ?k = "snd (generateZenPattern cv (rnd e) 0)"
  let ?w = "(saveState_wood s)\<lparr>rakePaths := [], placedObjects := []\<rparr>"
  have 0: "controller ?w = (saveState (controller s))\<lparr>rakePaths := [], placedObjects := []\<rparr>"
    by (simp add: controller_saveState)
  have 1: "controller (fst (nextPath_wood cv e ?k ?paths ?w))
             = fst (nextPath cv e ?k ?paths ((saveState (controller s))\<lparr>rakePaths := [], placedObjects := []\<rparr>))"
    and 2: "snd (nextPath_wood cv e ?k ?paths ?w)
             = snd (nextPath cv e ?k ?paths ((saveState (controller s))\<lparr>rakePaths := [], placedObjects := []\<rparr>))"
    using controller_nextPath [of cv e ?k ?paths ?w] by (simp_all only: 0)
  have 3: "tasks (fst (nextPath_wood cv e ?k ?paths ?w))
             = tasks (fst (nextPath cv e ?k ?paths ((saveState (controller s))\<lparr>rakePaths := [], placedObjects := []\<rparr>)))"
    using arg_cong [OF 1, of tasks] by simp
  then have 4: "tasks (fst (nextPath_wood cv e ?k ?paths ?w)) = tasks s"
    by (simp add: saveState_def)
  show ?thesis
    by (subst generatePattern_wood_unfold, subst generatePattern_unfold [OF Some])
       (simp add: Some generateZenPattern_wood_eq Let_def 1 2 4 split: option.splits)
qed

lemma controller_render: "controller (render_wood cref ctx s) = controller s"
  by (simp add: render_wood_def getBackgroundCanvas_wood_def Let_def split: option.splits)

lemma controller_step_Input: "controller (step_wood s (Input ev)) = step (controller s) ev"
  by (cases ev)
     (simp_all add: controller_handleMouseDown controller_handleMouseMove controller_handleMouseUp
                    controller_handleTouchStart controller_handleTouchMove controller_handleTouchEnd
                    controller_clearGarden controller_undo controller_generatePattern
                    controller_tick)

lemma controller_run: "controller (run_wood s os) = run (controller s) (inputs os)"
proof (induction os arbitrary: s)
  case Nil
  show ?case by (simp add: run_wood_def run_def)
next
  case (Cons oc os)
  have "controller (run_wood (step_wood s oc) os) = run (controller (step_wood s oc)) (inputs os)"
    by (rule Cons.IH)
  then show ?case
    by (cases oc) (simp_all add: run_wood_def run_def controller_step_Input controller_render)
qed

lemma controller_init: "controller init_wood = init"
  by (simp add: controller_def init_wood_def init_def)

text \<open>
  C9: the hook of the light theme and the hook of the dark theme are the same controller.
  Started from their initial states on the same input events (with the same clock
  readings and random draws), with the light theme rendering whenever it likes, the two
  hooks agree on everything but the background cache of the light theme: grooves,
  points arrays, placed objects, undo stack and gesture state.  Every input event is
  handled alike, and a render of the light theme changes nothing but its cache.
\<close>

theorem C9_themes_same_controller:
  "controller (run_wood init_wood os) = run init (inputs os) \<and>
   scene (controller (run_wood init_wood os)) = scene (run init (inputs os)) \<and>
   history (controller (run_wood init_wood os)) = history (run init (inputs os)) \<and>
   controller (step_wood s (Input ev)) = step (controller s) ev \<and>
   controller (step_wood s (Render cref ctx)) = controller s"
proof -
  have "controller (run_wood init_wood os) = run init (inputs os)"
    by (simp add: controller_run controller_init)
  then show ?thesis
    by (simp add: controller_step_Input controller_render)
qed

end
